(* ===== verification/Prelude.thy ===== *)
theory Prelude
  imports Main "HOL-Library.Sublist" "HOL-Library.Word"
begin

text \<open>
  What every component of the daichod model shares: results that may be an error
  (\<open>'e + 'a\<close>, with \<open>Inl\<close> for a thrown error), the three ways a piece of C++ code can
  end (\<open>flow\<close>: it returns, it throws, or the process is gone), and the members of
  \<^verbatim>\<open>std::string\<close> and \<^verbatim>\<open>std::to_string\<close> the sources use. Strings are byte strings
  (\<open>string = char list\<close>), as \<^verbatim>\<open>std::string\<close> is.
\<close>

named_theorems result_simps \<open>rewrite rules for results, guards and flows\<close>
named_theorems result_elims \<open>inversion of successful results\<close>
named_theorems preserve_intros \<open>one rule per operation: it keeps the component invariant\<close>

type_synonym bytes = string
type_synonym int64 = int

section \<open>Results\<close>

definition and_then :: "'e + 'a \<Rightarrow> ('a \<Rightarrow> 'e + 'b) \<Rightarrow> 'e + 'b" where
  "and_then r k = (case r of Inl e \<Rightarrow> Inl e | Inr a \<Rightarrow> k a)"

definition require :: "bool \<Rightarrow> 'e \<Rightarrow> 'e + unit" where
  "require b e = (if b then Inr () else Inl e)"

fun traverse :: "('a \<Rightarrow> 'e + 'b) \<Rightarrow> 'a list \<Rightarrow> 'e + 'b list" where
  "traverse f [] = Inr []"
| "traverse f (x # xs) =
     (case f x of Inl e \<Rightarrow> Inl e
      | Inr y \<Rightarrow> (case traverse f xs of Inl e \<Rightarrow> Inl e | Inr ys \<Rightarrow> Inr (y # ys)))"

definition map_result :: "('a \<Rightarrow> 'b) \<Rightarrow> 'e + 'a \<Rightarrow> 'e + 'b" where
  "map_result f r = (case r of Inl e \<Rightarrow> Inl e | Inr a \<Rightarrow> Inr (f a))"

text \<open>
  How a call ends: with a value, with an exception in flight, or never: the process is
  dead (\<^verbatim>\<open>std::abort\<close>, a hard kill) or stuck in a loop, and nothing after it runs.
\<close>

datatype ('e, 'a) flow = Ret 'a | Throw 'e | Abort

text \<open>The next step of a stateful function whose current step is a pure, throwing one.\<close>

definition or_throw :: "('e + 'a) \<Rightarrow> 's \<Rightarrow> ('a \<Rightarrow> ('e, 'b) flow \<times> 's) \<Rightarrow> ('e, 'b) flow \<times> 's" where
  "or_throw r s k = (case r of Inl e \<Rightarrow> (Throw e, s) | Inr a \<Rightarrow> k a)"

text \<open>The same for a first step that may also never end.\<close>

definition or_stop :: "('e, 'a) flow \<Rightarrow> 's \<Rightarrow> ('a \<Rightarrow> ('e, 'b) flow \<times> 's) \<Rightarrow> ('e, 'b) flow \<times> 's" where
  "or_stop r s k = (case r of Ret a \<Rightarrow> k a | Throw e \<Rightarrow> (Throw e, s) | Abort \<Rightarrow> (Abort, s))"

fun flow_map :: "('a \<Rightarrow> 'b) \<Rightarrow> ('e, 'a) flow \<Rightarrow> ('e, 'b) flow" where
  "flow_map f (Ret a) = Ret (f a)"
| "flow_map f (Throw e) = Throw e"
| "flow_map f Abort = Abort"

lemma or_stop_simps [simp]:
  "or_stop (Ret a) s k = k a" "or_stop (Throw e) s k = (Throw e, s)" "or_stop Abort s k = (Abort, s)"
  by (simp_all add: or_stop_def)

lemma flow_map_eq_Ret [simp]: "flow_map f r = Ret b \<longleftrightarrow> (\<exists>a. r = Ret a \<and> b = f a)"
  by (cases r) auto

lemma flow_map_eq_Throw [simp]: "flow_map f r = Throw e \<longleftrightarrow> r = Throw e"
  by (cases r) auto

definition attempt :: "('e + 'a) \<Rightarrow> ('a \<Rightarrow> ('e, 'b) flow) \<Rightarrow> ('e, 'b) flow" where
  "attempt r k = (case r of Inl e \<Rightarrow> Throw e | Inr a \<Rightarrow> k a)"

lemma attempt_Inl [simp]: "attempt (Inl e) k = Throw e"
  by (simp add: attempt_def)

lemma attempt_Inr [simp]: "attempt (Inr a) k = k a"
  by (simp add: attempt_def)

lemma attempt_eq_Ret [result_simps]: "attempt r k = Ret b \<longleftrightarrow> (\<exists>a. r = Inr a \<and> k a = Ret b)"
  by (cases r) simp_all

lemma attempt_eq_Throw [result_simps]:
  "attempt r k = Throw e \<longleftrightarrow> r = Inl e \<or> (\<exists>a. r = Inr a \<and> k a = Throw e)"
  by (cases r) simp_all

lemma and_then_Inl [simp, result_simps]: "and_then (Inl e) k = Inl e"
  by (simp add: and_then_def)

lemma and_then_Inr [simp, result_simps]: "and_then (Inr a) k = k a"
  by (simp add: and_then_def)

lemma and_then_eq_Inr [result_simps]:
  "and_then r k = Inr b \<longleftrightarrow> (\<exists>a. r = Inr a \<and> k a = Inr b)"
  by (cases r) simp_all

lemma and_then_eq_Inl [result_simps]:
  "and_then r k = Inl e \<longleftrightarrow> r = Inl e \<or> (\<exists>a. r = Inr a \<and> k a = Inl e)"
  by (cases r) simp_all

lemma require_eq_Inr [simp, result_simps]: "require b e = Inr u \<longleftrightarrow> b"
  by (cases u) (simp add: require_def)

lemma require_eq_Inl [simp, result_simps]: "require b e = Inl e' \<longleftrightarrow> \<not> b \<and> e' = e"
  by (auto simp: require_def)

lemma require_True [simp]: "require True e = Inr ()"
  by (simp add: require_def)

lemma require_False [simp]: "require False e = Inl e"
  by (simp add: require_def)

lemma map_result_eq_Inr [simp, result_simps]:
  "map_result f r = Inr b \<longleftrightarrow> (\<exists>a. r = Inr a \<and> b = f a)"
  by (cases r) (auto simp: map_result_def)

lemma map_result_eq_Inl [simp, result_simps]: "map_result f r = Inl e \<longleftrightarrow> r = Inl e"
  by (cases r) (auto simp: map_result_def)

lemma map_result_Inr [simp]: "map_result f (Inr a) = Inr (f a)"
  by (simp add: map_result_def)

lemma or_throw_Inl [simp, result_simps]: "or_throw (Inl e) s k = (Throw e, s)"
  by (simp add: or_throw_def)

lemma or_throw_Inr [simp, result_simps]: "or_throw (Inr a) s k = k a"
  by (simp add: or_throw_def)

lemma or_throw_and_then:
  "or_throw (and_then r f) s k = or_throw r s (\<lambda>a. or_throw (f a) s k)"
  by (cases r) simp_all

lemma traverse_eq_Inr_length: "traverse f xs = Inr ys \<Longrightarrow> length ys = length xs"
  by (induction xs arbitrary: ys) (auto split: sum.splits)

lemma traverse_eq_Inr_nth:
  "traverse f xs = Inr ys \<Longrightarrow> i < length xs \<Longrightarrow> f (xs ! i) = Inr (ys ! i)"
  by (induction xs arbitrary: ys i) (auto simp: nth_Cons' split: sum.splits)

section \<open>std::string\<close>

text \<open>\<^verbatim>\<open>s.find(pattern, pos)\<close>, with \<open>None\<close> for \<^verbatim>\<open>npos\<close>.\<close>

fun find_sub :: "string \<Rightarrow> string \<Rightarrow> nat option" where
  "find_sub pat [] = (if pat = [] then Some 0 else None)"
| "find_sub pat (c # cs) =
     (if prefix pat (c # cs) then Some 0 else map_option Suc (find_sub pat cs))"

definition str_find :: "string \<Rightarrow> string \<Rightarrow> nat \<Rightarrow> nat option" where
  "str_find s pat pos =
     (if length s < pos then None else map_option (\<lambda>i. pos + i) (find_sub pat (drop pos s)))"

text \<open>
  \<^verbatim>\<open>s.rfind(p, 0) == 0\<close>, \<^verbatim>\<open>s.substr(pos)\<close>, \<^verbatim>\<open>s.substr(0, n)\<close>, and what a
  \<^verbatim>\<open>const char*\<close> read of a byte string sees: nothing from the first NUL on.
\<close>

definition starts_with :: "string \<Rightarrow> string \<Rightarrow> bool" where
  "starts_with s p \<longleftrightarrow> prefix p s"

definition ends_with :: "string \<Rightarrow> string \<Rightarrow> bool" where
  "ends_with s p \<longleftrightarrow> length p \<le> length s \<and> drop (length s - length p) s = p"

definition c_str :: "string \<Rightarrow> string" where
  "c_str s = takeWhile (\<lambda>c. c \<noteq> CHR 0x00) s"

fun nat_to_string :: "nat \<Rightarrow> string" where
  "nat_to_string n =
     (if n < 10 then [char_of (48 + n)] else nat_to_string (n div 10) @ [char_of (48 + n mod 10)])"

declare nat_to_string.simps [simp del]

definition to_string :: "int \<Rightarrow> string" where
  "to_string i = (if i < 0 then CHR ''-'' # nat_to_string (nat (- i)) else nat_to_string (nat i))"

fun digits_value :: "string \<Rightarrow> nat" where
  "digits_value s = foldl (\<lambda>n c. 10 * n + (of_char c - 48)) 0 s"

lemma digits_value_nat_to_string [simp]: "digits_value (nat_to_string n) = n"
proof (induction n rule: nat_to_string.induct)
  case (1 n)
  show ?case
  proof (cases "n < 10")
    case True
    then show ?thesis by (simp add: nat_to_string.simps)
  next
    case False
    with 1 have "digits_value (nat_to_string (n div 10)) = n div 10" by simp
    with False show ?thesis by (subst nat_to_string.simps) simp
  qed
qed

lemma nat_to_string_digits: "c \<in> set (nat_to_string n) \<Longrightarrow> 48 \<le> (of_char c :: nat) \<and> (of_char c :: nat) < 58"
proof (induction n rule: nat_to_string.induct)
  case (1 n)
  have "n < 10 \<Longrightarrow> set (nat_to_string n) = {char_of (48 + n)}" by (simp add: nat_to_string.simps)
  moreover have "\<not> n < 10 \<Longrightarrow> set (nat_to_string n) = insert (char_of (48 + n mod 10)) (set (nat_to_string (n div 10)))"
    by (subst nat_to_string.simps) simp
  ultimately show ?case using 1 by (cases "n < 10") auto
qed

lemma c_str_nat_to_string [simp]: "c_str (nat_to_string n) = nat_to_string n"
  using nat_to_string_digits [of "CHR 0x00" n] by (auto simp: c_str_def takeWhile_eq_all_conv)

lemma find_sub_Some_bound: "find_sub pat s = Some i \<Longrightarrow> i + length pat \<le> length s"
  by (induction pat s arbitrary: i rule: find_sub.induct)
    (auto split: if_splits dest: prefix_length_le)

lemma find_sub_Some_match: "find_sub pat s = Some i \<Longrightarrow> prefix pat (drop i s)"
  by (induction pat s arbitrary: i rule: find_sub.induct) (auto split: if_splits)

lemma find_sub_least: "find_sub pat s = Some i \<Longrightarrow> j < i \<Longrightarrow> \<not> prefix pat (drop j s)"
proof (induction pat s arbitrary: i j rule: find_sub.induct)
  case (1 pat)
  then show ?case by (auto split: if_splits)
next
  case (2 pat c cs)
  from 2(2,3) obtain i' where i': "find_sub pat cs = Some i'" "i = Suc i'"
    and no: "\<not> prefix pat (c # cs)"
    by (auto split: if_splits)
  show ?case
  proof (cases j)
    case 0
    with no show ?thesis by simp
  next
    case (Suc k)
    with 2(3) i' have "k < i'" by simp
    with 2(1) [OF no i'(1)] Suc show ?thesis by simp
  qed
qed

lemma find_sub_None: "find_sub pat s = None \<Longrightarrow> \<not> prefix pat (drop j s)"
proof (induction pat s arbitrary: j rule: find_sub.induct)
  case (1 pat)
  then show ?case by (auto split: if_splits)
next
  case (2 pat c cs)
  then show ?case by (cases j) (auto split: if_splits)
qed

lemma str_find_None_char:
  "str_find s [c] pos = None \<Longrightarrow> pos \<le> length s \<Longrightarrow> c \<notin> set (drop pos s)"
proof
  assume none: "str_find s [c] pos = None" and le: "pos \<le> length s" and mem: "c \<in> set (drop pos s)"
  from mem obtain ys zs where yz: "drop pos s = ys @ c # zs" by (auto dest: split_list)
  from none le have "find_sub [c] (drop pos s) = None" by (simp add: str_find_def)
  from find_sub_None [OF this, of "length ys"] yz show False by simp
qed

lemma str_find_Some_char:
  assumes "str_find s [c] pos = Some i"
  shows "pos \<le> i \<and> i < length s \<and> s ! i = c \<and> c \<notin> set (drop pos (take i s))"
proof -
  from assms obtain k where k: "find_sub [c] (drop pos s) = Some k" and i: "i = pos + k"
    and le: "pos \<le> length s"
    by (auto simp: str_find_def split: if_splits)
  have bound: "k < length s - pos" using find_sub_Some_bound [OF k] by simp
  have at: "s ! i = c"
    using find_sub_Some_match [OF k] bound i le by (auto simp: Cons_prefix_Cons prefix_def)
      (metis add.commute drop_drop hd_drop_conv_nth less_diff_conv list.sel(1))
  have "c \<notin> set (drop pos (take i s))"
  proof
    assume "c \<in> set (drop pos (take i s))"
    then obtain j where j: "j < length (drop pos (take i s))" "drop pos (take i s) ! j = c"
      by (auto simp: in_set_conv_nth)
    with i bound le have jk: "j < k" "drop pos s ! j = c" by auto
    then have "prefix [c] (drop j (drop pos s))"
      using bound le by (metis Cons_nth_drop_Suc Cons_prefix_Cons Nil_prefix dual_order.strict_trans length_drop)
    with find_sub_least [OF k jk(1)] show False by simp
  qed
  with at bound i le show ?thesis by simp
qed

lemma find_sub_skip: "hd pat \<notin> set xs \<Longrightarrow> pat \<noteq> [] \<Longrightarrow> find_sub pat (xs @ ys) = map_option (\<lambda>i. length xs + i) (find_sub pat ys)"
proof (induction xs)
  case Nil
  then show ?case by (simp add: map_option.id [unfolded id_def])
next
  case (Cons x xs)
  then have "\<not> prefix pat (x # xs @ ys)" by (cases pat) auto
  with Cons show ?case by (simp add: option.map_comp o_def)
qed

lemma find_sub_here: "find_sub pat (pat @ ys) = Some 0"
proof (cases "pat @ ys")
  case (Cons c cs)
  then have "prefix pat (c # cs)" by (metis prefixI)
  with Cons show ?thesis by simp
qed auto

lemma str_find_here:
  "hd pat \<notin> set mid \<Longrightarrow> pat \<noteq> [] \<Longrightarrow> str_find (pre @ mid @ pat @ post) pat (length pre) = Some (length pre + length mid)"
  by (simp add: str_find_def find_sub_skip find_sub_here)

lemma starts_withD: "starts_with s p \<Longrightarrow> s = p @ drop (length p) s"
  by (auto simp: starts_with_def prefix_def)

lemma ends_with_iff: "ends_with s p \<longleftrightarrow> (\<exists>q. s = q @ p)"
proof
  assume "ends_with s p"
  then have "s = take (length s - length p) s @ p"
    unfolding ends_with_def by (metis append_take_drop_id)
  then show "\<exists>q. s = q @ p" by blast
next
  assume "\<exists>q. s = q @ p"
  then show "ends_with s p" by (auto simp: ends_with_def)
qed

lemma c_str_id: "CHR 0x00 \<notin> set s \<Longrightarrow> c_str s = s"
  by (auto simp: c_str_def takeWhile_eq_all_conv)

section \<open>Lists\<close>

lemma map_filter_distinct: "distinct (map f xs) \<Longrightarrow> distinct (map f (filter P xs))"
  by (simp add: distinct_map_filter)

lemma find_append:
  "find P (xs @ ys) = (case find P xs of Some x \<Rightarrow> Some x | None \<Rightarrow> find P ys)"
  by (induction xs) simp_all

lemma find_Some_in: "find P xs = Some x \<Longrightarrow> x \<in> set xs \<and> P x"
  by (induction xs) (auto split: if_splits)

lemma find_None_all: "find P xs = None \<longleftrightarrow> (\<forall>x\<in>set xs. \<not> P x)"
  by (induction xs) auto

lemma find_distinct_key:
  "distinct (map k xs) \<Longrightarrow> x \<in> set xs \<Longrightarrow> find (\<lambda>y. k y = k x) xs = Some x"
  by (induction xs) (auto simp: rev_image_eqI)

end
