(* ===== verification/Errors.thy ===== *)
theory Errors
  imports Prelude
begin

text \<open>
  \<^verbatim>\<open>src/rpc/error.{h,cpp}\<close>: the contract's error codes, the one error class of the
  daemon, its classification into gRPC status codes and into deterministic verdicts,
  and the rendering of any exception as the status that is sent. The exception classes
  of \<^verbatim>\<open>src/engine/worker.h\<close> are here too, because \<^verbatim>\<open>StatusFromException\<close> dispatches
  on them. Protobuf is a parameter (\<open>status_pb\<close>): packing an \<open>ErrorDetail\<close> into an
  \<^verbatim>\<open>Any\<close> and serializing a \<^verbatim>\<open>google.rpc.Status\<close>.
\<close>

section \<open>Error codes and the error class\<close>

datatype ErrorCode =
    ERROR_CODE_UNSPECIFIED
  | ERROR_CODE_UNBALANCED_TRANSACTION
  | ERROR_CODE_ACCOUNT_NOT_FOUND
  | ERROR_CODE_TXN_NOT_FOUND
  | ERROR_CODE_COMMODITY_NOT_FOUND
  | ERROR_CODE_CURRENCY_MISMATCH
  | ERROR_CODE_ACCOUNT_NOT_EMPTY
  | ERROR_CODE_READ_ONLY_BOOK
  | ERROR_CODE_BOOK_LOCKED
  | ERROR_CODE_BOOK_NOT_OPEN
  | ERROR_CODE_INVALID_ARGUMENT
  | ERROR_CODE_INDETERMINATE_MUTATION
  | ERROR_CODE_ENGINE_ERROR
  | ErrorCode_other int  \<comment> \<open>an unlisted value of the open protobuf enum\<close>

record ErrorDetail =
  detail_code :: ErrorCode
  detail_engine_message :: string
  detail_context :: string

text \<open>The message a default-constructed \<^verbatim>\<open>ErrorDetail\<close> holds.\<close>

definition ErrorDetail_default :: ErrorDetail where
  "ErrorDetail_default =
     \<lparr>detail_code = ERROR_CODE_UNSPECIFIED, detail_engine_message = [], detail_context = []\<rparr>"

record ShimError =
  err_code :: ErrorCode
  err_message :: string
  err_context :: string

definition shim_error :: "ErrorCode \<Rightarrow> string \<Rightarrow> string \<Rightarrow> ShimError" where
  "shim_error c m ctx = \<lparr>err_code = c, err_message = m, err_context = ctx\<rparr>"

definition ShimError_of_detail :: "ErrorDetail \<Rightarrow> ShimError" where
  "ShimError_of_detail d =
     shim_error (detail_code d) (detail_engine_message d) (detail_context d)"

definition ToDetail :: "ShimError \<Rightarrow> ErrorDetail" where
  "ToDetail e =
     \<lparr>detail_code = err_code e, detail_engine_message = err_message e,
      detail_context = err_context e\<rparr>"

text \<open>
  The exceptions that reach a gRPC handler: the daemon's own class, the two the worker
  throws, and any other \<^verbatim>\<open>std::exception\<close> with its \<^verbatim>\<open>what()\<close>.
\<close>

datatype exn = ExShim ShimError | QueueFullError | WorkerStoppedError | ExOther string

fun what :: "exn \<Rightarrow> string" where
  "what (ExShim e) = c_str (err_message e)"
| "what QueueFullError = ''engine queue full''"
| "what WorkerStoppedError = ''engine worker is draining''"
| "what (ExOther m) = c_str m"

section \<open>Classification\<close>

datatype StatusCode =
    GRPC_OK | GRPC_INVALID_ARGUMENT | GRPC_NOT_FOUND | GRPC_RESOURCE_EXHAUSTED
  | GRPC_FAILED_PRECONDITION | GRPC_INTERNAL | GRPC_UNAVAILABLE

fun GrpcCodeFor :: "ErrorCode \<Rightarrow> StatusCode" where
  "GrpcCodeFor ERROR_CODE_ACCOUNT_NOT_FOUND = GRPC_NOT_FOUND"
| "GrpcCodeFor ERROR_CODE_TXN_NOT_FOUND = GRPC_NOT_FOUND"
| "GrpcCodeFor ERROR_CODE_COMMODITY_NOT_FOUND = GRPC_NOT_FOUND"
| "GrpcCodeFor ERROR_CODE_UNBALANCED_TRANSACTION = GRPC_FAILED_PRECONDITION"
| "GrpcCodeFor ERROR_CODE_CURRENCY_MISMATCH = GRPC_FAILED_PRECONDITION"
| "GrpcCodeFor ERROR_CODE_ACCOUNT_NOT_EMPTY = GRPC_FAILED_PRECONDITION"
| "GrpcCodeFor ERROR_CODE_READ_ONLY_BOOK = GRPC_FAILED_PRECONDITION"
| "GrpcCodeFor ERROR_CODE_INDETERMINATE_MUTATION = GRPC_FAILED_PRECONDITION"
| "GrpcCodeFor ERROR_CODE_BOOK_LOCKED = GRPC_UNAVAILABLE"
| "GrpcCodeFor ERROR_CODE_BOOK_NOT_OPEN = GRPC_UNAVAILABLE"
| "GrpcCodeFor ERROR_CODE_INVALID_ARGUMENT = GRPC_INVALID_ARGUMENT"
| "GrpcCodeFor _ = GRPC_INTERNAL"

fun IsDeterministicVerdict :: "ErrorCode \<Rightarrow> bool" where
  "IsDeterministicVerdict ERROR_CODE_UNBALANCED_TRANSACTION = True"
| "IsDeterministicVerdict ERROR_CODE_ACCOUNT_NOT_FOUND = True"
| "IsDeterministicVerdict ERROR_CODE_TXN_NOT_FOUND = True"
| "IsDeterministicVerdict ERROR_CODE_COMMODITY_NOT_FOUND = True"
| "IsDeterministicVerdict ERROR_CODE_CURRENCY_MISMATCH = True"
| "IsDeterministicVerdict ERROR_CODE_ACCOUNT_NOT_EMPTY = True"
| "IsDeterministicVerdict ERROR_CODE_INVALID_ARGUMENT = True"
| "IsDeterministicVerdict _ = False"

section \<open>Rendering as a gRPC status\<close>

text \<open>The canonical gRPC numbering, \<^verbatim>\<open>static_cast<int>(grpc::StatusCode)\<close>.\<close>

fun status_code_int :: "StatusCode \<Rightarrow> int" where
  "status_code_int GRPC_OK = 0"
| "status_code_int GRPC_INVALID_ARGUMENT = 3"
| "status_code_int GRPC_NOT_FOUND = 5"
| "status_code_int GRPC_RESOURCE_EXHAUSTED = 8"
| "status_code_int GRPC_FAILED_PRECONDITION = 9"
| "status_code_int GRPC_INTERNAL = 13"
| "status_code_int GRPC_UNAVAILABLE = 14"

record rpc_Status =
  rpc_code :: int
  rpc_message :: string
  rpc_details :: "bytes list"

record Status =
  status_code :: StatusCode
  status_message :: string
  status_details :: bytes

definition Status_OK :: Status where
  "Status_OK = \<lparr>status_code = GRPC_OK, status_message = [], status_details = []\<rparr>"

record status_pb =
  PackFrom :: "ErrorDetail \<Rightarrow> bytes option"
  SerializeStatus :: "rpc_Status \<Rightarrow> bytes"

definition PackStatus ::
  "status_pb \<Rightarrow> StatusCode \<Rightarrow> ErrorCode \<Rightarrow> string \<Rightarrow> string \<Rightarrow> Status" where
  "PackStatus pb grpc_code c message ctx =
     (let detail = \<lparr>detail_code = c, detail_engine_message = message, detail_context = ctx\<rparr>;
          rpc_status = \<lparr>rpc_code = status_code_int grpc_code, rpc_message = message,
                        rpc_details = (case PackFrom pb detail of Some a \<Rightarrow> [a] | None \<Rightarrow> [])\<rparr>
      in \<lparr>status_code = grpc_code, status_message = message,
          status_details = SerializeStatus pb rpc_status\<rparr>)"

definition ToStatus :: "status_pb \<Rightarrow> ShimError \<Rightarrow> Status" where
  "ToStatus pb e = PackStatus pb (GrpcCodeFor (err_code e)) (err_code e) (err_message e) (err_context e)"

fun StatusFromException :: "status_pb \<Rightarrow> exn \<Rightarrow> Status" where
  "StatusFromException pb (ExShim e) = ToStatus pb e"
| "StatusFromException pb QueueFullError =
     PackStatus pb GRPC_RESOURCE_EXHAUSTED ERROR_CODE_UNSPECIFIED (what QueueFullError) []"
| "StatusFromException pb WorkerStoppedError =
     PackStatus pb GRPC_UNAVAILABLE ERROR_CODE_UNSPECIFIED (what WorkerStoppedError) []"
| "StatusFromException pb (ExOther m) =
     ToStatus pb (shim_error ERROR_CODE_ENGINE_ERROR (what (ExOther m)) [])"

section \<open>Lemmas\<close>

lemma shim_error_sel [simp]:
  "err_code (shim_error c m x) = c"
  "err_message (shim_error c m x) = m"
  "err_context (shim_error c m x) = x"
  by (simp_all add: shim_error_def)

lemma shim_error_inject [simp]:
  "shim_error c m x = shim_error c' m' x' \<longleftrightarrow> c = c' \<and> m = m' \<and> x = x'"
  by (auto simp: shim_error_def)

lemma ShimError_of_ToDetail [simp]: "ShimError_of_detail (ToDetail e) = e"
  by (simp add: ShimError_of_detail_def ToDetail_def shim_error_def)

lemma ToDetail_of_ShimError [simp]: "ToDetail (ShimError_of_detail d) = d"
  by (simp add: ShimError_of_detail_def ToDetail_def)

lemma PackStatus_sel [simp]:
  "status_code (PackStatus pb g c m x) = g"
  "status_message (PackStatus pb g c m x) = m"
  by (simp_all add: PackStatus_def Let_def)

lemma ToStatus_code [simp]: "status_code (ToStatus pb e) = GrpcCodeFor (err_code e)"
  by (simp add: ToStatus_def)

lemma GrpcCodeFor_not_OK: "GrpcCodeFor c \<noteq> GRPC_OK"
  by (cases c) simp_all

lemma StatusFromException_not_OK: "status_code (StatusFromException pb e) \<noteq> GRPC_OK"
  by (cases e) (simp_all add: GrpcCodeFor_not_OK)

lemma StatusFromException_neq_OK [simp]: "StatusFromException pb e \<noteq> Status_OK"
  using StatusFromException_not_OK [of pb e] by (auto simp: Status_OK_def)

text \<open>
  The verdicts the journal may record are exactly those the client can cause: nothing that
  maps to \<open>UNAVAILABLE\<close> or \<open>INTERNAL\<close> is one.
\<close>

lemma IsDeterministicVerdict_status:
  "IsDeterministicVerdict c \<Longrightarrow>
     GrpcCodeFor c \<in> {GRPC_NOT_FOUND, GRPC_FAILED_PRECONDITION, GRPC_INVALID_ARGUMENT}"
  by (cases c) simp_all

end
