(* ===== verification/Worker.thy ===== *)
theory Worker
  imports Errors
begin

text \<open>
  \<^verbatim>\<open>src/engine/worker.{h,cpp}\<close>: the single engine thread and its bounded queue.
  Each critical section of the C++ class is one function on the worker's state; the
  interleaving of gRPC threads, the engine thread and the draining thread is the step
  relation \<open>worker_step\<close> over them, labelled with what the step did. A task carries the
  ticket of its caller's future, so that two calls with the same code stay different.
\<close>

section \<open>State\<close>

record ('s, 'r) task =
  ticket :: nat
  packaged :: "'s \<Rightarrow> (exn + 'r) \<times> 's"  \<comment> \<open>\<^verbatim>\<open>packaged_task\<close>: its outcome lands in the future\<close>

datatype ('s, 'r) loop_pc = Waiting | Running "('s, 'r) task" | Returned

record ('s, 'r) EngineWorker =
  queue :: "('s, 'r) task list"
  max_depth :: nat
  stopping :: bool
  joinable :: bool
  pc :: "('s, 'r) loop_pc"
  engine_state :: 's
  futures :: "nat \<Rightarrow> (exn + 'r) option"

definition new_EngineWorker :: "nat \<Rightarrow> 's \<Rightarrow> ('s, 'r) EngineWorker" where
  "new_EngineWorker max_queue_depth s =
     \<lparr>queue = [], max_depth = max_queue_depth, stopping = False, joinable = True,
      pc = Waiting, engine_state = s, futures = Map.empty\<rparr>"

section \<open>Operations\<close>

definition Enqueue ::
  "('s, 'r) task \<Rightarrow> ('s, 'r) EngineWorker \<Rightarrow> exn + ('s, 'r) EngineWorker" where
  "Enqueue t w =
     (if stopping w then Inl WorkerStoppedError
      else if max_depth w \<le> length (queue w) then Inl QueueFullError
      else Inr (w\<lparr>queue := queue w @ [t]\<rparr>))"

definition queue_depth :: "('s, 'r) EngineWorker \<Rightarrow> nat" where
  "queue_depth w = length (queue w)"

text \<open>
  One pass of \<^verbatim>\<open>Loop\<close> is a critical section that waits for \<^verbatim>\<open>stopping_ || !queue_.empty()\<close>
  and then returns or pops the front, followed by the call of the task outside the lock.
  \<open>None\<close>: the thread is blocked in the wait, or is not at this point of the loop.
\<close>

definition Loop_take :: "('s, 'r) EngineWorker \<Rightarrow> ('s, 'r) EngineWorker option" where
  "Loop_take w =
     (case pc w of
        Waiting \<Rightarrow>
          (case queue w of
             [] \<Rightarrow> if stopping w then Some (w\<lparr>pc := Returned\<rparr>) else None
           | t # q \<Rightarrow> Some (w\<lparr>queue := q, pc := Running t\<rparr>))
      | _ \<Rightarrow> None)"

definition Loop_call :: "('s, 'r) EngineWorker \<Rightarrow> ('s, 'r) EngineWorker option" where
  "Loop_call w =
     (case pc w of
        Running t \<Rightarrow>
          (let (res, s) = packaged t (engine_state w)
           in Some (w\<lparr>pc := Waiting, engine_state := s, futures := (futures w)(ticket t \<mapsto> res)\<rparr>))
      | _ \<Rightarrow> None)"

text \<open>
  \<^verbatim>\<open>Drain\<close>: the critical section, then \<^verbatim>\<open>join\<close>, which returns once the loop has.
  The call returns early when a drain has already completed.
\<close>

definition Drain_stop :: "('s, 'r) EngineWorker \<Rightarrow> ('s, 'r) EngineWorker" where
  "Drain_stop w = (if stopping w \<and> \<not> joinable w then w else w\<lparr>stopping := True\<rparr>)"

definition Drain_join :: "('s, 'r) EngineWorker \<Rightarrow> ('s, 'r) EngineWorker option" where
  "Drain_join w =
     (if \<not> joinable w then Some w
      else if pc w = Returned then Some (w\<lparr>joinable := False\<rparr>) else None)"

section \<open>Interleavings\<close>

datatype ('s, 'r) worker_event =
    Accepted "('s, 'r) task"
  | Refused "('s, 'r) task" exn
  | Started "('s, 'r) task"
  | Finished "('s, 'r) task"
  | Loop_exit
  | Stop
  | Joined

inductive worker_step ::
  "('s, 'r) EngineWorker \<Rightarrow> ('s, 'r) worker_event \<Rightarrow> ('s, 'r) EngineWorker \<Rightarrow> bool" where
  accept: "Enqueue t w = Inr w' \<Longrightarrow> worker_step w (Accepted t) w'"
| refuse: "Enqueue t w = Inl e \<Longrightarrow> worker_step w (Refused t e) w"
| take: "Loop_take w = Some w' \<Longrightarrow> pc w' = Running t \<Longrightarrow> worker_step w (Started t) w'"
| exit: "Loop_take w = Some w' \<Longrightarrow> pc w' = Returned \<Longrightarrow> worker_step w Loop_exit w'"
| call: "pc w = Running t \<Longrightarrow> Loop_call w = Some w' \<Longrightarrow> worker_step w (Finished t) w'"
| stop: "worker_step w Stop (Drain_stop w)"
| join: "stopping w \<Longrightarrow> Drain_join w = Some w' \<Longrightarrow> worker_step w Joined w'"

inductive worker_run ::
  "('s, 'r) EngineWorker \<Rightarrow> ('s, 'r) worker_event list \<Rightarrow> ('s, 'r) EngineWorker \<Rightarrow> bool" where
  run_nil: "worker_run w [] w"
| run_snoc: "worker_run w es w' \<Longrightarrow> worker_step w' e w'' \<Longrightarrow> worker_run w (es @ [e]) w''"

inductive_cases worker_stepE: "worker_step w e w'"

fun accepted :: "('s, 'r) worker_event list \<Rightarrow> ('s, 'r) task list" where
  "accepted [] = []"
| "accepted (Accepted t # es) = t # accepted es"
| "accepted (_ # es) = accepted es"

fun started :: "('s, 'r) worker_event list \<Rightarrow> ('s, 'r) task list" where
  "started [] = []"
| "started (Started t # es) = t # started es"
| "started (_ # es) = started es"

fun finished :: "('s, 'r) worker_event list \<Rightarrow> ('s, 'r) task list" where
  "finished [] = []"
| "finished (Finished t # es) = t # finished es"
| "finished (_ # es) = finished es"

text \<open>
  The reference the concurrent worker is compared with: the accepted tasks, called one
  after the other on one engine state.
\<close>

fun run_serial :: "('s, 'r) task list \<Rightarrow> 's \<Rightarrow> 's" where
  "run_serial [] s = s"
| "run_serial (t # ts) s = run_serial ts (snd (packaged t s))"

fun serial_futures ::
  "('s, 'r) task list \<Rightarrow> 's \<Rightarrow> (nat \<Rightarrow> (exn + 'r) option) \<Rightarrow> nat \<Rightarrow> (exn + 'r) option" where
  "serial_futures [] s m = m"
| "serial_futures (t # ts) s m =
     serial_futures ts (snd (packaged t s)) (m(ticket t \<mapsto> fst (packaged t s)))"

text \<open>The engine thread alone, from \<^verbatim>\<open>Drain\<close>'s signal until \<^verbatim>\<open>Loop\<close> returns.\<close>

fun loop_alone :: "nat \<Rightarrow> ('s, 'r) EngineWorker \<Rightarrow> ('s, 'r) EngineWorker" where
  "loop_alone 0 w = w"
| "loop_alone (Suc n) w =
     (case Loop_call w of Some w' \<Rightarrow> loop_alone n w'
      | None \<Rightarrow> (case Loop_take w of Some w' \<Rightarrow> loop_alone n w' | None \<Rightarrow> w))"

section \<open>The queue as a bounded FIFO\<close>

text \<open>
  What the interleaving argument needs of the queue: an accepted element goes to the end
  and only when there is room, and taking yields the front.
\<close>

locale bounded_fifo =
  fixes put :: "'a \<Rightarrow> 'q \<Rightarrow> 'e + 'q"
    and get :: "'q \<Rightarrow> ('a \<times> 'q) option"
    and contents :: "'q \<Rightarrow> 'a list"
    and capacity :: "'q \<Rightarrow> nat"
  assumes put_contents: "put x q = Inr q' \<Longrightarrow> contents q' = contents q @ [x]"
    and put_room: "put x q = Inr q' \<Longrightarrow> length (contents q) < capacity q"
    and put_capacity: "put x q = Inr q' \<Longrightarrow> capacity q' = capacity q"
    and get_contents: "get q = Some (x, q') \<Longrightarrow> contents q = x # contents q'"
    and get_capacity: "get q = Some (x, q') \<Longrightarrow> capacity q' = capacity q"
begin

lemma put_bounded: "put x q = Inr q' \<Longrightarrow> length (contents q') \<le> capacity q'"
  using put_contents put_room put_capacity by fastforce

lemma get_bounded:
  "get q = Some (x, q') \<Longrightarrow> length (contents q) \<le> capacity q \<Longrightarrow> length (contents q') \<le> capacity q'"
  using get_contents get_capacity by fastforce

lemma put_keeps_order: "put x q = Inr q' \<Longrightarrow> outs @ contents q = ins \<Longrightarrow> outs @ contents q' = ins @ [x]"
  using put_contents by fastforce

lemma get_keeps_order: "get q = Some (x, q') \<Longrightarrow> outs @ contents q = ins \<Longrightarrow> (outs @ [x]) @ contents q' = ins"
  using get_contents by fastforce

end

definition queue_get :: "('s, 'r) EngineWorker \<Rightarrow> (('s, 'r) task \<times> ('s, 'r) EngineWorker) option" where
  "queue_get w =
     (case Loop_take w of
        Some w' \<Rightarrow> (case pc w' of Running t \<Rightarrow> Some (t, w') | _ \<Rightarrow> None)
      | None \<Rightarrow> None)"

interpretation wq: bounded_fifo Enqueue queue_get queue max_depth
  by unfold_locales
    (auto simp: Enqueue_def queue_get_def Loop_take_def split: if_splits list.splits loop_pc.splits option.splits)

section \<open>Invariants of every interleaving\<close>

fun in_flight :: "('s, 'r) EngineWorker \<Rightarrow> ('s, 'r) task list" where
  "in_flight w = (case pc w of Running t \<Rightarrow> [t] | _ \<Rightarrow> [])"

lemma accepted_append [simp]: "accepted (es @ fs) = accepted es @ accepted fs"
  by (induction es rule: accepted.induct) simp_all

lemma started_append [simp]: "started (es @ fs) = started es @ started fs"
  by (induction es rule: started.induct) simp_all

lemma finished_append [simp]: "finished (es @ fs) = finished es @ finished fs"
  by (induction es rule: finished.induct) simp_all

lemma run_serial_append [simp]: "run_serial (ts @ us) s = run_serial us (run_serial ts s)"
  by (induction ts arbitrary: s) simp_all

lemma serial_futures_append [simp]:
  "serial_futures (ts @ us) s m = serial_futures us (run_serial ts s) (serial_futures ts s m)"
  by (induction ts arbitrary: s m) simp_all

lemmas worker_defs = Enqueue_def Loop_take_def Loop_call_def Drain_stop_def Drain_join_def

definition worker_inv ::
  "'s \<Rightarrow> nat \<Rightarrow> ('s, 'r) worker_event list \<Rightarrow> ('s, 'r) EngineWorker \<Rightarrow> bool" where
  "worker_inv s0 depth es w \<longleftrightarrow>
     max_depth w = depth \<and> length (queue w) \<le> max_depth w \<and>
     started es @ queue w = accepted es \<and>
     finished es @ in_flight w = started es \<and>
     engine_state w = run_serial (finished es) s0 \<and>
     futures w = serial_futures (finished es) s0 Map.empty \<and>
     (pc w = Returned \<longrightarrow> stopping w \<and> queue w = []) \<and>
     (\<not> joinable w \<longrightarrow> pc w = Returned)"

lemma queue_get_take:
  "Loop_take w = Some w' \<Longrightarrow> pc w' = Running t \<Longrightarrow> queue_get w = Some (t, w')"
  by (simp add: queue_get_def)

lemma Loop_take_RunningD:
  assumes "Loop_take w = Some w'" and "pc w' = Running t"
  obtains q where "pc w = Waiting" and "queue w = t # q" and "w' = w\<lparr>queue := q, pc := Running t\<rparr>"
  using assms by (auto simp: Loop_take_def split: loop_pc.splits list.splits if_splits)

lemma Loop_call_Running:
  "pc w = Running t \<Longrightarrow>
     Loop_call w = Some (w\<lparr>pc := Waiting, engine_state := snd (packaged t (engine_state w)),
       futures := (futures w)(ticket t \<mapsto> fst (packaged t (engine_state w)))\<rparr>)"
  by (simp add: Loop_call_def split_beta)

lemma worker_inv_init: "worker_inv s d [] (new_EngineWorker d s)"
  by (simp add: worker_inv_def new_EngineWorker_def)

lemma worker_inv_step:
  assumes "worker_step w e w'" and inv: "worker_inv s0 d es w"
  shows "worker_inv s0 d (es @ [e]) w'"
  using assms(1)
proof (cases rule: worker_step.cases)
  case (accept t)
  from wq.put_keeps_order [OF accept(2)] wq.put_bounded [OF accept(2)] inv accept
  show ?thesis by (auto simp: worker_inv_def Enqueue_def split: if_splits)
next
  case (refuse t e)
  with inv show ?thesis by (auto simp: worker_inv_def)
next
  case (take t)
  from queue_get_take [OF take(2,3)] have get: "queue_get w = Some (t, w')" .
  from take(2,3) obtain q where w: "pc w = Waiting" and w': "w' = w\<lparr>queue := q, pc := Running t\<rparr>"
    by (rule Loop_take_RunningD)
  from wq.get_keeps_order [OF get] wq.get_bounded [OF get] inv
  show ?thesis by (simp add: worker_inv_def take(1) w w')
next
  case exit
  with inv show ?thesis
    by (auto simp: worker_inv_def Loop_take_def split: loop_pc.splits list.splits if_splits)
next
  case (call t)
  from inv call(2) have "started es = finished es @ [t]" by (simp add: worker_inv_def)
  with inv call(1,2) call(3) [unfolded Loop_call_Running [OF call(2)]]
  show ?thesis by (auto simp: worker_inv_def)
next
  case stop
  with inv show ?thesis by (auto simp: worker_inv_def Drain_stop_def)
next
  case join
  with inv show ?thesis by (auto simp: worker_inv_def Drain_join_def split: if_splits)
qed

lemma worker_run_inv:
  "worker_run w es w' \<Longrightarrow> w = new_EngineWorker d s0 \<Longrightarrow> worker_inv s0 d es w'"
proof (induction rule: worker_run.induct)
  case (run_nil w)
  then show ?case by (simp add: worker_inv_init)
next
  case (run_snoc w es w' e w'')
  then show ?case by (blast intro: worker_inv_step)
qed

section \<open>Draining\<close>

lemma loop_alone_call:
  "pc w = Running t \<Longrightarrow>
     loop_alone (Suc n) w = loop_alone n (w\<lparr>pc := Waiting, engine_state := snd (packaged t (engine_state w)),
       futures := (futures w)(ticket t \<mapsto> fst (packaged t (engine_state w)))\<rparr>)"
  by (simp add: Loop_call_Running)

lemma loop_alone_take:
  "pc w = Waiting \<Longrightarrow> queue w = t # q \<Longrightarrow>
     loop_alone (Suc n) w = loop_alone n (w\<lparr>queue := q, pc := Running t\<rparr>)"
  by (simp add: Loop_call_def Loop_take_def)

lemma loop_alone_exit:
  "pc w = Waiting \<Longrightarrow> queue w = [] \<Longrightarrow> stopping w \<Longrightarrow>
     loop_alone (Suc n) w = loop_alone n (w\<lparr>pc := Returned\<rparr>)"
  by (simp add: Loop_call_def Loop_take_def)

declare loop_alone.simps(2) [simp del]

lemma loop_alone_drains:
  "stopping w \<Longrightarrow> pc w = Waiting \<Longrightarrow>
     \<exists>n. pc (loop_alone n w) = Returned \<and> queue (loop_alone n w) = [] \<and>
         engine_state (loop_alone n w) = run_serial (queue w) (engine_state w)"
proof (induction "queue w" arbitrary: w)
  case Nil
  then show ?case by (intro exI [of _ "Suc 0"]) (simp add: loop_alone_exit)
next
  case (Cons t q)
  let ?v = "w\<lparr>queue := q, pc := Waiting, engine_state := snd (packaged t (engine_state w)),
              futures := (futures w)(ticket t \<mapsto> fst (packaged t (engine_state w)))\<rparr>"
  from Cons(1) [of ?v] Cons(3) obtain n where
    n: "pc (loop_alone n ?v) = Returned" "queue (loop_alone n ?v) = []"
       "engine_state (loop_alone n ?v) = run_serial q (snd (packaged t (engine_state w)))"
    by auto
  have "loop_alone (Suc (Suc n)) w = loop_alone n ?v"
    using loop_alone_take [OF Cons(4) Cons(2) [symmetric]] by (simp add: loop_alone_call)
  with n Cons(2) [symmetric] show ?case by (intro exI [of _ "Suc (Suc n)"]) simp
qed

lemma loop_alone_finishes_call:
  assumes "stopping w" and "pc w \<noteq> Returned"
  shows "\<exists>n. pc (loop_alone n w) = Returned \<and> queue (loop_alone n w) = [] \<and>
             engine_state (loop_alone n w) = run_serial (in_flight w @ queue w) (engine_state w)"
proof (cases "pc w")
  case Waiting
  with loop_alone_drains [OF assms(1)] show ?thesis by simp
next
  case (Running t)
  let ?v = "w\<lparr>pc := Waiting, engine_state := snd (packaged t (engine_state w)),
              futures := (futures w)(ticket t \<mapsto> fst (packaged t (engine_state w)))\<rparr>"
  from loop_alone_drains [of ?v] assms(1) obtain n where
    n: "pc (loop_alone n ?v) = Returned" "queue (loop_alone n ?v) = []"
       "engine_state (loop_alone n ?v) = run_serial (queue w) (snd (packaged t (engine_state w)))"
    by auto
  with loop_alone_call [OF Running] Running show ?thesis
    by (intro exI [of _ "Suc n"]) simp
qed (use assms(2) in simp)

section \<open>Properties\<close>

text \<open>
  Serialization is the concurrency model: in every interleaving of any number of
  callers, the engine thread and a drain, the accepted tasks are, in the order they were
  accepted, the finished ones, the one in flight and the queue; the queue never exceeds
  its depth; and the engine state and the callers' futures are what the finished tasks
  give when they are run one after the other.
\<close>
theorem worker_serializes:
  assumes "worker_run (new_EngineWorker depth s0) es w"
  shows "finished es @ in_flight w @ queue w = accepted es
    \<and> engine_state w = run_serial (finished es) s0
    \<and> futures w = serial_futures (finished es) s0 Map.empty
    \<and> queue_depth w \<le> depth"
proof -
  from worker_run_inv [OF assms refl] have inv: "worker_inv s0 depth es w" .
  then have "finished es @ in_flight w @ queue w = accepted es"
    unfolding worker_inv_def by (metis append.assoc)
  with inv show ?thesis by (simp add: worker_inv_def queue_depth_def)
qed

theorem worker_serializes_witness:
  "let t1 = \<lparr>ticket = 7, packaged = (\<lambda>n::nat. (Inr n, n + 1))\<rparr>;
       t2 = \<lparr>ticket = 8, packaged = (\<lambda>n::nat. (Inr n, n * 10))\<rparr>;
       es = [Accepted t1, Accepted t2, Started t1, Finished t1]
   in \<exists>w. worker_run (new_EngineWorker 4 5) es w \<and> queue w = [t2] \<and>
          engine_state w = (6::nat) \<and> futures w 7 = Some (Inr 5)"
proof -
  let ?t1 = "\<lparr>ticket = 7, packaged = (\<lambda>n::nat. (Inr n, n + 1))\<rparr>"
  let ?t2 = "\<lparr>ticket = 8, packaged = (\<lambda>n::nat. (Inr n, n * 10))\<rparr>"
  let ?init = "new_EngineWorker 4 5 :: (nat, nat) EngineWorker"
  let ?w2 = "?init\<lparr>queue := [?t1, ?t2]\<rparr>"
  let ?w4 = "?init\<lparr>queue := [?t2], engine_state := 6, futures := [7 \<mapsto> Inr 5]\<rparr>"
  have "worker_step ?init (Accepted ?t1) (?init\<lparr>queue := [?t1]\<rparr>)"
    by (rule worker_step.accept) (simp add: Enqueue_def new_EngineWorker_def)
  moreover have "worker_step (?init\<lparr>queue := [?t1]\<rparr>) (Accepted ?t2) ?w2"
    by (rule worker_step.accept) (simp add: Enqueue_def new_EngineWorker_def)
  moreover have "worker_step ?w2 (Started ?t1) (?init\<lparr>queue := [?t2], pc := Running ?t1\<rparr>)"
    by (rule worker_step.take) (simp_all add: Loop_take_def new_EngineWorker_def)
  moreover have "worker_step (?init\<lparr>queue := [?t2], pc := Running ?t1\<rparr>) (Finished ?t1) ?w4"
    by (rule worker_step.call) (simp_all add: Loop_call_def new_EngineWorker_def)
  ultimately have run: "worker_run ?init (((([] @ [Accepted ?t1]) @ [Accepted ?t2]) @ [Started ?t1]) @ [Finished ?t1]) ?w4"
    by (blast intro: worker_run.intros)
  from worker_serializes [OF run] run show ?thesis
    unfolding Let_def by (intro exI [of _ ?w4]) simp
qed

text \<open>
  \<^verbatim>\<open>Drain\<close> completes: from every reachable state in which the worker is stopping,
  the engine thread on its own reaches the end of its loop, with the queue empty and
  every accepted task executed, in order; and nothing is accepted any more.
\<close>
theorem drain_completes:
  assumes "worker_run (new_EngineWorker depth s0) es w" and "stopping w"
  shows "(\<exists>n. pc (loop_alone n w) = Returned \<and> queue (loop_alone n w) = [] \<and>
              engine_state (loop_alone n w) = run_serial (accepted es) s0)
    \<and> Enqueue t w = Inl WorkerStoppedError"
proof -
  from worker_run_inv [OF assms(1) refl] have inv: "worker_inv s0 depth es w" .
  then have all: "finished es @ in_flight w @ queue w = accepted es"
    unfolding worker_inv_def by (metis append.assoc)
  have "\<exists>n. pc (loop_alone n w) = Returned \<and> queue (loop_alone n w) = [] \<and>
            engine_state (loop_alone n w) = run_serial (in_flight w @ queue w) (engine_state w)"
  proof (cases "pc w = Returned")
    case True
    with inv show ?thesis by (intro exI [of _ 0]) (simp add: worker_inv_def)
  next
    case False
    with assms(2) show ?thesis by (rule loop_alone_finishes_call)
  qed
  moreover have "run_serial (in_flight w @ queue w) (engine_state w) = run_serial (accepted es) s0"
    using inv all by (metis run_serial_append worker_inv_def)
  ultimately show ?thesis using assms(2) by (simp add: Enqueue_def)
qed

theorem drain_completes_witness:
  "let t = \<lparr>ticket = 7, packaged = (\<lambda>n::nat. (Inr n, n + 1))\<rparr>;
       w = (new_EngineWorker 4 5)\<lparr>queue := [t], stopping := True\<rparr>
   in worker_run (new_EngineWorker 4 5) [Accepted t, Stop] w \<and>
      (\<exists>n. pc (loop_alone n w) = Returned \<and> engine_state (loop_alone n w) = 6)"
proof -
  let ?tk = "\<lparr>ticket = 7, packaged = (\<lambda>n::nat. (Inr n, n + 1))\<rparr>"
  let ?init = "new_EngineWorker 4 5 :: (nat, nat) EngineWorker"
  let ?w = "?init\<lparr>queue := [?tk], stopping := True\<rparr>"
  have "worker_step ?init (Accepted ?tk) (?init\<lparr>queue := [?tk]\<rparr>)"
    by (rule worker_step.accept) (simp add: Enqueue_def new_EngineWorker_def)
  moreover have "worker_step (?init\<lparr>queue := [?tk]\<rparr>) Stop ?w"
    using worker_step.stop [of "?init\<lparr>queue := [?tk]\<rparr>"] by (simp add: Drain_stop_def new_EngineWorker_def)
  ultimately have run: "worker_run ?init (([] @ [Accepted ?tk]) @ [Stop]) ?w"
    by (blast intro: worker_run.intros)
  have "stopping ?w" by simp
  from drain_completes [OF run this, of ?tk]
  have "\<exists>n. pc (loop_alone n ?w) = Returned \<and> engine_state (loop_alone n ?w) = 6" by auto
  with run show ?thesis by (simp add: Let_def)
qed

end
