(* ===== verification/Worker_Threads.thy ===== *)
theory Worker_Threads
  imports Worker
begin

text \<open>
  \<^verbatim>\<open>src/engine/worker.{h,cpp}\<close> thread by thread: who holds \<^verbatim>\<open>mu_\<close>, who sleeps on \<^verbatim>\<open>cv_\<close>, and where
  every caller of \<^verbatim>\<open>Run\<close> and of \<^verbatim>\<open>Drain\<close> stands. The steps of \<open>Worker\<close> are the critical sections
  here; between them lie taking the lock, going to sleep, notifying, waking up (for no reason,
  too) and waiting for the future. Callers are numbered; \<^verbatim>\<open>Drain\<close> is called by the main thread.
\<close>

section \<open>Threads\<close>

datatype thread = Engine_thread | Caller nat

datatype ('s, 'r) caller_pc =
    Outside
  | Locking "('s, 'r) task"  \<comment> \<open>in \<^verbatim>\<open>Enqueue\<close>, before its critical section\<close>
  | Enqueueing "('s, 'r) task"
  | Notifying "('s, 'r) task"
  | Getting "('s, 'r) task"  \<comment> \<open>in \<^verbatim>\<open>future.get()\<close>\<close>
  | Drain_locking
  | Draining
  | Drain_notifying
  | Joining

datatype engine_pc = Wants_lock | Holds_lock | Asleep | Calling | Gone

record ('s, 'r) threads =
  worker :: "('s, 'r) EngineWorker"
  mutex :: "thread option"
  engine :: engine_pc
  callers :: "nat \<Rightarrow> ('s, 'r) caller_pc"
  tickets :: "nat set"  \<comment> \<open>of the calls made so far\<close>

definition new_threads :: "nat \<Rightarrow> 's \<Rightarrow> ('s, 'r) threads" where
  "new_threads depth s =
     \<lparr>worker = new_EngineWorker depth s, mutex = None, engine = Wants_lock, callers = (\<lambda>_. Outside), tickets = {}\<rparr>"

definition goes :: "nat \<Rightarrow> ('s, 'r) caller_pc \<Rightarrow> ('s, 'r) threads \<Rightarrow> ('s, 'r) threads" where
  "goes i p th = th\<lparr>callers := (callers th)(i := p)\<rparr>"

text \<open>Only the engine thread ever waits on \<^verbatim>\<open>cv_\<close>; a notification nobody waits for is lost.\<close>

definition notify_one :: "('s, 'r) threads \<Rightarrow> ('s, 'r) threads" where
  "notify_one th = (if engine th = Asleep then th\<lparr>engine := Wants_lock\<rparr> else th)"

definition wait_predicate :: "('s, 'r) EngineWorker \<Rightarrow> bool" where
  "wait_predicate w \<longleftrightarrow> stopping w \<or> queue w \<noteq> []"

section \<open>Steps\<close>

datatype ('s, 'r) thread_event =
    Calls nat
  | Wakes_spuriously
  | Quiet
  | Section "('s, 'r) worker_event"
  | Returns nat "('s, 'r) task" "exn + 'r"

inductive thread_step ::
  "('s, 'r) threads \<Rightarrow> ('s, 'r) thread_event \<Rightarrow> ('s, 'r) threads \<Rightarrow> bool" where
  calls_Run: "callers th i = Outside \<Longrightarrow> ticket t \<notin> tickets th \<Longrightarrow>
     thread_step th (Calls i) (goes i (Locking t) (th\<lparr>tickets := insert (ticket t) (tickets th)\<rparr>))"
| lock_Enqueue: "callers th i = Locking t \<Longrightarrow> mutex th = None \<Longrightarrow>
     thread_step th Quiet (goes i (Enqueueing t) (th\<lparr>mutex := Some (Caller i)\<rparr>))"
| push: "callers th i = Enqueueing t \<Longrightarrow> Enqueue t (worker th) = Inr w \<Longrightarrow>
     thread_step th (Section (Accepted t)) (goes i (Notifying t) (th\<lparr>worker := w, mutex := None\<rparr>))"
| throw: "callers th i = Enqueueing t \<Longrightarrow> Enqueue t (worker th) = Inl e \<Longrightarrow>
     thread_step th (Section (Refused t e)) (goes i Outside (th\<lparr>mutex := None\<rparr>))"
| notify: "callers th i = Notifying t \<Longrightarrow> thread_step th Quiet (goes i (Getting t) (notify_one th))"
| get: "callers th i = Getting t \<Longrightarrow> futures (worker th) (ticket t) = Some res \<Longrightarrow>
     thread_step th (Returns i t res) (goes i Outside th)"
| calls_Drain: "callers th 0 = Outside \<Longrightarrow> thread_step th (Calls 0) (goes 0 Drain_locking th)"
| lock_Drain: "callers th 0 = Drain_locking \<Longrightarrow> mutex th = None \<Longrightarrow>
     thread_step th Quiet (goes 0 Draining (th\<lparr>mutex := Some (Caller 0)\<rparr>))"
| stop_Drain: "callers th 0 = Draining \<Longrightarrow>
     thread_step th (Section Stop)
       (goes 0 (if stopping (worker th) \<and> \<not> joinable (worker th) then Outside else Drain_notifying)
         (th\<lparr>worker := Drain_stop (worker th), mutex := None\<rparr>))"
| notify_Drain: "callers th 0 = Drain_notifying \<Longrightarrow> thread_step th Quiet (goes 0 Joining (notify_one th))"
| join_Drain: "callers th 0 = Joining \<Longrightarrow> Drain_join (worker th) = Some w \<Longrightarrow>
     thread_step th (Section Joined) (goes 0 Outside (th\<lparr>worker := w\<rparr>))"
| lock_Loop: "engine th = Wants_lock \<Longrightarrow> mutex th = None \<Longrightarrow>
     thread_step th Quiet (th\<lparr>engine := Holds_lock, mutex := Some Engine_thread\<rparr>)"
| sleep: "engine th = Holds_lock \<Longrightarrow> \<not> wait_predicate (worker th) \<Longrightarrow>
     thread_step th Quiet (th\<lparr>engine := Asleep, mutex := None\<rparr>)"
| wakes: "engine th = Asleep \<Longrightarrow> thread_step th Wakes_spuriously (th\<lparr>engine := Wants_lock\<rparr>)"
| pop: "engine th = Holds_lock \<Longrightarrow> wait_predicate (worker th) \<Longrightarrow> Loop_take (worker th) = Some w \<Longrightarrow> pc w = Running t \<Longrightarrow>
     thread_step th (Section (Started t)) (th\<lparr>worker := w, engine := Calling, mutex := None\<rparr>)"
| return: "engine th = Holds_lock \<Longrightarrow> wait_predicate (worker th) \<Longrightarrow> Loop_take (worker th) = Some w \<Longrightarrow> pc w = Returned \<Longrightarrow>
     thread_step th (Section Loop_exit) (th\<lparr>worker := w, engine := Gone, mutex := None\<rparr>)"
| call_task: "engine th = Calling \<Longrightarrow> pc (worker th) = Running t \<Longrightarrow> Loop_call (worker th) = Some w \<Longrightarrow>
     thread_step th (Section (Finished t)) (th\<lparr>worker := w, engine := Wants_lock\<rparr>)"

inductive thread_run ::
  "('s, 'r) threads \<Rightarrow> ('s, 'r) thread_event list \<Rightarrow> ('s, 'r) threads \<Rightarrow> bool" where
  thread_nil: "thread_run th [] th"
| thread_snoc: "thread_run th es th' \<Longrightarrow> thread_step th' e th'' \<Longrightarrow> thread_run th (es @ [e]) th''"

fun sections :: "('s, 'r) thread_event list \<Rightarrow> ('s, 'r) worker_event list" where
  "sections [] = []"
| "sections (Section e # es) = e # sections es"
| "sections (_ # es) = sections es"

text \<open>What happens by itself: everything but new calls and spurious wake-ups.\<close>

fun internal :: "('s, 'r) thread_event \<Rightarrow> bool" where
  "internal (Calls _) = False"
| "internal Wakes_spuriously = False"
| "internal _ = True"

section \<open>The invariant\<close>

fun in_section :: "('s, 'r) caller_pc \<Rightarrow> bool" where
  "in_section (Enqueueing _) = True"
| "in_section Draining = True"
| "in_section _ = False"

fun will_notify :: "('s, 'r) caller_pc \<Rightarrow> bool" where
  "will_notify (Notifying _) = True"
| "will_notify Drain_notifying = True"
| "will_notify _ = False"

fun stops :: "('s, 'r) caller_pc \<Rightarrow> bool" where
  "stops Drain_notifying = True"
| "stops Joining = True"
| "stops _ = False"

fun only_main :: "('s, 'r) caller_pc \<Rightarrow> bool" where
  "only_main Drain_locking = True"
| "only_main Draining = True"
| "only_main p = stops p"

fun engine_at :: "('s, 'r) loop_pc \<Rightarrow> engine_pc \<Rightarrow> bool" where
  "engine_at Waiting e = (e \<in> {Wants_lock, Holds_lock, Asleep})"
| "engine_at (Running _) e = (e = Calling)"
| "engine_at Returned e = (e = Gone)"

fun unpushed :: "('s, 'r) caller_pc \<Rightarrow> ('s, 'r) task option" where
  "unpushed (Locking t) = Some t"
| "unpushed (Enqueueing t) = Some t"
| "unpushed _ = None"

text \<open>\<^verbatim>\<open>mu_\<close> is held by exactly the thread inside a critical section.\<close>

definition lock_inv :: "('s, 'r) threads \<Rightarrow> bool" where
  "lock_inv th \<longleftrightarrow>
     (mutex th = Some Engine_thread \<longleftrightarrow> engine th = Holds_lock) \<and>
     (\<forall>i. mutex th = Some (Caller i) \<longleftrightarrow> in_section (callers th i))"

text \<open>A sleeping engine thread with something to do is about to be notified.\<close>

definition wake_inv :: "('s, 'r) threads \<Rightarrow> bool" where
  "wake_inv th \<longleftrightarrow>
     engine_at (pc (worker th)) (engine th) \<and>
     (engine th = Asleep \<and> wait_predicate (worker th) \<longrightarrow> (\<exists>i. will_notify (callers th i)))"

definition busy :: "(nat \<Rightarrow> ('s, 'r) caller_pc) \<Rightarrow> nat set" where
  "busy f = {i. f i \<noteq> Outside}"

definition callers_inv :: "('s, 'r) worker_event list \<Rightarrow> ('s, 'r) threads \<Rightarrow> bool" where
  "callers_inv es th \<longleftrightarrow>
     (\<forall>i. stops (callers th i) \<longrightarrow> stopping (worker th)) \<and>
     (\<forall>i. only_main (callers th i) \<longrightarrow> i = 0) \<and>
     finite (busy (callers th)) \<and>
     (\<forall>i t. callers th i \<in> {Notifying t, Getting t} \<longrightarrow> t \<in> set (accepted es))"

lemma goes_sel [simp]:
  "worker (goes i p th) = worker th" "mutex (goes i p th) = mutex th" "engine (goes i p th) = engine th"
  "callers (goes i p th) = (callers th)(i := p)" "tickets (goes i p th) = tickets th"
  by (simp_all add: goes_def)

lemma notify_one_sel [simp]:
  "worker (notify_one th) = worker th" "mutex (notify_one th) = mutex th" "callers (notify_one th) = callers th"
  "tickets (notify_one th) = tickets th" "engine (notify_one th) = (if engine th = Asleep then Wants_lock else engine th)"
  by (simp_all add: notify_one_def)

lemma sections_append [simp]: "sections (es @ fs) = sections es @ sections fs"
  by (induction es rule: sections.induct) simp_all

lemma finite_busy_upd [simp]: "finite (busy (f(i := p))) \<longleftrightarrow> finite (busy f)"
proof -
  have "busy (f(i := p)) \<subseteq> insert i (busy f)" "busy f \<subseteq> insert i (busy (f(i := p)))" by (auto simp: busy_def)
  then show ?thesis by (meson finite_insert finite_subset)
qed

lemma Drain_stop_sel [simp]:
  "queue (Drain_stop w) = queue w" "pc (Drain_stop w) = pc w" "futures (Drain_stop w) = futures w" "stopping (Drain_stop w)"
  by (simp_all add: Drain_stop_def)

lemma Enqueue_sel:
  "Enqueue t w = Inr w' \<Longrightarrow> pc w' = pc w \<and> stopping w' = stopping w \<and> queue w' = queue w @ [t] \<and> futures w' = futures w"
  by (auto simp: Enqueue_def split: if_splits)

lemma Drain_join_sel:
  "Drain_join w = Some w' \<Longrightarrow> pc w' = pc w \<and> stopping w' = stopping w \<and> queue w' = queue w \<and> futures w' = futures w"
  by (auto simp: Drain_join_def split: if_splits)

lemma Loop_take_sel: "Loop_take w = Some w' \<Longrightarrow> stopping w' = stopping w \<and> futures w' = futures w"
  by (auto simp: Loop_take_def split: if_splits loop_pc.splits list.splits)

lemma Loop_call_sel: "Loop_call w = Some w' \<Longrightarrow> pc w' = Waiting \<and> stopping w' = stopping w \<and> queue w' = queue w"
  by (auto simp: Loop_call_def split_beta split: loop_pc.splits)

lemma section_alone:
  assumes "lock_inv th" and "in_section (callers th i)"
  shows "mutex th = Some (Caller i)" "engine th \<noteq> Holds_lock" "in_section (callers th j) \<longleftrightarrow> j = i"
  using assms unfolding lock_inv_def by (metis option.inject thread.inject thread.distinct(1))+

lemma engine_alone:
  assumes "lock_inv th" and "engine th = Holds_lock"
  shows "mutex th = Some Engine_thread" "\<not> in_section (callers th j)"
  using assms unfolding lock_inv_def by (metis option.inject thread.distinct(1))+

lemma nobody_inside:
  assumes "lock_inv th" and "mutex th = None"
  shows "engine th \<noteq> Holds_lock" "\<not> in_section (callers th j)"
  using assms unfolding lock_inv_def by auto

lemma lock_inv_goes:
  "lock_inv th \<Longrightarrow> \<not> in_section (callers th i) \<Longrightarrow> \<not> in_section p \<Longrightarrow> lock_inv (goes i p th)"
  by (auto simp: lock_inv_def)

lemma lock_inv_step:
  assumes "thread_step th e th'" and inv: "lock_inv th"
  shows "lock_inv th'"
  using assms(1)
proof cases
  case (push i t w)
  with section_alone [OF inv, of i] show ?thesis by (auto simp: lock_inv_def)
next
  case (throw i t e')
  with section_alone [OF inv, of i] show ?thesis by (auto simp: lock_inv_def)
next
  case stop_Drain
  with section_alone [OF inv, of 0] show ?thesis by (auto simp: lock_inv_def)
next
  case (lock_Enqueue i t)
  with nobody_inside [OF inv] show ?thesis by (auto simp: lock_inv_def)
next
  case lock_Drain
  with nobody_inside [OF inv] show ?thesis by (auto simp: lock_inv_def)
next
  case lock_Loop
  with nobody_inside [OF inv] show ?thesis by (auto simp: lock_inv_def)
next
  case sleep
  with engine_alone [OF inv] show ?thesis by (auto simp: lock_inv_def)
next
  case (pop w t)
  with engine_alone [OF inv] show ?thesis by (auto simp: lock_inv_def)
next
  case (return w)
  with engine_alone [OF inv] show ?thesis by (auto simp: lock_inv_def)
qed (use inv in \<open>auto simp: lock_inv_def\<close>)

lemma wake_inv_goes:
  assumes "wake_inv th" and "\<not> will_notify (callers th i)"
  shows "wake_inv (goes i p th)"
proof -
  have "\<exists>k. will_notify (((callers th)(i := p)) k)" if "will_notify (callers th j)" for j
    using assms(2) that by (intro exI [of _ j]) auto
  with assms(1) show ?thesis by (auto simp: wake_inv_def simp del: fun_upd_apply)
qed

lemma wake_inv_frames [simp]: "wake_inv (th\<lparr>mutex := x\<rparr>) = wake_inv th" "wake_inv (th\<lparr>tickets := y\<rparr>) = wake_inv th"
  by (simp_all add: wake_inv_def)

lemma notify_one_wakes: "wake_inv th \<Longrightarrow> wake_inv (goes i p (notify_one th))"
  by (cases "engine th"; cases "pc (worker th)") (simp_all add: wake_inv_def)

lemma wake_inv_step:
  assumes "thread_step th e th'" and lock: "lock_inv th" and inv: "wake_inv th"
  shows "wake_inv th'"
  using assms(1)
proof cases
  case (push i t w)
  with inv Enqueue_sel [OF push(4)] section_alone [OF lock, of i] show ?thesis by (auto simp: wake_inv_def)
next
  case (throw i t e')
  moreover have "wake_inv (th\<lparr>mutex := None\<rparr>)" using inv by (simp add: wake_inv_def)
  ultimately show ?thesis by (simp add: wake_inv_goes)
next
  case stop_Drain
  show ?thesis
  proof (cases "stopping (worker th) \<and> \<not> joinable (worker th)")
    case True
    then have "Drain_stop (worker th) = worker th" by (simp add: Drain_stop_def)
    moreover have "wake_inv (th\<lparr>mutex := None\<rparr>)" using inv by (simp add: wake_inv_def)
    ultimately show ?thesis using True stop_Drain wake_inv_goes [of "th\<lparr>mutex := None\<rparr>" 0 Outside] by simp
  next
    case False
    with stop_Drain inv show ?thesis by (auto simp: wake_inv_def)
  qed
next
  case (join_Drain w)
  moreover have "wake_inv (th\<lparr>worker := w\<rparr>)"
    using inv Drain_join_sel [OF join_Drain(4)] by (simp add: wake_inv_def wait_predicate_def)
  ultimately show ?thesis by (simp add: wake_inv_goes)
next
  case (pop w t)
  with inv show ?thesis by (auto simp: wake_inv_def)
next
  case (return w)
  with inv show ?thesis by (auto simp: wake_inv_def)
next
  case (call_task t w)
  with inv Loop_call_sel [OF call_task(5)] show ?thesis by (auto simp: wake_inv_def)
next
  case lock_Loop
  with inv show ?thesis by (cases "pc (worker th)") (simp_all add: wake_inv_def)
next
  case sleep
  with inv show ?thesis by (cases "pc (worker th)") (simp_all add: wake_inv_def)
next
  case wakes
  with inv show ?thesis by (cases "pc (worker th)") (simp_all add: wake_inv_def)
qed (use inv in \<open>simp_all add: wake_inv_goes notify_one_wakes\<close>)

lemma callers_inv_step:
  assumes "thread_step th e th'" and inv: "callers_inv (sections es) th"
  shows "callers_inv (sections (es @ [e])) th'"
  using assms(1)
proof cases
  case (push i t w)
  with inv Enqueue_sel [OF push(4)] show ?thesis by (auto simp: callers_inv_def)
next
  case stop_Drain
  with inv show ?thesis by (auto simp: callers_inv_def)
next
  case (join_Drain w)
  with inv Drain_join_sel [OF join_Drain(4)] show ?thesis by (auto simp: callers_inv_def)
next
  case notify_Drain
  with inv have "stopping (worker th)" unfolding callers_inv_def by (metis stops.simps(1))
  with notify_Drain inv show ?thesis by (auto simp: callers_inv_def)
next
  case (pop w t)
  with inv Loop_take_sel [OF pop(5)] show ?thesis by (auto simp: callers_inv_def)
next
  case (return w)
  with inv Loop_take_sel [OF return(5)] show ?thesis by (auto simp: callers_inv_def)
next
  case (call_task t w)
  with inv Loop_call_sel [OF call_task(5)] show ?thesis by (auto simp: callers_inv_def)
qed (use inv in \<open>auto simp: callers_inv_def split: if_splits\<close>)

section \<open>Refinement of the critical sections\<close>

lemma thread_step_section:
  assumes "thread_step th e th'" and "\<forall>i. stops (callers th i) \<longrightarrow> stopping (worker th)"
  shows "case e of Section ev \<Rightarrow> worker_step (worker th) ev (worker th') | _ \<Rightarrow> worker th' = worker th"
  using assms(1)
proof cases
  case (join_Drain w)
  with assms(2) have "stopping (worker th)" by (metis stops.simps(2))
  with join_Drain show ?thesis by (simp add: worker_step.join)
qed (auto intro: worker_step.intros)

definition reached :: "nat \<Rightarrow> 's \<Rightarrow> ('s, 'r) thread_event list \<Rightarrow> ('s, 'r) threads \<Rightarrow> bool" where
  "reached depth s0 es th \<longleftrightarrow>
     worker_run (new_EngineWorker depth s0) (sections es) (worker th) \<and> lock_inv th \<and> wake_inv th \<and> callers_inv (sections es) th"

lemma reached_init: "reached d s [] (new_threads d s)"
  by (simp add: reached_def new_threads_def new_EngineWorker_def lock_inv_def wake_inv_def callers_inv_def busy_def worker_run.run_nil)

lemma reached_step:
  assumes "thread_step th e th'" and r: "reached d s es th"
  shows "reached d s (es @ [e]) th'"
proof -
  have "worker_run (new_EngineWorker d s) (sections (es @ [e])) (worker th')"
    using thread_step_section [OF assms(1)] r
    by (cases e) (auto simp: reached_def callers_inv_def intro: worker_run.run_snoc)
  with lock_inv_step [OF assms(1)] wake_inv_step [OF assms(1)] callers_inv_step [OF assms(1)] r show ?thesis
    by (simp add: reached_def)
qed

lemma run_reached: "thread_run th es th' \<Longrightarrow> th = new_threads d s \<Longrightarrow> reached d s es th'"
  by (induction rule: thread_run.induct) (auto intro: reached_init reached_step)

lemma run_append: "thread_run th' fs th'' \<Longrightarrow> thread_run th es th' \<Longrightarrow> thread_run th (es @ fs) th''"
  by (induction rule: thread_run.induct) (auto simp flip: append_assoc intro: thread_run.thread_snoc)

lemma run_continues: "thread_run th fs th' \<Longrightarrow> reached d s es th \<Longrightarrow> reached d s (es @ fs) th'"
  by (induction rule: thread_run.induct) (auto simp flip: append_assoc intro: reached_step)

section \<open>Progress\<close>

text \<open>A bound on what is left to do without new calls.\<close>

fun caller_work :: "('s, 'r) caller_pc \<Rightarrow> nat" where
  "caller_work Outside = 0"
| "caller_work (Getting _) = 1"
| "caller_work (Notifying _) = 4"
| "caller_work (Enqueueing _) = 8"
| "caller_work (Locking _) = 9"
| "caller_work Joining = 1"
| "caller_work Drain_notifying = 4"
| "caller_work Draining = 5"
| "caller_work Drain_locking = 6"

fun engine_work :: "engine_pc \<Rightarrow> nat" where
  "engine_work Gone = 0"
| "engine_work Asleep = 0"
| "engine_work Holds_lock = 1"
| "engine_work Wants_lock = 2"
| "engine_work Calling = 3"

definition work :: "('s, 'r) threads \<Rightarrow> nat" where
  "work th = engine_work (engine th) + 3 * length (queue (worker th)) + (\<Sum>i\<in>busy (callers th). caller_work (callers th i))"

lemma work_moved:
  fixes f :: "nat \<Rightarrow> ('s, 'r) caller_pc"
  assumes "finite (busy f)"
  shows "(\<Sum>j\<in>busy (f(i := p)). caller_work ((f(i := p)) j)) + caller_work (f i) = (\<Sum>j\<in>busy f. caller_work (f j)) + caller_work p"
proof -
  let ?B = "insert i (busy f)"
  have over: "(\<Sum>j\<in>busy g. caller_work (g j)) = caller_work (g i) + (\<Sum>j\<in>?B - {i}. caller_work (g j))"
    if "busy g \<subseteq> ?B" for g :: "nat \<Rightarrow> ('s, 'r) caller_pc"
  proof -
    have "(\<Sum>j\<in>busy g. caller_work (g j)) = (\<Sum>j\<in>?B. caller_work (g j))"
      using assms that by (intro sum.mono_neutral_left) (auto simp: busy_def)
    also have "\<dots> = caller_work (g i) + (\<Sum>j\<in>?B - {i}. caller_work (g j))"
      using assms by (intro sum.remove) auto
    finally show ?thesis .
  qed
  have "(\<Sum>j\<in>?B - {i}. caller_work ((f(i := p)) j)) = (\<Sum>j\<in>?B - {i}. caller_work (f j))"
    by (intro sum.cong) auto
  moreover have "busy (f(i := p)) \<subseteq> ?B" "busy f \<subseteq> ?B" by (auto simp: busy_def)
  note over [OF this(1)] over [OF this(2)]
  ultimately show ?thesis by (simp only: fun_upd_same)
qed

lemma internal_works:
  assumes "thread_step th e th'" and "internal e" and "finite (busy (callers th))"
  shows "work th' < work th"
  using assms(1)
proof cases
  case (push i t w)
  with work_moved [OF assms(3), of i "Notifying t"] Enqueue_sel [OF push(4)] show ?thesis by (simp add: work_def)
next
  case (throw i t e')
  with work_moved [OF assms(3), of i Outside] show ?thesis by (simp add: work_def)
next
  case (lock_Enqueue i t)
  with work_moved [OF assms(3), of i "Enqueueing t"] show ?thesis by (simp add: work_def)
next
  case (notify i t)
  with work_moved [OF assms(3), of i "Getting t"] show ?thesis by (cases "engine th") (simp_all add: work_def)
next
  case (get i t res)
  with work_moved [OF assms(3), of i Outside] show ?thesis by (simp add: work_def)
next
  case lock_Drain
  with work_moved [OF assms(3), of 0 Draining] show ?thesis by (simp add: work_def)
next
  case stop_Drain
  with work_moved [OF assms(3), of 0 Outside] work_moved [OF assms(3), of 0 Drain_notifying] show ?thesis by (simp add: work_def)
next
  case notify_Drain
  with work_moved [OF assms(3), of 0 Joining] show ?thesis by (cases "engine th") (simp_all add: work_def)
next
  case (join_Drain w)
  with work_moved [OF assms(3), of 0 Outside] Drain_join_sel [OF join_Drain(4)] show ?thesis by (simp add: work_def)
next
  case (pop w t)
  then show ?thesis by (auto simp: work_def elim: Loop_take_RunningD)
next
  case (return w)
  then show ?thesis by (auto simp: work_def Loop_take_def split: loop_pc.splits list.splits if_splits)
next
  case (call_task t w)
  with Loop_call_sel [OF call_task(5)] show ?thesis by (simp add: work_def)
qed (use assms(2) in \<open>simp_all add: work_def\<close>)

lemma internal_run_bounded:
  assumes "thread_run th fs th'" and "\<forall>e \<in> set fs. internal e" and "reached d s es th"
  shows "length fs + work th' \<le> work th"
  using assms
proof (induction rule: thread_run.induct)
  case (thread_snoc th es' th' e th'')
  then have "reached d s (es @ es') th'" by (blast intro: run_continues)
  then have "finite (busy (callers th'))" by (simp add: reached_def callers_inv_def)
  with thread_snoc internal_works [of th' e th''] show ?case by fastforce
qed simp

text \<open>Where the threads stand when nothing happens by itself any more.\<close>

definition stuck :: "('s, 'r) threads \<Rightarrow> bool" where
  "stuck th \<longleftrightarrow> (\<forall>e th'. thread_step th e th' \<longrightarrow> \<not> internal e)"

lemma stuckD: "stuck th \<Longrightarrow> thread_step th e th' \<Longrightarrow> internal e \<Longrightarrow> False"
  unfolding stuck_def by blast

lemma Loop_take_ready:
  assumes "pc w = Waiting" and "wait_predicate w"
  obtains w' t where "Loop_take w = Some w'" "pc w' = Running t" | w' where "Loop_take w = Some w'" "pc w' = Returned"
  using assms by (cases "queue w") (auto simp: Loop_take_def wait_predicate_def)

lemma main_only: "callers_inv es th \<Longrightarrow> only_main (callers th i) \<Longrightarrow> i = 0"
  unfolding callers_inv_def by blast

lemma stuck_mutex:
  assumes "reached d s es th" and stuck: "stuck th"
  shows "mutex th = None"
proof (cases "mutex th")
  case (Some who)
  note lock = assms(1) [unfolded reached_def, THEN conjunct2, THEN conjunct1]
  have wake: "wake_inv th" using assms(1) by (simp add: reached_def)
  show ?thesis
  proof (cases who)
    case Engine_thread
    with Some lock have h: "engine th = Holds_lock" by (simp add: lock_inv_def)
    with wake have p: "pc (worker th) = Waiting" by (cases "pc (worker th)") (simp_all add: wake_inv_def)
    show ?thesis
    proof (cases "wait_predicate (worker th)")
      case True
      from p True show ?thesis
      proof (rule Loop_take_ready)
        fix w t assume "Loop_take (worker th) = Some w" "pc w = Running t"
        from stuckD [OF stuck thread_step.pop [OF h True this]] show ?thesis by simp
      next
        fix w assume "Loop_take (worker th) = Some w" "pc w = Returned"
        from stuckD [OF stuck thread_step.return [OF h True this]] show ?thesis by simp
      qed
    next
      case False
      from stuckD [OF stuck thread_step.sleep [OF h False]] show ?thesis by simp
    qed
  next
    case (Caller i)
    with Some lock have "in_section (callers th i)" by (auto simp: lock_inv_def)
    then consider t where "callers th i = Enqueueing t" | "callers th i = Draining" by (cases "callers th i") auto
    then show ?thesis
    proof cases
      case 1
      then show ?thesis
        using stuckD [OF stuck thread_step.push [OF 1]] stuckD [OF stuck thread_step.throw [OF 1]]
        by (cases "Enqueue t (worker th)") auto
    next
      case 2
      with assms(1) have "i = 0" by (intro main_only [of "sections es" th]) (simp_all add: reached_def)
      with 2 stuckD [OF stuck thread_step.stop_Drain] show ?thesis by auto
    qed
  qed
qed simp

lemma serial_futures_some:
  "t \<in> set ts \<Longrightarrow> serial_futures ts s m (ticket t) \<noteq> None"
proof (induction ts rule: rev_induct)
  case (snoc u ts)
  then show ?case by auto
qed simp

lemma stuck_idle:
  assumes r: "reached d s es th" and stuck: "stuck th"
  shows "callers th i = Outside" and "queue (worker th) = []"
    and "engine th = (if stopping (worker th) then Gone else Asleep)"
    and "finished (sections es) = accepted (sections es)"
proof -
  note free = stuck_mutex [OF r stuck]
  from r have inv: "worker_inv s d (sections es) (worker th)" by (auto simp: reached_def intro: worker_run_inv)
  have wake: "wake_inv th" and cal: "callers_inv (sections es) th" using r by (simp_all add: reached_def)
  have outside: "\<not> in_section (callers th k)" for k using nobody_inside(2) [OF _ free] r by (simp add: reached_def)
  have quiet: "\<not> will_notify (callers th k)" for k
    using stuckD [OF stuck thread_step.notify, of k] stuckD [OF stuck thread_step.notify_Drain] main_only [OF cal, of k]
    by (cases "callers th k") auto
  have "engine th \<noteq> Wants_lock" using stuckD [OF stuck thread_step.lock_Loop [OF _ free]] by auto
  moreover have "engine th \<noteq> Holds_lock" using r free by (auto simp: reached_def lock_inv_def)
  moreover have "engine th \<noteq> Calling"
  proof
    assume c: "engine th = Calling"
    with wake obtain t where t: "pc (worker th) = Running t" by (cases "pc (worker th)") (auto simp: wake_inv_def)
    from stuckD [OF stuck thread_step.call_task [OF c t Loop_call_Running [OF t]]] show False by simp
  qed
  ultimately have eng: "engine th = Asleep \<or> engine th = Gone" by (cases "engine th") auto
  have asleep: "\<not> wait_predicate (worker th) \<and> pc (worker th) = Waiting" if "engine th = Asleep"
    using that wake quiet by (cases "pc (worker th)") (auto simp: wake_inv_def)
  have gone: "pc (worker th) = Returned" if "engine th = Gone"
    using that wake by (cases "pc (worker th)") (auto simp: wake_inv_def)
  show e: "engine th = (if stopping (worker th) then Gone else Asleep)" and q: "queue (worker th) = []"
    using eng asleep gone inv by (auto simp: wait_predicate_def worker_inv_def)
  have "in_flight (worker th) = []" using eng asleep gone by auto
  then show fin: "finished (sections es) = accepted (sections es)" using inv q by (simp add: worker_inv_def)
  show "callers th i = Outside"
  proof (cases "callers th i")
    case (Locking t)
    from stuckD [OF stuck thread_step.lock_Enqueue [OF Locking free]] show ?thesis by simp
  next
    case (Enqueueing t)
    with outside [of i] show ?thesis by simp
  next
    case (Notifying t)
    with quiet [of i] show ?thesis by simp
  next
    case (Getting t)
    with cal fin have "t \<in> set (finished (sections es))" by (auto simp: callers_inv_def)
    with inv serial_futures_some obtain res where "futures (worker th) (ticket t) = Some res"
      by (fastforce simp: worker_inv_def)
    from stuckD [OF stuck thread_step.get [OF Getting this]] show ?thesis by simp
  next
    case Drain_locking
    then have "i = 0" by (intro main_only [OF cal]) simp
    with Drain_locking stuckD [OF stuck thread_step.lock_Drain [OF _ free]] show ?thesis by auto
  next
    case Draining
    with outside [of i] show ?thesis by simp
  next
    case Drain_notifying
    with quiet [of i] show ?thesis by simp
  next
    case Joining
    then have "i = 0" by (intro main_only [OF cal]) simp
    moreover have "stopping (worker th)" using cal Joining unfolding callers_inv_def by (metis stops.simps(2))
    moreover from this e gone have "pc (worker th) = Returned" by simp
    ultimately obtain w where "Drain_join (worker th) = Some w" "i = 0" by (cases "joinable (worker th)") (auto simp: Drain_join_def)
    with stuckD [OF stuck thread_step.join_Drain] Joining show ?thesis by auto
  qed
qed

section \<open>Results\<close>

text \<open>No two calls have the same ticket.\<close>

definition tickets_inv :: "('s, 'r) worker_event list \<Rightarrow> ('s, 'r) threads \<Rightarrow> bool" where
  "tickets_inv es th \<longleftrightarrow>
     distinct (map ticket (accepted es)) \<and> ticket ` set (accepted es) \<subseteq> tickets th \<and>
     (\<forall>i t. unpushed (callers th i) = Some t \<longrightarrow> ticket t \<in> tickets th - ticket ` set (accepted es)) \<and>
     (\<forall>i j t u. unpushed (callers th i) = Some t \<and> unpushed (callers th j) = Some u \<and> ticket t = ticket u \<longrightarrow> i = j)"

lemma tickets_inv_step:
  assumes "thread_step th e th'" and inv: "tickets_inv (sections es) th"
  shows "tickets_inv (sections (es @ [e])) th'"
  using assms(1)
proof cases
  case (push i t w)
  then have t: "unpushed (callers th i) = Some t" by simp
  with inv have fresh: "ticket t \<in> tickets th - ticket ` set (accepted (sections es))" unfolding tickets_inv_def by blast
  have others: "ticket u \<noteq> ticket t" if "unpushed (callers th j) = Some u" "j \<noteq> i" for j u
    using inv t that unfolding tickets_inv_def by metis
  have rest: "unpushed (((callers th)(i := Notifying t)) j) = Some u \<longleftrightarrow> j \<noteq> i \<and> unpushed (callers th j) = Some u" for j u
    by simp
  show ?thesis
    using inv push(1,2) fresh others unfolding tickets_inv_def by (simp add: rest del: fun_upd_apply) blast
next
  case (lock_Enqueue i t)
  then have "unpushed (((callers th)(i := Enqueueing t)) j) = unpushed (callers th j)" for j by auto
  with lock_Enqueue(1,2) inv show ?thesis by (simp add: tickets_inv_def del: fun_upd_apply)
next
  case (calls_Run i t)
  then have "ticket u \<noteq> ticket t" if "unpushed (callers th j) = Some u" for j u
    using inv that unfolding tickets_inv_def by (metis DiffD1)
  with calls_Run inv show ?thesis by (auto simp: tickets_inv_def split: if_splits)
qed (use inv in \<open>auto simp: tickets_inv_def split: if_splits\<close>)

lemma serial_futures_other: "k \<notin> ticket ` set us \<Longrightarrow> serial_futures us s m k = m k"
  by (induction us arbitrary: s m) auto

lemma serial_futures_at:
  assumes "distinct (map ticket (ts @ t # us))"
  shows "serial_futures (ts @ t # us) s m (ticket t) = Some (fst (packaged t (run_serial ts s)))"
proof -
  have "ticket t \<notin> ticket ` set us" using assms by auto
  then show ?thesis by (simp add: serial_futures_other)
qed

lemma finished_ticket: "serial_futures ts s Map.empty k = Some res \<Longrightarrow> k \<in> ticket ` set ts"
  using serial_futures_other [of k ts s Map.empty] by (cases "k \<in> ticket ` set ts") auto

lemma result_of:
  assumes inv: "worker_inv s0 d es w" and dist: "distinct (map ticket (accepted es))"
    and "t \<in> set (accepted es)" and res: "futures w (ticket t) = Some res"
  shows "\<exists>ts us. finished es = ts @ t # us \<and> res = fst (packaged t (run_serial ts s0))"
proof -
  have all: "accepted es = finished es @ in_flight w @ queue w" using inv unfolding worker_inv_def by (metis append.assoc)
  have fut: "futures w = serial_futures (finished es) s0 Map.empty" using inv by (simp add: worker_inv_def)
  with res finished_ticket obtain u where u: "u \<in> set (finished es)" "ticket u = ticket t" by fastforce
  with all have "u \<in> set (accepted es)" by simp
  with u(2) assms(3) dist have "u = t" by (meson distinct_map inj_onD)
  with u(1) obtain ts us where split: "finished es = ts @ t # us" by (meson split_list)
  have "distinct (map ticket (finished es))" using dist all by simp
  with serial_futures_at [of ts t us s0 Map.empty] split fut res show ?thesis by auto
qed

lemma returns_results:
  assumes "thread_run th0 es th" and "th0 = new_threads d s0"
  shows "tickets_inv (sections es) th \<and>
     (\<forall>i t res. Returns i t res \<in> set es \<longrightarrow>
        (\<exists>ts us. finished (sections es) = ts @ t # us \<and> res = fst (packaged t (run_serial ts s0))))"
  using assms
proof (induction rule: thread_run.induct)
  case (thread_nil th)
  then show ?case by (simp add: tickets_inv_def new_threads_def)
next
  case (thread_snoc th es th' e th'')
  note run = run_reached [OF thread_snoc.hyps(1) thread_snoc.prems]
  have tick: "tickets_inv (sections es) th'" and IH: "\<exists>ts us. finished (sections es) = ts @ t # us \<and> res = fst (packaged t (run_serial ts s0))"
    if "Returns i t res \<in> set es" for i t res using thread_snoc that by auto
  have tick: "tickets_inv (sections es) th'" using thread_snoc by simp
  have "\<exists>ts us. finished (sections (es @ [e])) = ts @ t # us \<and> res = fst (packaged t (run_serial ts s0))"
    if r: "Returns i t res \<in> set (es @ [e])" for i t res
  proof (cases "Returns i t res \<in> set es")
    case True
    from IH [OF True] show ?thesis by fastforce
  next
    case False
    with r have e: "e = Returns i t res" by simp
    with thread_snoc.hyps(2) have "callers th' i = Getting t" "futures (worker th') (ticket t) = Some res"
      by (auto elim: thread_step.cases)
    with run tick result_of [of s0 d "sections es" "worker th'" t res] worker_run_inv [of _ _ "worker th'" d s0] e
    show ?thesis by (auto simp: reached_def callers_inv_def tickets_inv_def)
  qed
  with tickets_inv_step [OF thread_snoc.hyps(2) tick] show ?case by blast
qed

section \<open>Properties\<close>

text \<open>
  C28. No wake-up is lost and nobody waits for ever: from every state the threads can reach, what
  happens without new calls (lock, notify, sleep, pop, call, join, \<^verbatim>\<open>get\<close>, in any order) ends after at
  most \<open>work\<close> steps, and when nothing more happens every caller has its result or its refusal,
  every drain has returned, the queue is empty, all accepted tasks have run in order, and the
  engine thread has returned if the worker was told to stop and sleeps otherwise.
\<close>
theorem worker_quiesces:
  assumes "thread_run (new_threads depth s0) es th" and "thread_run th fs th'" and "\<forall>e \<in> set fs. internal e"
  shows "length fs \<le> work th \<and>
    (stuck th' \<longrightarrow>
       (\<forall>i. callers th' i = Outside) \<and> queue (worker th') = [] \<and>
       engine th' = (if stopping (worker th') then Gone else Asleep) \<and>
       engine_state (worker th') = run_serial (accepted (sections (es @ fs))) s0)"
proof -
  note r = run_reached [OF assms(1) refl]
  note r' = run_continues [OF assms(2) r]
  have "engine_state (worker th') = run_serial (finished (sections (es @ fs))) s0"
    using worker_run_inv [of _ "sections (es @ fs)" "worker th'" depth s0] r' by (simp add: reached_def worker_inv_def)
  with stuck_idle(4) [OF r'] have "stuck th' \<Longrightarrow> engine_state (worker th') = run_serial (accepted (sections (es @ fs))) s0"
    by metis
  with internal_run_bounded [OF assms(2,3) r] stuck_idle(1-3) [OF r'] show ?thesis by auto
qed

text \<open>One call, from its entry to its return; then the engine thread sleeps again.\<close>

definition one_call :: "(nat, nat) task" where
  "one_call = \<lparr>ticket = 7, packaged = (\<lambda>n. (Inr n, n + 1))\<rparr>"

definition entered :: "(nat, nat) threads" where
  "entered = goes 1 (Getting one_call) (new_threads 4 5)\<lparr>worker := (new_EngineWorker 4 5)\<lparr>queue := [one_call]\<rparr>, tickets := {7}\<rparr>"

definition answered :: "(nat, nat) threads" where
  "answered = (new_threads 4 5)\<lparr>worker := (new_EngineWorker 4 5)\<lparr>engine_state := 6, futures := [7 \<mapsto> Inr 5]\<rparr>,
     engine := Asleep, tickets := {7}\<rparr>"

lemma one_call_enters: "thread_run (new_threads 4 5) [Calls 1, Quiet, Section (Accepted one_call), Quiet] entered"
proof -
  let ?i = "new_threads 4 5 :: (nat, nat) threads"
  let ?t1 = "goes 1 (Locking one_call) (?i\<lparr>tickets := {7}\<rparr>)"
  let ?t2 = "goes 1 (Enqueueing one_call) (?t1\<lparr>mutex := Some (Caller 1)\<rparr>)"
  let ?t3 = "goes 1 (Notifying one_call) (?t2\<lparr>worker := (new_EngineWorker 4 5)\<lparr>queue := [one_call]\<rparr>, mutex := None\<rparr>)"
  have 1: "thread_step ?i (Calls 1) ?t1"
    using thread_step.calls_Run [of ?i 1 one_call] by (simp add: new_threads_def one_call_def)
  have 2: "thread_step ?t1 Quiet ?t2" by (rule thread_step.lock_Enqueue) (simp_all add: new_threads_def)
  have 3: "thread_step ?t2 (Section (Accepted one_call)) ?t3"
    by (rule thread_step.push) (simp_all add: new_threads_def new_EngineWorker_def Enqueue_def)
  have "thread_step ?t3 Quiet (goes 1 (Getting one_call) (notify_one ?t3))" by (rule thread_step.notify) simp
  moreover have "goes 1 (Getting one_call) (notify_one ?t3) = entered"
    by (simp add: entered_def notify_one_def new_threads_def goes_def)
  ultimately have 4: "thread_step ?t3 Quiet entered" by simp
  have "thread_run ?i (((([] @ [Calls 1]) @ [Quiet]) @ [Section (Accepted one_call)]) @ [Quiet]) entered"
    by (intro thread_run.intros(2)) (rule thread_run.thread_nil 1 2 3 4)+
  then show ?thesis by simp
qed

abbreviation "one_answer \<equiv> [Quiet, Section (Started one_call), Section (Finished one_call), Returns 1 one_call (Inr 5), Quiet, Quiet]"

lemma one_call_returns: "thread_run entered one_answer answered"
proof -
  let ?w = "new_EngineWorker 4 5 :: (nat, nat) EngineWorker"
  let ?t1 = "entered\<lparr>engine := Holds_lock, mutex := Some Engine_thread\<rparr>"
  let ?t2 = "entered\<lparr>worker := ?w\<lparr>pc := Running one_call\<rparr>, engine := Calling, mutex := None\<rparr>"
  let ?t3 = "entered\<lparr>worker := ?w\<lparr>engine_state := 6, futures := [7 \<mapsto> Inr 5]\<rparr>, engine := Wants_lock, mutex := None\<rparr>"
  let ?t4 = "goes 1 Outside ?t3"
  let ?t5 = "?t4\<lparr>engine := Holds_lock, mutex := Some Engine_thread\<rparr>"
  note simps = entered_def new_threads_def new_EngineWorker_def goes_def wait_predicate_def
  have 1: "thread_step entered Quiet ?t1" by (rule thread_step.lock_Loop) (simp_all add: simps)
  have 2: "thread_step ?t1 (Section (Started one_call)) ?t2"
    using thread_step.pop [of ?t1 "?w\<lparr>pc := Running one_call\<rparr>" one_call] by (simp add: simps Loop_take_def)
  have 3: "thread_step ?t2 (Section (Finished one_call)) ?t3"
    using thread_step.call_task [of ?t2 one_call "?w\<lparr>engine_state := 6, futures := [7 \<mapsto> Inr 5]\<rparr>"]
    by (simp add: simps Loop_call_def one_call_def)
  have 4: "thread_step ?t3 (Returns 1 one_call (Inr 5)) ?t4"
    by (rule thread_step.get) (simp_all add: simps one_call_def)
  have 5: "thread_step ?t4 Quiet ?t5" by (rule thread_step.lock_Loop) (simp_all add: simps)
  have "thread_step ?t5 Quiet (?t5\<lparr>engine := Asleep, mutex := None\<rparr>)" by (rule thread_step.sleep) (simp_all add: simps)
  moreover have "?t5\<lparr>engine := Asleep, mutex := None\<rparr> = answered" by (simp add: answered_def simps fun_eq_iff)
  ultimately have 6: "thread_step ?t5 Quiet answered" by simp
  have "thread_run entered (((((([] @ [Quiet]) @ [Section (Started one_call)]) @ [Section (Finished one_call)]) @
     [Returns 1 one_call (Inr 5)]) @ [Quiet]) @ [Quiet]) answered"
    by (intro thread_run.intros(2)) (rule thread_run.thread_nil 1 2 3 4 5 6)+
  then show ?thesis by simp
qed

theorem worker_quiesces_witness:
  "thread_run entered one_answer answered \<and> 6 \<le> work entered \<and> stuck answered \<and> engine_state (worker answered) = 6 \<and>
     engine answered = Asleep"
proof -
  have "stuck answered"
    by (auto simp: stuck_def answered_def new_threads_def new_EngineWorker_def elim: thread_step.cases)
  with worker_quiesces [OF one_call_enters one_call_returns] one_call_returns show ?thesis
    by (simp add: one_call_def answered_def new_threads_def new_EngineWorker_def)
qed

text \<open>
  \<^verbatim>\<open>Run\<close> is atomic: whatever the threads do, the result a caller of \<^verbatim>\<open>Run\<close> gets is that of its own
  function, called once on the engine state that the tasks accepted before it have left, in the
  order in which all callers' tasks were accepted.
\<close>
theorem Run_linearizes:
  assumes "thread_run (new_threads depth s0) es th" and "Returns i t res \<in> set es"
  shows "\<exists>ts us. accepted (sections es) = ts @ t # us \<and> distinct (accepted (sections es)) \<and>
    res = fst (packaged t (run_serial ts s0))"
proof -
  from returns_results [OF assms(1) refl] assms(2) obtain ts us where
    fin: "finished (sections es) = ts @ t # us" "res = fst (packaged t (run_serial ts s0))" by blast
  have "accepted (sections es) = finished (sections es) @ in_flight (worker th) @ queue (worker th)"
    using worker_run_inv [of _ "sections es" "worker th" depth s0] run_reached [OF assms(1) refl]
    by (simp add: reached_def worker_inv_def) (metis append.assoc)
  moreover have "distinct (accepted (sections es))"
    using returns_results [OF assms(1) refl] by (auto simp: tickets_inv_def distinct_map)
  ultimately show ?thesis using fin by auto
qed

theorem Run_linearizes_witness:
  "\<exists>ts us. [one_call] = ts @ one_call # us \<and> Inr 5 = fst (packaged one_call (run_serial ts 5))"
  using Run_linearizes [OF run_append [OF one_call_returns one_call_enters], of 1 one_call "Inr 5"] by auto

end
