(* ===== verification/Journal.thy ===== *)
theory Journal
  imports Errors "HOL-Library.Multiset"
begin

text \<open>
  \<^verbatim>\<open>src/journal/journal.{h,cpp}\<close> and \<^verbatim>\<open>src/journal/internal.proto\<close>: the sidecar
  intent journal. Its two SQL tables are lists of rows in insertion order, and every
  member of the class is one function with the meaning of the SQL statement it runs
  (primary keys, \<^verbatim>\<open>INSERT OR IGNORE\<close>, the foreign key of \<open>applied\<close>, the left join).
  Parameters stand for what is not in the sources: \<open>sqlite_env\<close> says which statements
  SQLite fails (\<^verbatim>\<open>ThrowSqlite\<close>) and its message texts, \<open>outcome_pb\<close> is the protobuf
  encoding of \<open>Outcome\<close>, \<open>sha256\<close> is GLib's checksum, and \<open>order_by\<close> is the sorting of
  \<^verbatim>\<open>ORDER BY journaled_at_utc\<close>, which leaves the order of equal timestamps open.
\<close>

section \<open>Tables and records\<close>

record intent_row =
  mutation_id :: string
  rpc_name :: string
  payload :: bytes
  payload_sha256 :: bytes
  journaled_at_utc :: int64
  pending_response :: "bytes option"

record applied_row =
  applied_id :: string
  outcome_blob :: bytes
  applied_at_utc :: int64

record Journal =
  intents :: "intent_row list"
  applied :: "applied_row list"

definition empty_journal :: Journal where
  "empty_journal = \<lparr>intents = [], applied = []\<rparr>"

record Outcome =
  oc_rpc_name :: string
  oc_ok :: bool
  oc_response :: bytes
  oc_error :: "ErrorDetail option"

record IndeterminateEntry =
  ie_mutation_id :: string
  ie_rpc_name :: string
  ie_payload_sha256 :: bytes
  ie_journaled_at_utc :: int64

record PendingEntry =
  pe_mutation_id :: string
  pe_rpc_name :: string
  pe_request_payload :: bytes
  pe_pending_response :: bytes

record outcome_pb =
  SerializeOutcome :: "Outcome \<Rightarrow> bytes"
  ParseOutcome :: "bytes \<Rightarrow> Outcome option"

definition outcome_pb_roundtrip :: "outcome_pb \<Rightarrow> bool" where
  "outcome_pb_roundtrip pb \<longleftrightarrow> (\<forall>oc. ParseOutcome pb (SerializeOutcome pb oc) = Some oc)"

text \<open>An accessor of an unset message field returns the default message.\<close>

definition oc_error_get :: "Outcome \<Rightarrow> ErrorDetail" where
  "oc_error_get oc = (case oc_error oc of Some d \<Rightarrow> d | None \<Rightarrow> ErrorDetail_default)"

section \<open>SQLite\<close>

datatype journal_stmt =
    Stmt_RecordIntent | Stmt_GetOutcome | Stmt_RecordPending | Stmt_ListPendingUnresolved
  | Stmt_ClearPending | Stmt_RecordOutcome | Stmt_ListIndeterminate

text \<open>
  \<open>stmt_fault sq stmt id\<close>: the message and the place (\<^verbatim>\<open>bind\<close>, \<^verbatim>\<open>step\<close> or the SQL text) when
  preparing, binding or stepping the statement for that mutation fails; a failed statement
  changes nothing.
\<close>

record sqlite_env =
  stmt_fault :: "journal_stmt \<Rightarrow> string \<Rightarrow> (string \<times> string) option"
  unique_errmsg :: string
  foreign_key_errmsg :: string

definition no_faults :: "sqlite_env \<Rightarrow> bool" where
  "no_faults sq \<longleftrightarrow> stmt_fault sq = (\<lambda>_ _. None)"

definition ThrowSqlite :: "string \<Rightarrow> string \<Rightarrow> exn" where
  "ThrowSqlite errmsg ctx = ExShim (shim_error ERROR_CODE_ENGINE_ERROR (''journal: '' @ errmsg) ctx)"

definition with_stmt ::
  "sqlite_env \<Rightarrow> journal_stmt \<Rightarrow> string \<Rightarrow> (exn + 'a) \<Rightarrow> exn + 'a" where
  "with_stmt sq st mid r =
     (case stmt_fault sq st mid of Some (m, ctx) \<Rightarrow> Inl (ThrowSqlite m ctx) | None \<Rightarrow> r)"

text \<open>
  \<^verbatim>\<open>Exec\<close> and \<^verbatim>\<open>Journal::Open\<close>. \<open>disk\<close> holds the tables the file has, \<open>None\<close> where it
  has none yet; \<open>open_errmsg\<close> and \<open>exec_errmsg\<close> are SQLite's verdicts, with the inner
  option for a missing handle or message.
\<close>

record sqlite_open_env =
  open_errmsg :: "string option option"
  exec_errmsg :: "string \<Rightarrow> string option option"

definition journal_ddl :: "string list" where
  "journal_ddl =
     [''PRAGMA journal_mode=WAL'',
      ''PRAGMA synchronous=FULL'',
      ''PRAGMA foreign_keys=ON'',
      ''CREATE TABLE IF NOT EXISTS intents ('' @
      ''  mutation_id TEXT PRIMARY KEY,'' @
      ''  rpc_name TEXT NOT NULL,'' @
      ''  payload BLOB NOT NULL,'' @
      ''  payload_sha256 BLOB NOT NULL,'' @
      ''  journaled_at_utc INTEGER NOT NULL,'' @
      ''  pending_response BLOB)'',
      ''CREATE TABLE IF NOT EXISTS applied ('' @
      ''  mutation_id TEXT PRIMARY KEY'' @
      ''    REFERENCES intents(mutation_id),'' @
      ''  outcome BLOB NOT NULL,'' @
      ''  applied_at_utc INTEGER NOT NULL)'']"

definition Exec :: "sqlite_open_env \<Rightarrow> string \<Rightarrow> exn + unit" where
  "Exec so sql =
     (case exec_errmsg so sql of
        None \<Rightarrow> Inr ()
      | Some m \<Rightarrow>
          Inl (ExShim (shim_error ERROR_CODE_ENGINE_ERROR
            (''journal: '' @ (case m of Some t \<Rightarrow> t | None \<Rightarrow> ''unknown sqlite error'')) sql)))"

definition Journal_Open :: "sqlite_open_env \<Rightarrow> string \<Rightarrow> Journal option \<Rightarrow> exn + Journal" where
  "Journal_Open so path disk =
     (case open_errmsg so of
        Some m \<Rightarrow>
          Inl (ExShim (shim_error ERROR_CODE_ENGINE_ERROR
            (''journal: '' @ (case m of Some t \<Rightarrow> t | None \<Rightarrow> ''cannot allocate sqlite handle'')) path))
      | None \<Rightarrow>
          (case traverse (Exec so) journal_ddl of
             Inl e \<Rightarrow> Inl e
           | Inr _ \<Rightarrow> Inr (case disk of Some j \<Rightarrow> j | None \<Rightarrow> empty_journal)))"

section \<open>Statements\<close>

definition RecordIntent ::
  "sqlite_env \<Rightarrow> (bytes \<Rightarrow> bytes) \<Rightarrow> string \<Rightarrow> string \<Rightarrow> bytes \<Rightarrow> int64 \<Rightarrow> Journal \<Rightarrow> exn + Journal" where
  "RecordIntent sq sha256 mid rpc pl now_utc j =
     with_stmt sq Stmt_RecordIntent mid
       (if mid \<in> mutation_id ` set (intents j) then Inr j
        else Inr (j\<lparr>intents := intents j @
               [\<lparr>mutation_id = mid, rpc_name = rpc, payload = pl, payload_sha256 = sha256 pl,
                 journaled_at_utc = now_utc, pending_response = None\<rparr>]\<rparr>))"

definition GetOutcome ::
  "sqlite_env \<Rightarrow> outcome_pb \<Rightarrow> string \<Rightarrow> Journal \<Rightarrow> exn + Outcome option" where
  "GetOutcome sq pb mid j =
     with_stmt sq Stmt_GetOutcome mid
       (case find (\<lambda>r. applied_id r = mid) (applied j) of
          None \<Rightarrow> Inr None
        | Some r \<Rightarrow>
            (case ParseOutcome pb (outcome_blob r) of
               Some oc \<Rightarrow> Inr (Some oc)
             | None \<Rightarrow> Inl (ExShim (shim_error ERROR_CODE_ENGINE_ERROR
                                ''journal: corrupt outcome record'' mid))))"

definition set_pending :: "string \<Rightarrow> bytes option \<Rightarrow> Journal \<Rightarrow> Journal" where
  "set_pending mid p j =
     j\<lparr>intents := map (\<lambda>r. if mutation_id r = mid then r\<lparr>pending_response := p\<rparr> else r) (intents j)\<rparr>"

definition RecordPending :: "sqlite_env \<Rightarrow> string \<Rightarrow> bytes \<Rightarrow> Journal \<Rightarrow> exn + Journal" where
  "RecordPending sq mid response_bytes j =
     with_stmt sq Stmt_RecordPending mid (Inr (set_pending mid (Some response_bytes) j))"

definition ClearPending :: "sqlite_env \<Rightarrow> string \<Rightarrow> Journal \<Rightarrow> exn + Journal" where
  "ClearPending sq mid j = with_stmt sq Stmt_ClearPending mid (Inr (set_pending mid None j))"

definition RecordOutcome ::
  "sqlite_env \<Rightarrow> outcome_pb \<Rightarrow> string \<Rightarrow> Outcome \<Rightarrow> int64 \<Rightarrow> Journal \<Rightarrow> exn + Journal" where
  "RecordOutcome sq pb mid oc now_utc j =
     with_stmt sq Stmt_RecordOutcome mid
       (if mid \<in> applied_id ` set (applied j) then Inl (ThrowSqlite (unique_errmsg sq) ''step'')
        else if mid \<notin> mutation_id ` set (intents j)
        then Inl (ThrowSqlite (foreign_key_errmsg sq) ''step'')
        else Inr (j\<lparr>applied := applied j @
               [\<lparr>applied_id = mid, outcome_blob = SerializeOutcome pb oc, applied_at_utc = now_utc\<rparr>]\<rparr>))"

text \<open>\<^verbatim>\<open>FROM intents i LEFT JOIN applied a USING (mutation_id) WHERE a.mutation_id IS NULL\<close>.\<close>

definition unresolved :: "Journal \<Rightarrow> intent_row list" where
  "unresolved j = filter (\<lambda>r. mutation_id r \<notin> applied_id ` set (applied j)) (intents j)"

type_synonym row_order = "intent_row list \<Rightarrow> intent_row list"

definition sql_order_by :: "row_order \<Rightarrow> bool" where
  "sql_order_by order_by \<longleftrightarrow>
     (\<forall>rs. mset (order_by rs) = mset rs \<and> sorted (map journaled_at_utc (order_by rs)))"

definition ListPendingUnresolved ::
  "sqlite_env \<Rightarrow> row_order \<Rightarrow> Journal \<Rightarrow> exn + PendingEntry list" where
  "ListPendingUnresolved sq order_by j =
     with_stmt sq Stmt_ListPendingUnresolved []
       (Inr (map (\<lambda>r. \<lparr>pe_mutation_id = c_str (mutation_id r), pe_rpc_name = c_str (rpc_name r),
                        pe_request_payload = payload r,
                        pe_pending_response = (case pending_response r of Some b \<Rightarrow> b | None \<Rightarrow> [])\<rparr>)
              (order_by (filter (\<lambda>r. pending_response r \<noteq> None) (unresolved j)))))"

definition ListIndeterminate ::
  "sqlite_env \<Rightarrow> row_order \<Rightarrow> Journal \<Rightarrow> exn + IndeterminateEntry list" where
  "ListIndeterminate sq order_by j =
     with_stmt sq Stmt_ListIndeterminate []
       (Inr (map (\<lambda>r. \<lparr>ie_mutation_id = c_str (mutation_id r), ie_rpc_name = c_str (rpc_name r),
                        ie_payload_sha256 = payload_sha256 r,
                        ie_journaled_at_utc = journaled_at_utc r\<rparr>)
              (order_by (unresolved j))))"

section \<open>Well-formedness and the abstract journal\<close>

text \<open>
  What the two primary keys and the foreign key keep true. The abstract journal is three
  partial maps keyed by mutation id: what was intended, the pending response, the outcome.
\<close>

definition journal_ok :: "Journal \<Rightarrow> bool" where
  "journal_ok j \<longleftrightarrow>
     distinct (map mutation_id (intents j)) \<and> distinct (map applied_id (applied j)) \<and>
     applied_id ` set (applied j) \<subseteq> mutation_id ` set (intents j)"

definition intent_row_of :: "Journal \<Rightarrow> string \<Rightarrow> intent_row option" where
  "intent_row_of j mid = find (\<lambda>r. mutation_id r = mid) (intents j)"

definition intent_of :: "Journal \<Rightarrow> string \<Rightarrow> (string \<times> bytes) option" where
  "intent_of j mid = map_option (\<lambda>r. (rpc_name r, payload r)) (intent_row_of j mid)"

definition pending_of :: "Journal \<Rightarrow> string \<Rightarrow> bytes option" where
  "pending_of j mid = Option.bind (intent_row_of j mid) pending_response"

definition outcome_of :: "Journal \<Rightarrow> string \<Rightarrow> bytes option" where
  "outcome_of j mid = map_option outcome_blob (find (\<lambda>r. applied_id r = mid) (applied j))"

lemma with_stmt_eq_Inr [simp]:
  "with_stmt sq st mid r = Inr a \<longleftrightarrow> stmt_fault sq st mid = None \<and> r = Inr a"
  by (auto simp: with_stmt_def split: option.splits)

lemma with_stmt_no_faults [simp]: "no_faults sq \<Longrightarrow> with_stmt sq st mid r = r"
  by (simp add: with_stmt_def no_faults_def)

lemma intent_row_of_append:
  "intent_row_of (j\<lparr>intents := intents j @ [r]\<rparr>) mid =
     (case intent_row_of j mid of Some r' \<Rightarrow> Some r'
      | None \<Rightarrow> if mutation_id r = mid then Some r else None)"
  by (simp add: intent_row_of_def find_append split: option.splits)

lemma intent_row_of_None: "intent_row_of j mid = None \<longleftrightarrow> mid \<notin> mutation_id ` set (intents j)"
  by (auto simp: intent_row_of_def find_None_all)

lemma intent_row_of_Some: "intent_row_of j mid = Some r \<Longrightarrow> r \<in> set (intents j) \<and> mutation_id r = mid"
  by (auto simp: intent_row_of_def dest: find_Some_in)

lemma outcome_of_None: "outcome_of j mid = None \<longleftrightarrow> mid \<notin> applied_id ` set (applied j)"
  by (auto simp: outcome_of_def find_None_all)

lemma find_map_upd:
  "find (\<lambda>r. mutation_id r = mid')
     (map (\<lambda>r. if mutation_id r = mid then r\<lparr>pending_response := p\<rparr> else r) rs) =
   map_option (\<lambda>r. if mutation_id r = mid then r\<lparr>pending_response := p\<rparr> else r)
     (find (\<lambda>r. mutation_id r = mid') rs)"
  by (induction rs) auto

lemma mutation_ids_set_pending [simp]:
  "map mutation_id (intents (set_pending mid p j)) = map mutation_id (intents j)"
  "mutation_id ` set (intents (set_pending mid p j)) = mutation_id ` set (intents j)"
proof -
  show ids: "map mutation_id (intents (set_pending mid p j)) = map mutation_id (intents j)"
    by (simp add: set_pending_def)
  show "mutation_id ` set (intents (set_pending mid p j)) = mutation_id ` set (intents j)"
    using arg_cong [OF ids, of set] by simp
qed

lemma applied_set_pending [simp]: "applied (set_pending mid p j) = applied j"
  by (simp add: set_pending_def)

lemma set_pending_views [simp]:
  "intent_of (set_pending mid p j) = intent_of j"
  "outcome_of (set_pending mid p j) = outcome_of j"
  "pending_of (set_pending mid p j) =
     (if intent_of j mid = None then pending_of j else (pending_of j)(mid := p))"
proof -
  have row: "intent_row_of (set_pending mid p j) mid' =
      map_option (\<lambda>r. if mutation_id r = mid then r\<lparr>pending_response := p\<rparr> else r) (intent_row_of j mid')" for mid'
    by (simp add: intent_row_of_def set_pending_def find_map_upd)
  show "intent_of (set_pending mid p j) = intent_of j"
    by (rule ext) (simp add: intent_of_def row option.map_comp o_def if_distrib cong: if_cong)
  show "outcome_of (set_pending mid p j) = outcome_of j"
    by (rule ext) (simp add: outcome_of_def)
  show "pending_of (set_pending mid p j) =
     (if intent_of j mid = None then pending_of j else (pending_of j)(mid := p))"
    by (rule ext) (auto simp: pending_of_def intent_of_def row bind_map_option dest!: intent_row_of_Some
        split: option.splits bind_splits)
qed

lemma set_pending_ok [simp]: "journal_ok (set_pending mid p j) = journal_ok j"
  by (simp only: journal_ok_def mutation_ids_set_pending applied_set_pending)

section \<open>The interface of the journal\<close>

text \<open>
  The contract the mutation protocol and crash recovery rely on: each durable write, when
  it succeeds, changes exactly one entry of one of the three maps, an intent is never
  overwritten, and an outcome is written once, for a journaled intent only.
\<close>

locale intent_journal =
  fixes wf :: "'j \<Rightarrow> bool"
    and intent :: "'j \<Rightarrow> string \<Rightarrow> (string \<times> bytes) option"
    and pending :: "'j \<Rightarrow> string \<Rightarrow> bytes option"
    and outcome :: "'j \<Rightarrow> string \<Rightarrow> bytes option"
    and put_intent :: "string \<Rightarrow> string \<Rightarrow> bytes \<Rightarrow> int64 \<Rightarrow> 'j \<Rightarrow> 'e + 'j"
    and put_pending :: "string \<Rightarrow> bytes \<Rightarrow> 'j \<Rightarrow> 'e + 'j"
    and clear_pending :: "string \<Rightarrow> 'j \<Rightarrow> 'e + 'j"
    and put_outcome :: "string \<Rightarrow> 'o \<Rightarrow> int64 \<Rightarrow> 'j \<Rightarrow> 'e + 'j"
    and encode :: "'o \<Rightarrow> bytes"
  assumes put_intent_law: "wf j \<Longrightarrow> put_intent mid rpc pl now j = Inr j' \<Longrightarrow>
      wf j' \<and> intent j' = (intent j)(mid := Some (case intent j mid of Some i \<Rightarrow> i | None \<Rightarrow> (rpc, pl))) \<and>
      pending j' = pending j \<and> outcome j' = outcome j"
    and put_pending_law: "wf j \<Longrightarrow> put_pending mid b j = Inr j' \<Longrightarrow>
      wf j' \<and> intent j' = intent j \<and> outcome j' = outcome j \<and>
      pending j' = (if intent j mid = None then pending j else (pending j)(mid := Some b))"
    and clear_pending_law: "wf j \<Longrightarrow> clear_pending mid j = Inr j' \<Longrightarrow>
      wf j' \<and> intent j' = intent j \<and> outcome j' = outcome j \<and>
      pending j' = (if intent j mid = None then pending j else (pending j)(mid := None))"
    and put_outcome_law: "wf j \<Longrightarrow> put_outcome mid oc now j = Inr j' \<Longrightarrow>
      wf j' \<and> intent j' = intent j \<and> pending j' = pending j \<and>
      intent j mid \<noteq> None \<and> outcome j mid = None \<and>
      outcome j' = (outcome j)(mid := Some (encode oc))"
begin

lemma put_intent_present: "wf j \<Longrightarrow> put_intent mid rpc pl now j = Inr j' \<Longrightarrow> intent j' mid \<noteq> None"
  by (drule (1) put_intent_law) (auto split: option.splits)

lemma put_pending_present:
  "wf j \<Longrightarrow> put_pending mid b j = Inr j' \<Longrightarrow> intent j mid \<noteq> None \<Longrightarrow> pending j' mid = Some b"
  by (drule (1) put_pending_law) auto

text \<open>A recorded outcome survives every later write.\<close>

lemma put_intent_keeps: "wf j \<Longrightarrow> put_intent mid rpc pl now j = Inr j' \<Longrightarrow> outcome j m = Some b \<Longrightarrow> outcome j' m = Some b"
  by (drule (1) put_intent_law) auto

lemma put_pending_keeps: "wf j \<Longrightarrow> put_pending mid b' j = Inr j' \<Longrightarrow> outcome j m = Some b \<Longrightarrow> outcome j' m = Some b"
  by (drule (1) put_pending_law) auto

lemma clear_pending_keeps: "wf j \<Longrightarrow> clear_pending mid j = Inr j' \<Longrightarrow> outcome j m = Some b \<Longrightarrow> outcome j' m = Some b"
  by (drule (1) clear_pending_law) auto

lemma put_outcome_keeps: "wf j \<Longrightarrow> put_outcome mid oc now j = Inr j' \<Longrightarrow> outcome j m = Some b \<Longrightarrow> outcome j' m = Some b"
  by (drule (1) put_outcome_law) auto

end

interpretation jr: intent_journal journal_ok intent_of pending_of outcome_of
  "RecordIntent sq sha256" "RecordPending sq" "ClearPending sq" "RecordOutcome sq pb" "SerializeOutcome pb"
  for sq sha256 pb
proof (unfold_locales, goal_cases)
  case (1 j mid rpc pl now j')
  show ?case
  proof (cases "mid \<in> mutation_id ` set (intents j)")
    case True
    with 1(2) have j': "j' = j" by (simp add: RecordIntent_def)
    from True obtain r where "intent_row_of j mid = Some r" by (metis intent_row_of_None not_None_eq)
    with 1(1) show ?thesis by (auto simp: j' intent_of_def fun_eq_iff)
  next
    case False
    let ?r = "\<lparr>mutation_id = mid, rpc_name = rpc, payload = pl, payload_sha256 = sha256 pl,
               journaled_at_utc = now, pending_response = None\<rparr>"
    from 1(2) False have j': "j' = j\<lparr>intents := intents j @ [?r]\<rparr>" by (simp add: RecordIntent_def)
    from False have new: "intent_row_of j mid = None" by (simp add: intent_row_of_None)
    with 1(1) False show ?thesis
      by (auto simp: j' intent_of_def pending_of_def outcome_of_def fun_eq_iff intent_row_of_append
          journal_ok_def split: option.splits)
  qed
next
  case (2 j mid b j')
  then show ?case by (auto simp: RecordPending_def)
next
  case (3 j mid j')
  then show ?case by (auto simp: ClearPending_def)
next
  case (4 j mid oc now j')
  then have fresh: "mid \<notin> applied_id ` set (applied j)" "mid \<in> mutation_id ` set (intents j)"
    and j': "j' = j\<lparr>applied := applied j @
       [\<lparr>applied_id = mid, outcome_blob = SerializeOutcome pb oc, applied_at_utc = now\<rparr>]\<rparr>"
    by (auto simp: RecordOutcome_def split: if_splits)
  have "outcome_of j mid = None" using fresh(1) by (simp add: outcome_of_None)
  moreover have "intent_of j mid \<noteq> None" using fresh(2) by (simp add: intent_of_def intent_row_of_None)
  ultimately show ?case using 4(1) fresh
    by (auto simp: j' journal_ok_def intent_of_def pending_of_def outcome_of_def intent_row_of_def
        find_append fun_eq_iff split: option.splits)
qed

section \<open>When the statements succeed\<close>

lemma RecordIntent_succeeds:
  "stmt_fault sq Stmt_RecordIntent mid = None \<Longrightarrow> \<exists>j'. RecordIntent sq sha256 mid rpc pl now j = Inr j'"
  by (auto simp: RecordIntent_def)

lemma RecordPending_succeeds:
  "stmt_fault sq Stmt_RecordPending mid = None \<Longrightarrow> \<exists>j'. RecordPending sq mid b j = Inr j'"
  by (auto simp: RecordPending_def)

lemma RecordOutcome_succeeds:
  "stmt_fault sq Stmt_RecordOutcome mid = None \<Longrightarrow> intent_of j mid \<noteq> None \<Longrightarrow> outcome_of j mid = None \<Longrightarrow>
     \<exists>j'. RecordOutcome sq pb mid oc now j = Inr j'"
  by (auto simp: RecordOutcome_def outcome_of_None intent_of_def dest: intent_row_of_Some)

lemma RecordOutcome_fault:
  "stmt_fault sq Stmt_RecordOutcome mid = Some (m, ctx) \<Longrightarrow>
     RecordOutcome sq pb mid oc now j = Inl (ThrowSqlite m ctx)"
  by (simp add: RecordOutcome_def with_stmt_def)

lemma RecordPending_fault:
  "stmt_fault sq Stmt_RecordPending mid = Some (m, ctx) \<Longrightarrow>
     RecordPending sq mid b j = Inl (ThrowSqlite m ctx)"
  by (simp add: RecordPending_def with_stmt_def)

lemma RecordIntent_again:
  "stmt_fault sq Stmt_RecordIntent mid = None \<Longrightarrow> intent_of j mid \<noteq> None \<Longrightarrow>
     RecordIntent sq sha256 mid rpc pl now j = Inr j"
  by (auto simp: RecordIntent_def intent_of_def dest: intent_row_of_Some)

lemma GetOutcome_eq:
  "stmt_fault sq Stmt_GetOutcome mid = None \<Longrightarrow>
     GetOutcome sq pb mid j =
       (case outcome_of j mid of
          None \<Rightarrow> Inr None
        | Some b \<Rightarrow> (case ParseOutcome pb b of
             Some oc \<Rightarrow> Inr (Some oc)
           | None \<Rightarrow> Inl (ExShim (shim_error ERROR_CODE_ENGINE_ERROR ''journal: corrupt outcome record'' mid))))"
  by (simp add: GetOutcome_def with_stmt_def outcome_of_def split: option.splits)

lemma outcome_has_intent: "journal_ok j \<Longrightarrow> outcome_of j mid = Some b \<Longrightarrow> intent_of j mid \<noteq> None"
  using outcome_of_None [of j mid] by (auto simp: journal_ok_def intent_of_def intent_row_of_None)

lemma empty_journal_views [simp]:
  "journal_ok empty_journal" "intent_of empty_journal mid = None"
  "pending_of empty_journal mid = None" "outcome_of empty_journal mid = None"
  by (simp_all add: empty_journal_def journal_ok_def intent_of_def intent_row_of_def pending_of_def outcome_of_def)

lemma c_str_ids:
  assumes "\<forall>mid. intent_of j mid \<noteq> None \<longrightarrow> CHR 0x00 \<notin> set mid" and "r \<in> set (intents j)"
  shows "c_str (mutation_id r) = mutation_id r"
proof -
  from assms(2) have "intent_of j (mutation_id r) \<noteq> None"
    by (auto simp: intent_of_def intent_row_of_None)
  with assms(1) show ?thesis by (simp add: c_str_id)
qed

lemma unresolved_ids:
  "mutation_id ` set (unresolved j) = {mid. intent_of j mid \<noteq> None \<and> outcome_of j mid = None}"
  by (auto simp: unresolved_def intent_of_def intent_row_of_None outcome_of_None)

lemma order_by_facts:
  assumes "sql_order_by order_by"
  shows "set (order_by rs) = set rs" "distinct (map f rs) \<Longrightarrow> distinct (map f (order_by rs))"
    "sorted (map journaled_at_utc (order_by rs))"
proof -
  from assms have m: "mset (order_by rs) = mset rs" by (simp add: sql_order_by_def)
  then show "set (order_by rs) = set rs" by (rule mset_eq_setD)
  from m have "mset (map f (order_by rs)) = mset (map f rs)" by simp
  then show "distinct (map f rs) \<Longrightarrow> distinct (map f (order_by rs))" by (metis mset_eq_imp_distinct_iff)
  from assms show "sorted (map journaled_at_utc (order_by rs))" by (simp add: sql_order_by_def)
qed

lemma ListIndeterminate_lists:
  assumes "journal_ok j" and "no_faults sq" and ord: "sql_order_by order_by"
    and nul: "\<forall>mid. intent_of j mid \<noteq> None \<longrightarrow> CHR 0x00 \<notin> set mid"
  shows "\<exists>es. ListIndeterminate sq order_by j = Inr es \<and> distinct (map ie_mutation_id es) \<and>
     ie_mutation_id ` set es = {mid. intent_of j mid \<noteq> None \<and> outcome_of j mid = None} \<and>
     sorted (map ie_journaled_at_utc es)"
proof -
  let ?rs = "order_by (unresolved j)"
  have sub: "set ?rs \<subseteq> set (intents j)"
    using order_by_facts(1) [OF ord] by (auto simp: unresolved_def)
  have ids: "map (\<lambda>r. c_str (mutation_id r)) ?rs = map mutation_id ?rs"
    by (rule map_cong [OF refl]) (use c_str_ids [OF nul] sub in auto)
  have "distinct (map mutation_id (unresolved j))"
    using assms(1) by (simp add: unresolved_def journal_ok_def map_filter_distinct)
  then have "distinct (map (\<lambda>r. c_str (mutation_id r)) ?rs)"
    unfolding ids by (rule order_by_facts(2) [OF ord])
  moreover have "(\<lambda>r. c_str (mutation_id r)) ` set ?rs = {mid. intent_of j mid \<noteq> None \<and> outcome_of j mid = None}"
    using arg_cong [OF ids, of set] order_by_facts(1) [OF ord] unresolved_ids by simp
  ultimately show ?thesis
    using assms(2) order_by_facts(3) [OF ord, of "unresolved j"]
    by (simp add: ListIndeterminate_def o_def image_image)
qed

section \<open>Properties\<close>

text \<open>
  An outcome is written once: the outcome of a journaled, unresolved id is recorded, reads
  back equal, and from then on every attempt to record another outcome for that id fails
  and leaves the first one readable; for an id that was never journaled it fails at once.
\<close>
theorem RecordOutcome_write_once:
  assumes "journal_ok j" and "no_faults sq" and "outcome_pb_roundtrip pb"
  shows "if intent_of j mid \<noteq> None \<and> outcome_of j mid = None
     then \<exists>j'. RecordOutcome sq pb mid oc now j = Inr j' \<and> journal_ok j' \<and>
            GetOutcome sq pb mid j' = Inr (Some oc) \<and>
            RecordOutcome sq pb mid oc' now' j' = Inl (ThrowSqlite (unique_errmsg sq) ''step'')
     else RecordOutcome sq pb mid oc now j =
            Inl (ThrowSqlite (if outcome_of j mid \<noteq> None then unique_errmsg sq else foreign_key_errmsg sq) ''step'')"
proof (cases "intent_of j mid \<noteq> None \<and> outcome_of j mid = None")
  case True
  have nf: "stmt_fault sq st m = None" for st m using assms(2) by (simp add: no_faults_def)
  from True obtain j' where j': "RecordOutcome sq pb mid oc now j = Inr j'"
    using RecordOutcome_succeeds [OF nf] by blast
  note law = jr.put_outcome_law [OF assms(1) j']
  then have "outcome_of j' mid \<noteq> None" by simp
  then have "RecordOutcome sq pb mid oc' now' j' = Inl (ThrowSqlite (unique_errmsg sq) ''step'')"
    using assms(2) outcome_of_None [of j' mid] by (simp add: RecordOutcome_def)
  with True law j' assms(3) show ?thesis
    by (simp add: GetOutcome_eq nf outcome_pb_roundtrip_def)
next
  case False
  with assms(1,2) outcome_of_None [of j mid] show ?thesis
    by (auto simp: RecordOutcome_def intent_of_def intent_row_of_None)
qed

text \<open>
  The crash-recovery handshake lists exactly the indeterminate mutations: on a well-formed
  journal whose ids contain no NUL byte, \<^verbatim>\<open>ListIndeterminate\<close> returns every journaled id that
  has no outcome, each once and no other, in the order of their journal times.
\<close>
theorem ListIndeterminate_exact:
  assumes "journal_ok j" and "no_faults sq" and ord: "sql_order_by order_by"
    and nul: "\<forall>mid. intent_of j mid \<noteq> None \<longrightarrow> CHR 0x00 \<notin> set mid"
  shows "\<exists>es. ListIndeterminate sq order_by j = Inr es \<and> distinct (map ie_mutation_id es) \<and>
     ie_mutation_id ` set es = {mid. intent_of j mid \<noteq> None \<and> outcome_of j mid = None} \<and>
     sorted (map ie_journaled_at_utc es)"
  by (rule ListIndeterminate_lists [OF assms])

end
