(* ===== verification/Reference_Wire.thy ===== *)
theory Reference_Wire
  imports Journal
begin

text \<open>
  A concrete wire format. The model takes protobuf's encoders as parameters with the
  hypothesis that parsing undoes serializing; the functions here are an instance, on which
  the witnesses apply the theorems that have such a hypothesis. A string is written as
  marked characters up to an end mark, a number in unary, and a message as its fields in
  order; \<open>get_x\<close> reads one item and returns the rest.
\<close>

section \<open>Items\<close>

type_synonym 'a reader = "bytes \<Rightarrow> ('a \<times> bytes) option"

fun put_string :: "string \<Rightarrow> bytes" where
  "put_string [] = ''.''"
| "put_string (c # cs) = CHR ''c'' # c # put_string cs"

fun get_string :: "string reader" where
  "get_string (m # rest) =
     (if m = CHR ''.'' then Some ([], rest)
      else case rest of
             [] \<Rightarrow> None
           | c # rest' \<Rightarrow>
               (case get_string rest' of Some (s, r) \<Rightarrow> Some (c # s, r) | None \<Rightarrow> None))"
| "get_string [] = None"

fun put_nat :: "nat \<Rightarrow> bytes" where
  "put_nat 0 = ''.''"
| "put_nat (Suc n) = CHR ''1'' # put_nat n"

fun get_nat :: "nat reader" where
  "get_nat [] = None"
| "get_nat (c # cs) =
     (if c = CHR ''.'' then Some (0, cs)
      else case get_nat cs of Some (n, r) \<Rightarrow> Some (Suc n, r) | None \<Rightarrow> None)"

definition put_int :: "int \<Rightarrow> bytes" where
  "put_int i = (if i < 0 then CHR ''-'' # put_nat (nat (- i)) else CHR ''+'' # put_nat (nat i))"

fun get_int :: "int reader" where
  "get_int [] = None"
| "get_int (c # cs) =
     (case get_nat cs of
        Some (n, r) \<Rightarrow> Some (if c = CHR ''-'' then - int n else int n, r)
      | None \<Rightarrow> None)"

definition put_bool :: "bool \<Rightarrow> bytes" where
  "put_bool b = (if b then ''t'' else ''f'')"

fun get_bool :: "bool reader" where
  "get_bool [] = None"
| "get_bool (c # cs) = Some (c = CHR ''t'', cs)"

fun put_option :: "('a \<Rightarrow> bytes) \<Rightarrow> 'a option \<Rightarrow> bytes" where
  "put_option p None = ''n''"
| "put_option p (Some a) = CHR ''s'' # p a"

fun get_option :: "'a reader \<Rightarrow> 'a option reader" where
  "get_option g [] = None"
| "get_option g (c # cs) =
     (if c = CHR ''n'' then Some (None, cs)
      else case g cs of Some (a, r) \<Rightarrow> Some (Some a, r) | None \<Rightarrow> None)"

lemma get_put_string [simp]: "get_string (put_string s @ rest) = Some (s, rest)"
  by (induction s) simp_all

lemma get_put_nat [simp]: "get_nat (put_nat n @ rest) = Some (n, rest)"
  by (induction n) simp_all

lemma get_put_int [simp]: "get_int (put_int i @ rest) = Some (i, rest)"
  by (simp add: put_int_def)

lemma get_put_bool [simp]: "get_bool (put_bool b @ rest) = Some (b, rest)"
  by (simp add: put_bool_def)

lemma get_put_option [simp]:
  "(\<And>a rest. g (p a @ rest) = Some (a, rest)) \<Longrightarrow> get_option g (put_option p x @ rest) = Some (x, rest)"
  by (cases x) simp_all

section \<open>ErrorDetail and Outcome\<close>

definition named_codes :: "ErrorCode list" where
  "named_codes =
     [ERROR_CODE_UNSPECIFIED, ERROR_CODE_UNBALANCED_TRANSACTION, ERROR_CODE_ACCOUNT_NOT_FOUND,
      ERROR_CODE_TXN_NOT_FOUND, ERROR_CODE_COMMODITY_NOT_FOUND, ERROR_CODE_CURRENCY_MISMATCH,
      ERROR_CODE_ACCOUNT_NOT_EMPTY, ERROR_CODE_READ_ONLY_BOOK, ERROR_CODE_BOOK_LOCKED,
      ERROR_CODE_BOOK_NOT_OPEN, ERROR_CODE_INVALID_ARGUMENT, ERROR_CODE_INDETERMINATE_MUTATION,
      ERROR_CODE_ENGINE_ERROR]"

fun code_index :: "ErrorCode \<Rightarrow> nat" where
  "code_index ERROR_CODE_UNSPECIFIED = 0"
| "code_index ERROR_CODE_UNBALANCED_TRANSACTION = 1"
| "code_index ERROR_CODE_ACCOUNT_NOT_FOUND = 2"
| "code_index ERROR_CODE_TXN_NOT_FOUND = 3"
| "code_index ERROR_CODE_COMMODITY_NOT_FOUND = 4"
| "code_index ERROR_CODE_CURRENCY_MISMATCH = 5"
| "code_index ERROR_CODE_ACCOUNT_NOT_EMPTY = 6"
| "code_index ERROR_CODE_READ_ONLY_BOOK = 7"
| "code_index ERROR_CODE_BOOK_LOCKED = 8"
| "code_index ERROR_CODE_BOOK_NOT_OPEN = 9"
| "code_index ERROR_CODE_INVALID_ARGUMENT = 10"
| "code_index ERROR_CODE_INDETERMINATE_MUTATION = 11"
| "code_index ERROR_CODE_ENGINE_ERROR = 12"
| "code_index (ErrorCode_other _) = 13"

definition put_code :: "ErrorCode \<Rightarrow> bytes" where
  "put_code c = put_nat (code_index c) @ put_int (case c of ErrorCode_other i \<Rightarrow> i | _ \<Rightarrow> 0)"

definition get_code :: "ErrorCode reader" where
  "get_code bs =
     (case get_nat bs of
        None \<Rightarrow> None
      | Some (n, r) \<Rightarrow>
          (case get_int r of
             None \<Rightarrow> None
           | Some (i, r') \<Rightarrow> Some (if n < 13 then named_codes ! n else ErrorCode_other i, r')))"

definition put_detail :: "ErrorDetail \<Rightarrow> bytes" where
  "put_detail d = put_code (detail_code d) @ put_string (detail_engine_message d) @ put_string (detail_context d)"

definition get_detail :: "ErrorDetail reader" where
  "get_detail bs =
     (case get_code bs of None \<Rightarrow> None | Some (c, r1) \<Rightarrow>
     (case get_string r1 of None \<Rightarrow> None | Some (m, r2) \<Rightarrow>
     (case get_string r2 of None \<Rightarrow> None | Some (x, r3) \<Rightarrow>
        Some (\<lparr>detail_code = c, detail_engine_message = m, detail_context = x\<rparr>, r3))))"

definition put_outcome_msg :: "Outcome \<Rightarrow> bytes" where
  "put_outcome_msg oc =
     put_string (oc_rpc_name oc) @ put_bool (oc_ok oc) @ put_string (oc_response oc) @
     put_option put_detail (oc_error oc)"

definition get_outcome_msg :: "Outcome reader" where
  "get_outcome_msg bs =
     (case get_string bs of None \<Rightarrow> None | Some (n, r1) \<Rightarrow>
     (case get_bool r1 of None \<Rightarrow> None | Some (k, r2) \<Rightarrow>
     (case get_string r2 of None \<Rightarrow> None | Some (p, r3) \<Rightarrow>
     (case get_option get_detail r3 of None \<Rightarrow> None | Some (e, r4) \<Rightarrow>
        Some (\<lparr>oc_rpc_name = n, oc_ok = k, oc_response = p, oc_error = e\<rparr>, r4)))))"

definition ref_outcome_pb :: outcome_pb where
  "ref_outcome_pb =
     \<lparr>SerializeOutcome = put_outcome_msg, ParseOutcome = (\<lambda>bs. map_option fst (get_outcome_msg bs))\<rparr>"

definition ref_status_pb :: status_pb where
  "ref_status_pb =
     \<lparr>PackFrom = (\<lambda>d. Some (put_detail d)),
      SerializeStatus = (\<lambda>s. put_int (rpc_code s) @ put_string (rpc_message s) @
        concat (map put_string (rpc_details s)))\<rparr>"

definition ref_sqlite :: sqlite_env where
  "ref_sqlite =
     \<lparr>stmt_fault = (\<lambda>_ _. None), unique_errmsg = ''UNIQUE constraint failed: applied.mutation_id'',
      foreign_key_errmsg = ''FOREIGN KEY constraint failed''\<rparr>"

lemma get_put_code [simp]: "get_code (put_code c @ rest) = Some (c, rest)"
  by (cases c) (simp_all add: get_code_def put_code_def named_codes_def)

lemma get_put_detail [simp]: "get_detail (put_detail d @ rest) = Some (d, rest)"
  by (simp add: get_detail_def put_detail_def)

lemma get_put_outcome_msg [simp]: "get_outcome_msg (put_outcome_msg oc @ rest) = Some (oc, rest)"
  by (simp add: get_outcome_msg_def put_outcome_msg_def)

lemma ref_outcome_pb_roundtrip [simp]: "outcome_pb_roundtrip ref_outcome_pb"
  using get_put_outcome_msg [where rest = "[]"]
  by (simp add: outcome_pb_roundtrip_def ref_outcome_pb_def del: get_put_outcome_msg)

lemma ref_sqlite_no_faults [simp]: "no_faults ref_sqlite"
  by (simp add: no_faults_def ref_sqlite_def)

section \<open>The journal's properties at a concrete journal\<close>

definition one_intent :: Journal where
  "one_intent = \<lparr>intents = [\<lparr>mutation_id = ''m1'', rpc_name = ''S/M'', payload = ''p'', payload_sha256 = ''h'',
     journaled_at_utc = 7, pending_response = None\<rparr>], applied = []\<rparr>"

definition one_outcome :: Outcome where
  "one_outcome = \<lparr>oc_rpc_name = ''S/M'', oc_ok = True, oc_response = ''r'', oc_error = None\<rparr>"

lemma one_intent_views [simp]:
  "journal_ok one_intent" "outcome_of one_intent mid = None"
  "intent_of one_intent mid = (if mid = ''m1'' then Some (''S/M'', ''p'') else None)"
  by (simp_all add: one_intent_def journal_ok_def outcome_of_def intent_of_def intent_row_of_def)

theorem RecordOutcome_write_once_witness:
  "\<exists>j'. RecordOutcome ref_sqlite ref_outcome_pb ''m1'' one_outcome 8 one_intent = Inr j' \<and>
     GetOutcome ref_sqlite ref_outcome_pb ''m1'' j' = Inr (Some one_outcome)"
  using RecordOutcome_write_once [of one_intent ref_sqlite ref_outcome_pb "''m1''" one_outcome 8] by auto

theorem ListIndeterminate_exact_witness:
  "\<exists>es. ListIndeterminate ref_sqlite (sort_key journaled_at_utc) one_intent = Inr es \<and>
     ie_mutation_id ` set es = {''m1''}"
proof -
  have "sql_order_by (sort_key journaled_at_utc)" by (simp add: sql_order_by_def)
  moreover have "\<forall>mid. intent_of one_intent mid \<noteq> None \<longrightarrow> CHR 0x00 \<notin> set mid" by simp
  moreover have "{mid. intent_of one_intent mid \<noteq> None \<and> outcome_of one_intent mid = None} = {''m1''}" by auto
  ultimately show ?thesis
    using ListIndeterminate_exact [of one_intent ref_sqlite "sort_key journaled_at_utc"] by auto
qed

end
