(* ===== verification/Mutation.thy ===== *)
theory Mutation
  imports Reference_Wire Worker
begin

text \<open>
  \<^verbatim>\<open>src/rpc/mutation.{h,cpp}\<close>, \<^verbatim>\<open>src/rpc/rpc_util.h\<close> and \<^verbatim>\<open>src/util/crash_point.h\<close>: the
  mutation protocol. \<open>RunMutation_body\<close> is the lambda that runs on the engine thread, a
  function on the journal and on whatever state \<open>'x\<close> the handler's \<open>apply\<close> works on;
  \<open>RunMutation\<close> is the whole template, with the worker's verdict on admission. A crash
  (\<^verbatim>\<open>CrashPointMaybe\<close>, the value \<open>Abort\<close>) leaves the state as it was written so far.
\<close>

section \<open>Mutation ids\<close>

definition isxdigit :: "char \<Rightarrow> bool" where
  "isxdigit c \<longleftrightarrow>
     (let n = of_char c :: nat in (48 \<le> n \<and> n \<le> 57) \<or> (65 \<le> n \<and> n \<le> 70) \<or> (97 \<le> n \<and> n \<le> 102))"

definition kPattern :: string where
  "kPattern = ''xxxxxxxx-xxxx-xxxx-xxxx-xxxxxxxxxxxx''"

definition ValidateMutationId :: "string \<Rightarrow> exn + unit" where
  "ValidateMutationId mid =
     require (length mid = length kPattern \<and>
              list_all (\<lambda>(p, c). if p = CHR ''-'' then c = CHR ''-'' else isxdigit c) (zip kPattern mid))
       (ExShim (shim_error ERROR_CODE_INVALID_ARGUMENT ''mutation_id must be a UUID'' mid))"

section \<open>The protocol\<close>

record mutation_env =
  env_sqlite :: sqlite_env
  env_sha256 :: "bytes \<Rightarrow> bytes"
  env_outcome_pb :: outcome_pb
  env_status_pb :: status_pb
  env_crash_at :: "string option"  \<comment> \<open>\<^verbatim>\<open>DAICHOD_CRASH_AT\<close>\<close>
  env_now :: int64

record 'r message_pb =
  SerializeAsString :: "'r \<Rightarrow> bytes"
  ParseFromString :: "bytes \<Rightarrow> 'r option"

definition message_pb_roundtrip :: "'r message_pb \<Rightarrow> bool" where
  "message_pb_roundtrip rpb \<longleftrightarrow> (\<forall>r. ParseFromString rpb (SerializeAsString rpb r) = Some r)"

definition CrashPointMaybe :: "mutation_env \<Rightarrow> string \<Rightarrow> bool" where
  "CrashPointMaybe env name \<longleftrightarrow> env_crash_at env = Some name"

type_synonym 'r PendingRecorder = "'r \<Rightarrow> Journal \<Rightarrow> (exn, unit) flow \<times> Journal"

type_synonym ('r, 'x) ApplyFn = "'r PendingRecorder \<Rightarrow> Journal \<times> 'x \<Rightarrow> (exn, 'r) flow \<times> (Journal \<times> 'x)"

definition record_pending :: "mutation_env \<Rightarrow> 'r message_pb \<Rightarrow> string \<Rightarrow> 'r PendingRecorder" where
  "record_pending env rpb mid r j =
     (case RecordPending (env_sqlite env) mid (SerializeAsString rpb r) j of
        Inl e \<Rightarrow> (Throw e, j)
      | Inr j' \<Rightarrow> (if CrashPointMaybe env ''after_pending'' then Abort else Ret (), j'))"

definition replay :: "'r message_pb \<Rightarrow> string \<Rightarrow> string \<Rightarrow> Outcome \<Rightarrow> exn + 'r" where
  "replay rpb mid rpc recorded =
     (if \<not> oc_ok recorded then Inl (ExShim (ShimError_of_detail (oc_error_get recorded)))
      else case ParseFromString rpb (oc_response recorded) of
             Some r \<Rightarrow> Inr r
           | None \<Rightarrow> Inl (ExShim (shim_error ERROR_CODE_ENGINE_ERROR
               (''journal: recorded outcome does not parse as '' @ rpc @ '' response'') mid)))"

definition ok_outcome :: "string \<Rightarrow> bytes \<Rightarrow> Outcome" where
  "ok_outcome rpc bs = \<lparr>oc_rpc_name = rpc, oc_ok = True, oc_response = bs, oc_error = None\<rparr>"

definition error_outcome :: "string \<Rightarrow> ShimError \<Rightarrow> Outcome" where
  "error_outcome rpc e =
     \<lparr>oc_rpc_name = rpc, oc_ok = False, oc_response = [], oc_error = Some (ToDetail e)\<rparr>"

text \<open>The \<^verbatim>\<open>try\<close> around \<^verbatim>\<open>apply\<close>, its handler, and step 4.\<close>

definition conclude ::
  "mutation_env \<Rightarrow> 'r message_pb \<Rightarrow> string \<Rightarrow> string \<Rightarrow>
     (exn, 'r) flow \<times> (Journal \<times> 'x) \<Rightarrow> (exn, 'r) flow \<times> (Journal \<times> 'x)" where
  "conclude env rpb mid rpc applied_end =
     (case applied_end of
        (Abort, s) \<Rightarrow> (Abort, s)
      | (Throw e, (j, x)) \<Rightarrow>
          (case e of
             ExShim se \<Rightarrow>
               if IsDeterministicVerdict (err_code se)
               then (case RecordOutcome (env_sqlite env) (env_outcome_pb env) mid (error_outcome rpc se)
                            (env_now env) j of
                       Inl e' \<Rightarrow> (Throw e', (j, x))
                     | Inr j' \<Rightarrow> (Throw e, (j', x)))
               else (Throw e, (j, x))
           | _ \<Rightarrow> (Throw e, (j, x)))
      | (Ret r, (j, x)) \<Rightarrow>
          if CrashPointMaybe env ''after_apply'' then (Abort, (j, x))
          else (case RecordOutcome (env_sqlite env) (env_outcome_pb env) mid
                       (ok_outcome rpc (SerializeAsString rpb r)) (env_now env) j of
                  Inl e' \<Rightarrow> (Throw e', (j, x))
                | Inr j' \<Rightarrow> (if CrashPointMaybe env ''after_outcome'' then Abort else Ret r, (j', x))))"

definition RunMutation_body ::
  "mutation_env \<Rightarrow> 'r message_pb \<Rightarrow> string \<Rightarrow> bytes \<Rightarrow> string \<Rightarrow> ('r, 'x) ApplyFn \<Rightarrow>
     Journal \<times> 'x \<Rightarrow> (exn, 'r) flow \<times> (Journal \<times> 'x)" where
  "RunMutation_body env rpb mid request rpc apply_fn s =
     (case s of (j, x) \<Rightarrow>
       or_throw (ValidateMutationId mid) s (\<lambda>_.
       or_throw (RecordIntent (env_sqlite env) (env_sha256 env) mid rpc request (env_now env) j) s (\<lambda>j1.
         if CrashPointMaybe env ''after_intent'' then (Abort, (j1, x))
         else or_throw (GetOutcome (env_sqlite env) (env_outcome_pb env) mid j1) (j1, x) (\<lambda>recorded.
           case recorded of
             Some oc \<Rightarrow> or_throw (replay rpb mid rpc oc) (j1, x) (\<lambda>r. (Ret r, (j1, x)))
           | None \<Rightarrow> conclude env rpb mid rpc (apply_fn (record_pending env rpb mid) (j1, x))))))"

text \<open>
  The template, and \<^verbatim>\<open>RunRpc\<close> for the calls that are no mutations. \<open>admission\<close> is what the
  worker's \<open>Enqueue\<close> said; an admitted body runs on the engine thread. \<open>Abort\<close>: no
  response is ever sent.
\<close>

definition RunRpc ::
  "status_pb \<Rightarrow> exn option \<Rightarrow> ('s \<Rightarrow> (exn, 'r) flow \<times> 's) \<Rightarrow> 's \<Rightarrow> (exn, Status \<times> 'r option) flow \<times> 's" where
  "RunRpc pb admission fn s =
     (case admission of
        Some e \<Rightarrow> (Ret (StatusFromException pb e, None), s)
      | None \<Rightarrow>
          (case fn s of
             (Ret r, s') \<Rightarrow> (Ret (Status_OK, Some r), s')
           | (Throw e, s') \<Rightarrow> (Ret (StatusFromException pb e, None), s')
           | (Abort, s') \<Rightarrow> (Abort, s')))"

definition RunMutation ::
  "mutation_env \<Rightarrow> exn option \<Rightarrow> 'r message_pb \<Rightarrow> string \<Rightarrow> bytes \<Rightarrow> string \<Rightarrow> ('r, 'x) ApplyFn \<Rightarrow>
     Journal \<times> 'x \<Rightarrow> (exn, Status \<times> 'r option) flow \<times> (Journal \<times> 'x)" where
  "RunMutation env admission rpb mid request rpc apply_fn s =
     RunRpc (env_status_pb env) admission (RunMutation_body env rpb mid request rpc apply_fn) s"

section \<open>The contract of the apply functions\<close>

text \<open>
  What every handler promises to the protocol: it decides everything from the state first
  (\<open>plan\<close>, which may throw, or never end), then edits (giving the state \<open>x1\<close>), records the
  complete response as pending exactly once, and then commits (\<open>x2\<close>), after which it cannot
  fail. So a handler's own refusal leaves the state untouched.
\<close>

definition commit_after :: "'r PendingRecorder \<Rightarrow> 'r \<Rightarrow> Journal \<times> 'x \<Rightarrow> 'x \<Rightarrow> (exn, 'r) flow \<times> (Journal \<times> 'x)" where
  "commit_after rp r s x2 =
     (case s of (j, x1) \<Rightarrow>
        (case rp r j of
           (Ret _, j') \<Rightarrow> (Ret r, (j', x2))
         | (Throw e, j') \<Rightarrow> (Throw e, (j', x1))
         | (Abort, j') \<Rightarrow> (Abort, (j', x1))))"

definition follow_plan :: "('x \<Rightarrow> (exn, 'r \<times> 'x \<times> 'x) flow) \<Rightarrow> ('r, 'x) ApplyFn" where
  "follow_plan plan rp s =
     (case s of (j, x) \<Rightarrow>
       (case plan x of
          Ret (r, x1, x2) \<Rightarrow> commit_after rp r (j, x1) x2
        | Throw e \<Rightarrow> (Throw e, (j, x))
        | Abort \<Rightarrow> (Abort, (j, x))))"

locale planned_apply =
  fixes apply_fn :: "('r, 'x) ApplyFn"
    and plan :: "'x \<Rightarrow> (exn, 'r \<times> 'x \<times> 'x) flow"
  assumes apply_plan: "apply_fn rp s = follow_plan plan rp s"
    and plan_throws_shim: "plan x = Throw e \<Longrightarrow> \<exists>se. e = ExShim se"

text \<open>
  The shape all the handlers have in the sources: checks that touch nothing, then an edit,
  given here as the response and the states before and after the commit.
\<close>

definition checked_edit ::
  "('x \<Rightarrow> (exn, 'c) flow) \<Rightarrow> ('c \<Rightarrow> 'x \<Rightarrow> 'r \<times> 'x \<times> 'x) \<Rightarrow> ('r, 'x) ApplyFn" where
  "checked_edit checks edit rp s =
     or_stop (checks (snd s)) s (\<lambda>c.
       case edit c (snd s) of (r, x1, x2) \<Rightarrow> commit_after rp r (fst s, x1) x2)"

definition edit_plan ::
  "('x \<Rightarrow> (exn, 'c) flow) \<Rightarrow> ('c \<Rightarrow> 'x \<Rightarrow> 'r \<times> 'x \<times> 'x) \<Rightarrow> 'x \<Rightarrow> (exn, 'r \<times> 'x \<times> 'x) flow" where
  "edit_plan checks edit x = flow_map (\<lambda>c. edit c x) (checks x)"

lemma checked_edit_planned:
  assumes "\<And>x e. checks x = Throw e \<Longrightarrow> \<exists>se. e = ExShim se"
  shows "planned_apply (checked_edit checks edit) (edit_plan checks edit)"
proof (unfold_locales, goal_cases)
  case (1 rp s)
  show ?case
    by (cases s; cases "checks (snd s)") (auto simp: checked_edit_def follow_plan_def edit_plan_def)
next
  case (2 x e)
  with assms show ?case by (auto simp: edit_plan_def)
qed

section \<open>Journal writes\<close>

text \<open>
  Every way the daemon ever writes the journal, as a step relation: an intent is journaled
  under a valid id only, and an outcome is recorded only when it is a success or a
  deterministic verdict.
\<close>

definition recordable :: "Outcome \<Rightarrow> bool" where
  "recordable oc \<longleftrightarrow>
     oc_ok oc \<or> (\<exists>d. oc_error oc = Some d \<and> IsDeterministicVerdict (detail_code d))"

inductive journal_write :: "outcome_pb \<Rightarrow> Journal \<Rightarrow> Journal \<Rightarrow> bool" for pb where
  w_intent: "ValidateMutationId mid = Inr u \<Longrightarrow> RecordIntent sq sha256 mid rpc pl now j = Inr j' \<Longrightarrow>
     journal_write pb j j'"
| w_pending: "RecordPending sq mid b j = Inr j' \<Longrightarrow> journal_write pb j j'"
| w_clear: "ClearPending sq mid j = Inr j' \<Longrightarrow> journal_write pb j j'"
| w_outcome: "recordable oc \<Longrightarrow> RecordOutcome sq pb mid oc now j = Inr j' \<Longrightarrow> journal_write pb j j'"

definition journal_inv :: "outcome_pb \<Rightarrow> Journal \<Rightarrow> bool" where
  "journal_inv pb j \<longleftrightarrow>
     journal_ok j \<and>
     (\<forall>mid. intent_of j mid \<noteq> None \<longrightarrow> ValidateMutationId mid = Inr ()) \<and>
     (\<forall>mid b. outcome_of j mid = Some b \<longrightarrow> (\<exists>oc. ParseOutcome pb b = Some oc \<and> recordable oc))"

lemma journal_write_inv:
  assumes "outcome_pb_roundtrip pb" and "journal_write pb j j'" and inv: "journal_inv pb j"
  shows "journal_inv pb j'"
  using assms(2)
proof (cases rule: journal_write.cases)
  case (w_intent mid u sq sha256 rpc pl now)
  with inv jr.put_intent_law [OF _ w_intent(2)] show ?thesis
    by (auto simp: journal_inv_def split: if_splits)
next
  case (w_pending sq mid b)
  with inv jr.put_pending_law [OF _ w_pending] show ?thesis by (auto simp: journal_inv_def)
next
  case (w_clear sq mid)
  with inv jr.clear_pending_law [OF _ w_clear] show ?thesis by (auto simp: journal_inv_def)
next
  case (w_outcome oc sq mid now)
  with inv assms(1) jr.put_outcome_law [OF _ w_outcome(2)] show ?thesis
    by (auto simp: journal_inv_def outcome_pb_roundtrip_def split: if_splits)
qed

lemma journal_write_keeps:
  assumes "journal_write pb j j'" and ok: "journal_ok j" and rec: "outcome_of j m = Some b"
  shows "journal_ok j' \<and> outcome_of j' m = Some b"
  using assms(1)
proof (cases rule: journal_write.cases)
  case (w_intent mid u sq sha256 rpc pl now)
  then show ?thesis using jr.put_intent_law [OF ok w_intent(2)] rec by simp
next
  case (w_pending sq mid b')
  then show ?thesis using jr.put_pending_law [OF ok w_pending] rec by simp
next
  case (w_clear sq mid)
  then show ?thesis using jr.clear_pending_law [OF ok w_clear] rec by simp
next
  case (w_outcome oc sq mid now)
  then show ?thesis using jr.put_outcome_law [OF ok w_outcome(2)] rec by auto
qed

lemma journal_write_ok: "journal_write pb j j' \<Longrightarrow> journal_ok j \<Longrightarrow> journal_ok j'"
  by (cases rule: journal_write.cases)
     (auto dest: jr.put_intent_law jr.put_pending_law jr.clear_pending_law jr.put_outcome_law)

lemma journal_writes_inv:
  "(journal_write pb)\<^sup>*\<^sup>* j j' \<Longrightarrow> outcome_pb_roundtrip pb \<Longrightarrow> journal_inv pb j \<Longrightarrow> journal_inv pb j'"
  by (induction rule: rtranclp_induct) (auto intro: journal_write_inv)

lemma journal_writes_keep:
  "(journal_write pb)\<^sup>*\<^sup>* j j' \<Longrightarrow> journal_ok j \<Longrightarrow> outcome_of j m = Some b \<Longrightarrow>
     journal_ok j' \<and> outcome_of j' m = Some b"
  by (induction rule: rtranclp_induct) (auto dest: journal_write_keeps)

lemma record_pending_ends:
  assumes "record_pending env rpb mid r j = (fl, j')"
  shows "(\<exists>e. fl = Throw e \<and> j' = j) \<or>
         (fl = Ret () \<or> fl = Abort) \<and> RecordPending (env_sqlite env) mid (SerializeAsString rpb r) j = Inr j'"
  using assms by (auto simp: record_pending_def split: sum.splits if_splits)

lemma conclude_writes:
  assumes "conclude env rpb mid rpc (fl, (j, x)) = (fl', (j', x'))"
  shows "x' = x \<and> (j' = j \<or> journal_write (env_outcome_pb env) j j')"
  using assms
  by (auto simp: conclude_def error_outcome_def ok_outcome_def ToDetail_def recordable_def
      intro!: journal_write.w_outcome split: flow.splits exn.splits if_splits sum.splits)

context planned_apply
begin

lemma apply_writes:
  assumes "apply_fn (record_pending env rpb mid) (j, x) = (fl, (j', x'))"
  shows "j' = j \<or> journal_write pb j j'"
  using assms
  by (auto simp: apply_plan follow_plan_def commit_after_def or_throw_def intro: journal_write.w_pending
      split: sum.splits prod.splits flow.splits dest!: record_pending_ends)

text \<open>However a call ends, it has written the journal in the allowed ways only.\<close>

lemma body_writes:
  assumes "RunMutation_body env rpb mid request rpc apply_fn (j, x) = (fl, (j', x'))"
  shows "(journal_write (env_outcome_pb env))\<^sup>*\<^sup>* j j'"
proof (cases "ValidateMutationId mid")
  case (Inl e)
  with assms show ?thesis by (simp add: RunMutation_body_def)
next
  case valid: (Inr u)
  show ?thesis
  proof (cases "RecordIntent (env_sqlite env) (env_sha256 env) mid rpc request (env_now env) j")
    case (Inl e)
    with assms valid show ?thesis by (simp add: RunMutation_body_def)
  next
    case (Inr j1)
    have w1: "journal_write (env_outcome_pb env) j j1" using valid Inr by (rule journal_write.w_intent)
    have "j' = j1 \<or> (\<exists>fl1 j2 x2. apply_fn (record_pending env rpb mid) (j1, x) = (fl1, (j2, x2)) \<and>
             conclude env rpb mid rpc (fl1, (j2, x2)) = (fl, (j', x')))"
      using assms valid Inr
      by (auto simp: RunMutation_body_def or_throw_def split: if_splits sum.splits option.splits)
         (metis prod.collapse)
    then have "(journal_write (env_outcome_pb env))\<^sup>*\<^sup>* j1 j'"
      using apply_writes [where pb = "env_outcome_pb env"] conclude_writes
      by (metis converse_rtranclp_into_rtranclp r_into_rtranclp rtranclp.rtrancl_refl)
    with w1 show ?thesis by (rule converse_rtranclp_into_rtranclp)
  qed
qed

text \<open>
  A first execution: up to \<^verbatim>\<open>GetOutcome\<close> only the intent is written, then \<open>apply\<close> runs.
\<close>

lemma body_starts:
  assumes "ValidateMutationId mid = Inr u" and "journal_ok j" and "outcome_of j mid = None"
    and "stmt_fault (env_sqlite env) Stmt_RecordIntent mid = None"
    and "stmt_fault (env_sqlite env) Stmt_GetOutcome mid = None"
    and "env_crash_at env \<noteq> Some ''after_intent''"
  obtains j1 where "journal_ok j1" and "outcome_of j1 = outcome_of j" and "pending_of j1 = pending_of j"
    and "intent_of j1 = (intent_of j)(mid := Some (case intent_of j mid of Some i \<Rightarrow> i | None \<Rightarrow> (rpc, request)))"
    and "RunMutation_body env rpb mid request rpc apply_fn (j, x) =
           conclude env rpb mid rpc (follow_plan plan (record_pending env rpb mid) (j1, x))"
proof -
  from assms(4) obtain j1 where
    j1: "RecordIntent (env_sqlite env) (env_sha256 env) mid rpc request (env_now env) j = Inr j1"
    by (blast dest: RecordIntent_succeeds)
  note law = jr.put_intent_law [OF assms(2) j1]
  have "RunMutation_body env rpb mid request rpc apply_fn (j, x) =
          conclude env rpb mid rpc (follow_plan plan (record_pending env rpb mid) (j1, x))"
    using assms law by (simp add: RunMutation_body_def j1 CrashPointMaybe_def GetOutcome_eq apply_plan)
  with law show thesis by (intro that) auto
qed

text \<open>
  A whole first execution of a planned mutation on a healthy journal: the three journals it
  goes through, and where each crash point stops it.
\<close>

lemma body_chain:
  assumes "ValidateMutationId mid = Inr u" and ok: "journal_ok j" and new: "outcome_of j mid = None"
    and "no_faults (env_sqlite env)" and plan: "plan x = Ret (r, x1, x2)"
  obtains j1 j2 j3 where
    "journal_ok j1" and "outcome_of j1 = outcome_of j" and "pending_of j1 = pending_of j"
    and "intent_of j1 = (intent_of j)(mid := Some (case intent_of j mid of Some i \<Rightarrow> i | None \<Rightarrow> (rpc, request)))"
    and "journal_ok j2" and "outcome_of j2 = outcome_of j" and "intent_of j2 = intent_of j1"
    and "pending_of j2 = (pending_of j)(mid := Some (SerializeAsString rpb r))"
    and "journal_ok j3" and "intent_of j3 = intent_of j1" and "pending_of j3 = pending_of j2"
    and "outcome_of j3 = (outcome_of j)(mid := Some (SerializeOutcome (env_outcome_pb env)
            (ok_outcome rpc (SerializeAsString rpb r))))"
    and "RunMutation_body env rpb mid request rpc apply_fn (j, x) =
           (if CrashPointMaybe env ''after_intent'' then (Abort, (j1, x))
            else if CrashPointMaybe env ''after_pending'' then (Abort, (j2, x1))
            else if CrashPointMaybe env ''after_apply'' then (Abort, (j2, x2))
            else (if CrashPointMaybe env ''after_outcome'' then Abort else Ret r, (j3, x2)))"
proof -
  have nf: "stmt_fault (env_sqlite env) st m = None" for st m
    using assms(4) by (simp add: no_faults_def)
  obtain j1 where
    j1: "RecordIntent (env_sqlite env) (env_sha256 env) mid rpc request (env_now env) j = Inr j1"
    using RecordIntent_succeeds [OF nf] by blast
  note l1 = jr.put_intent_law [OF ok j1]
  obtain j2 where j2: "RecordPending (env_sqlite env) mid (SerializeAsString rpb r) j1 = Inr j2"
    using RecordPending_succeeds [OF nf] by blast
  note l2 = jr.put_pending_law [OF conjunct1 [OF l1] j2]
  have "intent_of j2 mid \<noteq> None" "outcome_of j2 mid = None" using l1 l2 new by simp_all
  then obtain j3 where
    j3: "RecordOutcome (env_sqlite env) (env_outcome_pb env) mid (ok_outcome rpc (SerializeAsString rpb r))
           (env_now env) j2 = Inr j3"
    using RecordOutcome_succeeds [OF nf] by blast
  note l3 = jr.put_outcome_law [OF conjunct1 [OF l2] j3]
  show thesis
    by (rule that [of j1 j2 j3])
       (use assms(1) l1 l2 l3 new in \<open>simp_all add: RunMutation_body_def j1 j2 j3 nf GetOutcome_eq apply_plan
          follow_plan_def commit_after_def record_pending_def conclude_def plan CrashPointMaybe_def\<close>)
qed

end

section \<open>Ends of a call\<close>

text \<open>
  What the daemon leaves behind, seen from the journal and the handler's state. \<open>committed\<close>:
  the commit has happened; \<open>edited\<close>: the edit was made in memory and not committed.
\<close>

record 'x call_state =
  cs_pending :: "bytes option"
  cs_outcome :: "bytes option"
  cs_state :: 'x

definition call_state :: "string \<Rightarrow> Journal \<times> 'x \<Rightarrow> 'x call_state" where
  "call_state mid s =
     \<lparr>cs_pending = pending_of (fst s) mid, cs_outcome = outcome_of (fst s) mid, cs_state = snd s\<rparr>"

lemma call_state_sel [simp]:
  "cs_pending (call_state mid (j, x)) = pending_of j mid"
  "cs_outcome (call_state mid (j, x)) = outcome_of j mid"
  "cs_state (call_state mid (j, x)) = x"
  by (simp_all add: call_state_def)

definition crash_points :: "string list" where
  "crash_points = [''after_intent'', ''after_pending'', ''after_apply'', ''after_outcome'']"

text \<open>
  The durable state at each crash point of a mutation whose plan is \<open>(r, x1, x2)\<close>.
\<close>

definition crash_state ::
  "mutation_env \<Rightarrow> 'r message_pb \<Rightarrow> string \<Rightarrow> bytes option \<Rightarrow> string \<Rightarrow> 'x \<Rightarrow> 'r \<times> 'x \<times> 'x \<Rightarrow> 'x call_state" where
  "crash_state env rpb rpc old_pending point x planned =
     (case planned of (r, x1, x2) \<Rightarrow>
       (let resp = SerializeAsString rpb r in
        if point = ''after_intent'' then \<lparr>cs_pending = old_pending, cs_outcome = None, cs_state = x\<rparr>
        else if point = ''after_pending'' then \<lparr>cs_pending = Some resp, cs_outcome = None, cs_state = x1\<rparr>
        else if point = ''after_apply'' then \<lparr>cs_pending = Some resp, cs_outcome = None, cs_state = x2\<rparr>
        else \<lparr>cs_pending = Some resp,
              cs_outcome = Some (SerializeOutcome (env_outcome_pb env) (ok_outcome rpc resp)),
              cs_state = x2\<rparr>))"

context planned_apply
begin

lemma body_applies:
  assumes "ValidateMutationId mid = Inr u" and "journal_ok j" and "outcome_of j mid = None"
    and "no_faults (env_sqlite env)" and "env_crash_at env = None" and "plan x = Ret (r, x1, x2)"
  shows "\<exists>j'. RunMutation_body env rpb mid request rpc apply_fn (j, x) = (Ret r, (j', x2)) \<and> journal_ok j' \<and>
     intent_of j' = (intent_of j)(mid := Some (case intent_of j mid of Some i \<Rightarrow> i | None \<Rightarrow> (rpc, request))) \<and>
     pending_of j' = (pending_of j)(mid := Some (SerializeAsString rpb r)) \<and>
     outcome_of j' = (outcome_of j)(mid := Some (SerializeOutcome (env_outcome_pb env)
                        (ok_outcome rpc (SerializeAsString rpb r))))"
  by (rule body_chain [OF assms(1-4,6), where rpc = rpc and request = request and rpb = rpb])
     (use assms(5) in \<open>auto simp: CrashPointMaybe_def\<close>)

lemma body_crashes:
  assumes "ValidateMutationId mid = Inr u" and "journal_ok j" and "outcome_of j mid = None"
    and "no_faults (env_sqlite env)" and "env_crash_at env = Some point" and "point \<in> set crash_points"
    and "plan x = Ret (r, x1, x2)"
  shows "\<exists>j' x'. RunMutation_body env rpb mid request rpc apply_fn (j, x) = (Abort, (j', x')) \<and> journal_ok j' \<and>
     intent_of j' = (intent_of j)(mid := Some (case intent_of j mid of Some i \<Rightarrow> i | None \<Rightarrow> (rpc, request))) \<and>
     (\<forall>m. m \<noteq> mid \<longrightarrow> pending_of j' m = pending_of j m \<and> outcome_of j' m = outcome_of j m) \<and>
     call_state mid (j', x') = crash_state env rpb rpc (pending_of j mid) point x (r, x1, x2)"
  by (rule body_chain [OF assms(1-4,7), where rpc = rpc and request = request and rpb = rpb])
     (use assms(3,5,6) in \<open>auto simp: CrashPointMaybe_def call_state_def crash_state_def crash_points_def Let_def\<close>)

lemma body_refuses:
  assumes "ValidateMutationId mid = Inr u" and "journal_ok j" and "outcome_of j mid = None"
    and "no_faults (env_sqlite env)" and "env_crash_at env \<noteq> Some ''after_intent''"
    and plan: "plan x = Throw (ExShim se)"
  shows "\<exists>j'. RunMutation_body env rpb mid request rpc apply_fn (j, x) = (Throw (ExShim se), (j', x)) \<and>
     journal_ok j' \<and> pending_of j' = pending_of j \<and>
     outcome_of j' = (if IsDeterministicVerdict (err_code se)
        then (outcome_of j)(mid := Some (SerializeOutcome (env_outcome_pb env) (error_outcome rpc se)))
        else outcome_of j)"
proof -
  have nf: "stmt_fault (env_sqlite env) st m = None" for st m
    using assms(4) by (simp add: no_faults_def)
  obtain j1 where j1: "journal_ok j1" "outcome_of j1 = outcome_of j" "pending_of j1 = pending_of j"
    "intent_of j1 = (intent_of j)(mid := Some (case intent_of j mid of Some i \<Rightarrow> i | None \<Rightarrow> (rpc, request)))"
    "RunMutation_body env rpb mid request rpc apply_fn (j, x) =
       conclude env rpb mid rpc (follow_plan plan (record_pending env rpb mid) (j1, x))"
    by (rule body_starts [OF assms(1,2,3) nf nf assms(5)])
  have "intent_of j1 mid \<noteq> None" "outcome_of j1 mid = None" using j1 assms(3) by simp_all
  then obtain j3 where j3: "RecordOutcome (env_sqlite env) (env_outcome_pb env) mid (error_outcome rpc se)
      (env_now env) j1 = Inr j3"
    using RecordOutcome_succeeds [OF nf] by blast
  from jr.put_outcome_law [OF j1(1) j3] j1 plan show ?thesis
    by (simp add: follow_plan_def commit_after_def conclude_def j3)
qed

text \<open>When SQLite fails the last write, the commit stands and the journal does not know of it.\<close>

lemma body_unrecorded:
  assumes "ValidateMutationId mid = Inr u" and "journal_ok j" and "outcome_of j mid = None"
    and nf: "\<And>st. st \<noteq> Stmt_RecordOutcome \<Longrightarrow> stmt_fault (env_sqlite env) st mid = None"
    and fault: "stmt_fault (env_sqlite env) Stmt_RecordOutcome mid = Some (m, ctx)"
    and crash: "env_crash_at env = None" and plan: "plan x = Ret (r, x1, x2)"
  shows "\<exists>j'. RunMutation_body env rpb mid request rpc apply_fn (j, x) = (Throw (ThrowSqlite m ctx), (j', x2)) \<and>
     journal_ok j' \<and> intent_of j' mid \<noteq> None \<and> outcome_of j' = outcome_of j"
proof -
  obtain j1 where j1: "journal_ok j1" "outcome_of j1 = outcome_of j" "pending_of j1 = pending_of j"
    "intent_of j1 = (intent_of j)(mid := Some (case intent_of j mid of Some i \<Rightarrow> i | None \<Rightarrow> (rpc, request)))"
    "RunMutation_body env rpb mid request rpc apply_fn (j, x) =
       conclude env rpb mid rpc (follow_plan plan (record_pending env rpb mid) (j1, x))"
    by (rule body_starts [OF assms(1,2,3) nf nf, where rpc = rpc and request = request and rpb = rpb and x = x])
       (use crash in auto)
  obtain j2 where j2: "RecordPending (env_sqlite env) mid (SerializeAsString rpb r) j1 = Inr j2"
    using RecordPending_succeeds [OF nf] by blast
  from jr.put_pending_law [OF j1(1) j2] j1 show ?thesis
    by (intro exI [of _ j2]) (simp add: follow_plan_def commit_after_def plan record_pending_def j2 CrashPointMaybe_def crash
      conclude_def RecordOutcome_fault [OF fault])
qed

text \<open>A call that returned a response has left a recorded outcome that replays to it.\<close>

lemma body_Ret_recorded:
  assumes run: "RunMutation_body env rpb mid request rpc apply_fn (j, x) = (Ret r, (j', x'))"
    and ok: "journal_ok j"
    and rt: "outcome_pb_roundtrip (env_outcome_pb env)" "message_pb_roundtrip rpb"
  shows "\<exists>b oc. outcome_of j' mid = Some b \<and> ParseOutcome (env_outcome_pb env) b = Some oc \<and>
           replay rpb mid rpc' oc = Inr r"
proof -
  from run obtain j1 where
    j1: "RecordIntent (env_sqlite env) (env_sha256 env) mid rpc request (env_now env) j = Inr j1"
    by (auto simp: RunMutation_body_def or_throw_def split: sum.splits)
  have ok1: "journal_ok j1" using jr.put_intent_law [OF ok j1] by simp
  from run j1 obtain rec where rec: "GetOutcome (env_sqlite env) (env_outcome_pb env) mid j1 = Inr rec"
    by (auto simp: RunMutation_body_def or_throw_def split: sum.splits if_splits)
  show ?thesis
  proof (cases rec)
    case (Some oc)
    with run j1 rec have "replay rpb mid rpc oc = Inr r" "j' = j1"
      by (auto simp: RunMutation_body_def or_throw_def split: sum.splits if_splits)
    moreover obtain b where "outcome_of j1 mid = Some b" "ParseOutcome (env_outcome_pb env) b = Some oc"
      using rec Some by (auto simp: GetOutcome_def outcome_of_def split: option.splits)
    ultimately show ?thesis by (auto simp: replay_def split: if_splits option.splits)
  next
    case None
    with run j1 rec obtain fl2 j2 x2 where
      ap: "apply_fn (record_pending env rpb mid) (j1, x) = (fl2, (j2, x2))" and
      co: "conclude env rpb mid rpc (fl2, (j2, x2)) = (Ret r, (j', x'))"
      by (auto simp: RunMutation_body_def or_throw_def split: sum.splits if_splits) (metis prod.collapse)
    from co have out: "RecordOutcome (env_sqlite env) (env_outcome_pb env) mid
        (ok_outcome rpc (SerializeAsString rpb r)) (env_now env) j2 = Inr j'"
      by (auto simp: conclude_def split: flow.splits exn.splits if_splits sum.splits)
    have "journal_ok j2"
      using apply_writes [OF ap, of "env_outcome_pb env"] ok1 journal_write_ok by blast
    from jr.put_outcome_law [OF this out] rt show ?thesis
      by (auto simp: outcome_pb_roundtrip_def message_pb_roundtrip_def replay_def ok_outcome_def)
  qed
qed

end

text \<open>A recorded outcome is what every later call with its id gets.\<close>

lemma recorded_replays:
  assumes "ValidateMutationId mid = Inr ()" and "journal_ok j" and "outcome_of j mid = Some b"
    and "ParseOutcome (env_outcome_pb env) b = Some oc" and "replay rpb mid rpc oc = Inr r"
    and "no_faults (env_sqlite env)" and "env_crash_at env = None"
  shows "RunMutation_body env rpb mid request rpc apply_fn (j, y) = (Ret r, (j, y))"
proof -
  have nf: "stmt_fault (env_sqlite env) st m = None" for st m
    using assms(6) by (simp add: no_faults_def)
  show ?thesis
    using assms RecordIntent_again [OF nf outcome_has_intent [OF assms(2,3)]]
    by (simp add: RunMutation_body_def CrashPointMaybe_def GetOutcome_eq nf)
qed

section \<open>An instance for the witnesses\<close>

text \<open>
  A healthy environment over the reference wire format, and an apply function that keeps the
  contract: it counts how often it was committed, and refuses from 3 on.
\<close>

definition ref_env :: mutation_env where
  "ref_env =
     \<lparr>env_sqlite = ref_sqlite, env_sha256 = (\<lambda>b. b), env_outcome_pb = ref_outcome_pb,
      env_status_pb = ref_status_pb, env_crash_at = None, env_now = 1000\<rparr>"

definition string_pb :: "string message_pb" where
  "string_pb = \<lparr>SerializeAsString = put_string, ParseFromString = (\<lambda>b. map_option fst (get_string b))\<rparr>"

definition counter_plan :: "nat \<Rightarrow> (exn, string \<times> nat \<times> nat) flow" where
  "counter_plan n =
     (if n < 3 then Ret (nat_to_string n, n, n + 1)
      else Throw (ExShim (shim_error ERROR_CODE_ACCOUNT_NOT_EMPTY ''full'' [])))"

definition ref_id :: string where
  "ref_id = ''11111111-1111-4111-8111-11111111aBcD''"

interpretation counter: planned_apply "follow_plan counter_plan" counter_plan
  by unfold_locales (auto simp: counter_plan_def split: if_splits)

lemma ref_env_sel [simp]:
  "env_sqlite ref_env = ref_sqlite" "env_outcome_pb ref_env = ref_outcome_pb"
  "env_status_pb ref_env = ref_status_pb" "env_crash_at ref_env = None"
  by (simp_all add: ref_env_def)

lemma string_pb_roundtrip [simp]: "message_pb_roundtrip string_pb"
  using get_put_string [where rest = "[]"]
  by (simp add: message_pb_roundtrip_def string_pb_def del: get_put_string)

lemma ref_id_valid [simp]: "ValidateMutationId ref_id = Inr ()"
  by code_simp

lemma counter_plan_0: "counter_plan 0 = Ret (''0'', 0, 1)"
  by code_simp

lemma counter_plan_1: "counter_plan 1 = Ret (''1'', 1, 2)"
  by code_simp

section \<open>Properties\<close>

text \<open>
  C29. A mutation id passes \<^verbatim>\<open>ValidateMutationId\<close> exactly when it has 36 characters, a dash at
  positions 8, 13, 18 and 23 and a hexadecimal digit of either case everywhere else; any
  other id is refused with \<open>INVALID_ARGUMENT\<close> naming it.
\<close>
theorem ValidateMutationId_iff:
  "(ValidateMutationId mid = Inr () \<longleftrightarrow>
      length mid = 36 \<and>
      (\<forall>i < 36. if i \<in> {8, 13, 18, 23} then mid ! i = CHR ''-'' else isxdigit (mid ! i)))
   \<and> (ValidateMutationId mid \<noteq> Inr () \<longrightarrow>
      ValidateMutationId mid = Inl (ExShim (shim_error ERROR_CODE_INVALID_ARGUMENT ''mutation_id must be a UUID'' mid)))"
proof -
  have len: "length kPattern = 36" by (simp add: kPattern_def)
  have dash: "i < 36 \<Longrightarrow> (kPattern ! i = CHR ''-'') = (i \<in> {8, 13, 18, 23})" for i
    by (simp add: kPattern_def nth_Cons' split: if_splits)
  define ok where "ok p c \<longleftrightarrow> (if p = CHR ''-'' then c = CHR ''-'' else isxdigit c)" for p c
  have all: "list_all (\<lambda>(p, c). ok p c) (zip kPattern mid) \<longleftrightarrow> (\<forall>i < 36. ok (kPattern ! i) (mid ! i))"
    if "length mid = 36"
    using that by (simp add: list_all_length len)
  have "ok (kPattern ! i) (mid ! i) \<longleftrightarrow>
      (if i \<in> {8, 13, 18, 23} then mid ! i = CHR ''-'' else isxdigit (mid ! i))" if "i < 36" for i
    using dash [OF that] by (simp add: ok_def)
  with all show ?thesis
    unfolding ValidateMutationId_def require_def len ok_def [symmetric] by auto
qed

theorem ValidateMutationId_iff_witness:
  "ValidateMutationId ref_id = Inr () \<and> ref_id ! 8 = CHR ''-'' \<and> isxdigit (ref_id ! 35)
   \<and> ValidateMutationId ''not-a-uuid'' =
       Inl (ExShim (shim_error ERROR_CODE_INVALID_ARGUMENT ''mutation_id must be a UUID'' ''not-a-uuid''))"
proof -
  have "\<forall>i < 36. if i \<in> {8, 13, 18, 23} then ref_id ! i = CHR ''-'' else isxdigit (ref_id ! i)"
    using ValidateMutationId_iff [of ref_id] by simp
  from this [rule_format, of 8] this [rule_format, of 35]
  have "ref_id ! 8 = CHR ''-''" "isxdigit (ref_id ! 35)" by simp_all
  moreover have "ValidateMutationId ''not-a-uuid'' \<noteq> Inr ()" by code_simp
  ultimately show ?thesis using ValidateMutationId_iff [of "''not-a-uuid''"] by simp
qed

text \<open>
  C17. Steps 1 to 4 on a healthy journal: a mutation with a valid, unresolved id whose handler
  has a plan returns the planned response with the handler's state committed, and the journal
  then holds the first intent ever journaled under this id, the response as pending record
  and as successful outcome; nothing changes for any other id.
\<close>
theorem mutation_applies:
  assumes "planned_apply apply_fn plan" and "ValidateMutationId mid = Inr ()" and "journal_ok j"
    and "outcome_of j mid = None" and "no_faults (env_sqlite env)" and "env_crash_at env = None"
    and "plan x = Ret (r, x1, x2)"
  shows "\<exists>j'. RunMutation_body env rpb mid request rpc apply_fn (j, x) = (Ret r, (j', x2)) \<and> journal_ok j' \<and>
     intent_of j' = (intent_of j)(mid := Some (case intent_of j mid of Some i \<Rightarrow> i | None \<Rightarrow> (rpc, request))) \<and>
     pending_of j' = (pending_of j)(mid := Some (SerializeAsString rpb r)) \<and>
     outcome_of j' = (outcome_of j)(mid := Some (SerializeOutcome (env_outcome_pb env)
                        (ok_outcome rpc (SerializeAsString rpb r))))"
  by (rule planned_apply.body_applies [OF assms(1-6,7)])

theorem mutation_applies_witness:
  "\<exists>j'. RunMutation_body ref_env string_pb ref_id ''req'' ''S/M'' (follow_plan counter_plan) (empty_journal, 0) =
     (Ret ''0'', (j', 1)) \<and> intent_of j' ref_id = Some (''S/M'', ''req'')"
proof -
  from mutation_applies [OF counter.planned_apply_axioms ref_id_valid _ _ _ _ counter_plan_0,
      of empty_journal ref_env string_pb "''req''" "''S/M''"]
  show ?thesis by (auto simp: fun_eq_iff)
qed

text \<open>
  C18. A refusal is a verdict on the request and nothing else: when the handler's plan throws a
  \<open>ShimError\<close>, the state and every pending record stay as they were, the error is thrown to
  the client unchanged, and it is recorded as the outcome exactly when its code is a
  deterministic verdict; an environmental error leaves the id unresolved.
\<close>
theorem mutation_refused:
  assumes "planned_apply apply_fn plan" and "ValidateMutationId mid = Inr ()" and "journal_ok j"
    and "outcome_of j mid = None" and "no_faults (env_sqlite env)"
    and "env_crash_at env \<noteq> Some ''after_intent''" and "plan x = Throw (ExShim se)"
  shows "\<exists>j'. RunMutation_body env rpb mid request rpc apply_fn (j, x) = (Throw (ExShim se), (j', x)) \<and>
     journal_ok j' \<and> pending_of j' = pending_of j \<and>
     outcome_of j' = (if IsDeterministicVerdict (err_code se)
        then (outcome_of j)(mid := Some (SerializeOutcome (env_outcome_pb env) (error_outcome rpc se)))
        else outcome_of j)"
  by (rule planned_apply.body_refuses [OF assms(1-6,7)])

theorem mutation_refused_witness:
  "\<exists>j'. RunMutation_body ref_env string_pb ref_id ''req'' ''S/M'' (follow_plan counter_plan) (empty_journal, 3) =
     (Throw (ExShim (shim_error ERROR_CODE_ACCOUNT_NOT_EMPTY ''full'' [])), (j', 3)) \<and>
     outcome_of j' ref_id = Some (put_outcome_msg (error_outcome ''S/M'' (shim_error ERROR_CODE_ACCOUNT_NOT_EMPTY ''full'' [])))"
proof -
  have "counter_plan 3 = Throw (ExShim (shim_error ERROR_CODE_ACCOUNT_NOT_EMPTY ''full'' []))"
    by (simp add: counter_plan_def)
  from mutation_refused [OF counter.planned_apply_axioms ref_id_valid _ _ _ _ this,
      of empty_journal ref_env string_pb "''req''" "''S/M''"]
  show ?thesis by (auto simp: ref_outcome_pb_def)
qed

text \<open>
  Exactly once: once a call has returned a response under an id, then after any further
  journal writes of the daemon, restarts included, every call with that id (whatever its
  RPC, its payload and its handler are) returns the same response and changes neither the
  journal nor the state the handler works on.
\<close>
theorem mutation_exactly_once:
  assumes "planned_apply apply_fn plan"
    and "RunMutation_body env rpb mid request rpc apply_fn (j, x) = (Ret r, (j1, x1))" and "journal_ok j"
    and "outcome_pb_roundtrip (env_outcome_pb env)" and "message_pb_roundtrip rpb"
    and later: "(journal_write (env_outcome_pb env))\<^sup>*\<^sup>* j1 j2"
    and env': "env_outcome_pb env' = env_outcome_pb env" "no_faults (env_sqlite env')"
      "env_crash_at env' = None"
  shows "RunMutation_body env' rpb mid request' rpc' apply_fn' (j2, y) = (Ret r, (j2, y))"
proof -
  obtain b oc where b: "outcome_of j1 mid = Some b" "ParseOutcome (env_outcome_pb env) b = Some oc"
    "replay rpb mid rpc' oc = Inr r"
    using planned_apply.body_Ret_recorded [OF assms(1,2,3,4,5)] by blast
  have "journal_ok j1"
    using planned_apply.body_writes [OF assms(1,2)] assms(3) journal_write_ok
    by (induction rule: rtranclp_induct) auto
  from journal_writes_keep [OF later this b(1)] have j2: "journal_ok j2" "outcome_of j2 mid = Some b" by auto
  have valid: "ValidateMutationId mid = Inr ()"
    using assms(2) by (cases "ValidateMutationId mid") (auto simp: RunMutation_body_def)
  from env' b have "ParseOutcome (env_outcome_pb env') b = Some oc" by simp
  from recorded_replays [OF valid j2 this b(3) env'(2,3)] show ?thesis .
qed

theorem mutation_exactly_once_witness:
  "\<exists>j1. RunMutation_body ref_env string_pb ref_id ''req'' ''S/M'' (follow_plan counter_plan) (empty_journal, 0) =
          (Ret ''0'', (j1, 1)) \<and>
        RunMutation_body ref_env string_pb ref_id ''other'' ''S/N'' (follow_plan counter_plan) (j1, 1) =
          (Ret ''0'', (j1, 1))"
proof -
  from counter.body_applies [OF ref_id_valid _ _ _ _ counter_plan_0, of empty_journal ref_env string_pb "''req''" "''S/M''"]
  obtain j1 where run: "RunMutation_body ref_env string_pb ref_id ''req'' ''S/M'' (follow_plan counter_plan)
      (empty_journal, 0) = (Ret ''0'', (j1, 1))" by auto
  from mutation_exactly_once [OF counter.planned_apply_axioms run, of j1 ref_env "''other''" "''S/N''"
      "follow_plan counter_plan" 1] run
  show ?thesis by auto
qed

text \<open>
  What a crash leaves: a process that dies at any of the four crash points of a planned
  mutation leaves a well-formed journal with the intent journaled, and, for this id, exactly
  one of the four durable states of \<open>crash_state\<close> (nothing else; pending recorded but the
  edit uncommitted; pending recorded and committed; outcome recorded and committed). No
  other id is touched.
\<close>
theorem crash_leaves_protocol_state:
  assumes "planned_apply apply_fn plan" and "ValidateMutationId mid = Inr ()" and "journal_ok j"
    and "outcome_of j mid = None" and "no_faults (env_sqlite env)" and "env_crash_at env = Some point"
    and "point \<in> set crash_points" and "plan x = Ret (r, x1, x2)"
  shows "\<exists>j' x'. RunMutation_body env rpb mid request rpc apply_fn (j, x) = (Abort, (j', x')) \<and> journal_ok j' \<and>
     intent_of j' = (intent_of j)(mid := Some (case intent_of j mid of Some i \<Rightarrow> i | None \<Rightarrow> (rpc, request))) \<and>
     (\<forall>m. m \<noteq> mid \<longrightarrow> pending_of j' m = pending_of j m \<and> outcome_of j' m = outcome_of j m) \<and>
     call_state mid (j', x') = crash_state env rpb rpc (pending_of j mid) point x (r, x1, x2)"
  by (rule planned_apply.body_crashes [OF assms(1-7,8)])

theorem crash_leaves_protocol_state_witness:
  "\<exists>j'. RunMutation_body (ref_env\<lparr>env_crash_at := Some ''after_apply''\<rparr>) string_pb ref_id ''req'' ''S/M''
          (follow_plan counter_plan) (empty_journal, 0) = (Abort, (j', 1)) \<and>
        pending_of j' ref_id = Some (put_string ''0'') \<and> outcome_of j' ref_id = None"
proof -
  from crash_leaves_protocol_state [OF counter.planned_apply_axioms ref_id_valid _ _ _ _ _ counter_plan_0,
      of empty_journal "ref_env\<lparr>env_crash_at := Some ''after_apply''\<rparr>" "''after_apply''" string_pb "''req''" "''S/M''"]
  show ?thesis by (auto simp: crash_points_def crash_state_def call_state_def string_pb_def)
qed

text \<open>
  The journal's invariant holds whatever happens: from a journal whose keys are consistent,
  whose ids are all valid UUIDs and whose outcomes are all parseable successes or
  deterministic verdicts, every call of the protocol, however it ends (return, throw, crash,
  SQLite failures at any statement), leads to such a journal again, and every outcome
  recorded before is still there, byte for byte.
\<close>
theorem mutation_keeps_journal:
  assumes "planned_apply apply_fn plan"
    and "RunMutation_body env rpb mid request rpc apply_fn (j, x) = (fl, (j', x'))"
    and "outcome_pb_roundtrip (env_outcome_pb env)" and "journal_inv (env_outcome_pb env) j"
  shows "journal_inv (env_outcome_pb env) j' \<and> (\<forall>m b. outcome_of j m = Some b \<longrightarrow> outcome_of j' m = Some b)"
proof -
  note ws = planned_apply.body_writes [OF assms(1,2)]
  from assms(4) have "journal_ok j" by (simp add: journal_inv_def)
  with journal_writes_inv [OF ws assms(3,4)] journal_writes_keep [OF ws] show ?thesis by blast
qed

theorem mutation_keeps_journal_witness:
  "\<exists>fl j' x'. RunMutation_body ref_env string_pb ref_id ''req'' ''S/M'' (follow_plan counter_plan) (empty_journal, 3) =
     (fl, (j', x')) \<and> journal_inv ref_outcome_pb j'"
proof -
  obtain fl j' x' where
    run: "RunMutation_body ref_env string_pb ref_id ''req'' ''S/M'' (follow_plan counter_plan) (empty_journal, 3) =
      (fl, (j', x'))"
    by (metis prod.collapse)
  have "journal_inv ref_outcome_pb empty_journal" by (simp add: journal_inv_def)
  with mutation_keeps_journal [OF counter.planned_apply_axioms run] run show ?thesis by auto
qed

text \<open>
  The gap the protocol does not close: when SQLite fails the write of the outcome (step 4)
  after the commit, the client gets an error while the commit stands, the journal has no
  outcome for the id, and a retry with the same id, as the design tells the client to do,
  runs the handler again on the committed state: the mutation is applied a second time.
\<close>
theorem unrecorded_outcome_applies_twice:
  assumes "planned_apply apply_fn plan" and "ValidateMutationId mid = Inr ()" and "journal_ok j"
    and "outcome_of j mid = None"
    and "\<And>st. st \<noteq> Stmt_RecordOutcome \<Longrightarrow> stmt_fault (env_sqlite env) st mid = None"
    and "stmt_fault (env_sqlite env) Stmt_RecordOutcome mid = Some (m, ctx)" and "env_crash_at env = None"
    and "plan x = Ret (r, x1, x2)" and again: "plan x2 = Ret (r', y1, y2)"
    and env': "no_faults (env_sqlite env')" "env_crash_at env' = None"
  shows "\<exists>j1 j2. RunMutation_body env rpb mid request rpc apply_fn (j, x) = (Throw (ThrowSqlite m ctx), (j1, x2)) \<and>
           RunMutation_body env' rpb mid request rpc apply_fn (j1, x2) = (Ret r', (j2, y2))"
proof -
  obtain j1 where j1: "RunMutation_body env rpb mid request rpc apply_fn (j, x) = (Throw (ThrowSqlite m ctx), (j1, x2))"
    "journal_ok j1" "outcome_of j1 = outcome_of j"
    using planned_apply.body_unrecorded [OF assms(1-8)] by blast
  with planned_apply.body_applies [OF assms(1,2) j1(2) _ env' again] assms(4) show ?thesis by fastforce
qed

theorem unrecorded_outcome_applies_twice_witness:
  "let full = ref_env\<lparr>env_sqlite := ref_sqlite\<lparr>stmt_fault :=
                (\<lambda>st _. if st = Stmt_RecordOutcome then Some (''disk I/O error'', ''step'') else None)\<rparr>\<rparr>
   in \<exists>j1 j2. RunMutation_body full string_pb ref_id ''req'' ''S/M'' (follow_plan counter_plan) (empty_journal, 0) =
                (Throw (ThrowSqlite ''disk I/O error'' ''step''), (j1, 1)) \<and>
              RunMutation_body ref_env string_pb ref_id ''req'' ''S/M'' (follow_plan counter_plan) (j1, 1) =
                (Ret ''1'', (j2, 2))"
proof -
  let ?full = "ref_env\<lparr>env_sqlite := ref_sqlite\<lparr>stmt_fault :=
     (\<lambda>st _. if st = Stmt_RecordOutcome then Some (''disk I/O error'', ''step'') else None)\<rparr>\<rparr>"
  from unrecorded_outcome_applies_twice [OF counter.planned_apply_axioms ref_id_valid _ _ _ _ _ counter_plan_0 counter_plan_1,
      of empty_journal ?full "''disk I/O error''" "''step''" ref_env string_pb "''req''" "''S/M''"]
  show ?thesis by (simp add: Let_def)
qed

end
