(* ===== verification/Engine.thy ===== *)
theory Engine
  imports Errors
begin

text \<open>
  The boundary to what the daemon is linked against. libgnucash and GLib are parameters of
  the model: \<open>qof_lib\<close> holds their pure functions (GUID text, calendar, engine arithmetic)
  and \<open>'w engine\<close> the operations on an engine world \<open>'w\<close>, which is everything the engine
  keeps, in memory and in the book's database. Object pointers are numbers, \<^verbatim>\<open>nullptr\<close> is
  \<open>None\<close>. The getters of an object are the fields of its view (\<open>account_at\<close> and the like),
  and every call that changes the engine is a value of \<open>engine_call\<close>, executed by
  \<open>eng_do\<close>, so that a handler's edit is the sequence of calls the source makes. What the
  proofs rely on of the engine's documented behaviour is stated as named predicates, in the
  theories that need it.
\<close>

section \<open>Library values\<close>

type_synonym GncGUID = "128 word"
type_synonym time64 = int64
type_synonym QofBook = nat
type_synonym Account = nat
type_synonym Split = nat
type_synonym Transaction = nat
type_synonym gnc_commodity = nat
type_synonym GNCPrice = nat

record gnc_numeric =
  gn_num :: int64
  gn_denom :: int64

definition gnc_numeric_create :: "int64 \<Rightarrow> int64 \<Rightarrow> gnc_numeric" where
  "gnc_numeric_create n d = \<lparr>gn_num = n, gn_denom = d\<rparr>"

definition gnc_numeric_zero :: gnc_numeric where
  "gnc_numeric_zero = gnc_numeric_create 0 1"

text \<open>
  \<^verbatim>\<open>GDate\<close> in its day-month-year form, with GLib's widths: \<^verbatim>\<open>GDateDay\<close> is an unsigned 8-bit
  and \<^verbatim>\<open>GDateYear\<close> an unsigned 16-bit integer, \<^verbatim>\<open>GDateMonth\<close> an enumeration.
\<close>

record GDate =
  g_date_get_day :: "8 word"
  g_date_get_month :: int
  g_date_get_year :: "16 word"

definition g_date_set_dmy :: "8 word \<Rightarrow> int \<Rightarrow> 16 word \<Rightarrow> GDate" where
  "g_date_set_dmy d m y = \<lparr>g_date_get_day = d, g_date_get_month = m, g_date_get_year = y\<rparr>"

datatype GNCAccountType =
    ACCT_TYPE_ASSET | ACCT_TYPE_BANK | ACCT_TYPE_CASH | ACCT_TYPE_CREDIT | ACCT_TYPE_LIABILITY
  | ACCT_TYPE_EQUITY | ACCT_TYPE_INCOME | ACCT_TYPE_EXPENSE | ACCT_TYPE_STOCK | ACCT_TYPE_MUTUAL
  | ACCT_TYPE_RECEIVABLE | ACCT_TYPE_PAYABLE | ACCT_TYPE_TRADING | ACCT_TYPE_ROOT
  | ACCT_TYPE_other int  \<comment> \<open>the engine's obsolete types\<close>

text \<open>The engine's reconcile flags.\<close>

definition NREC :: char where "NREC = CHR ''n''"
definition CREC :: char where "CREC = CHR ''c''"
definition YREC :: char where "YREC = CHR ''y''"
definition FREC :: char where "FREC = CHR ''f''"
definition VREC :: char where "VREC = CHR ''v''"

lemmas rec_flags = NREC_def CREC_def YREC_def FREC_def VREC_def

record qof_lib =
  guid_to_string_buff :: "GncGUID \<Rightarrow> string"
  string_to_guid :: "string \<Rightarrow> GncGUID option"
  g_date_valid_dmy :: "8 word \<Rightarrow> int \<Rightarrow> 16 word \<Rightarrow> bool"
  g_date_valid :: "GDate \<Rightarrow> bool"
  time64_to_gdate :: "time64 \<Rightarrow> GDate"
  gnc_dmy2time64 :: "GDate \<Rightarrow> time64"
  gnc_dmy2time64_end :: "GDate \<Rightarrow> time64"
  gnc_dmy2time64_neutral :: "GDate \<Rightarrow> time64"
  gnc_numeric_add :: "gnc_numeric \<Rightarrow> gnc_numeric \<Rightarrow> gnc_numeric"  \<comment> \<open>\<^verbatim>\<open>GNC_DENOM_AUTO, GNC_HOW_DENOM_LCD\<close>\<close>
  gnc_numeric_check :: "gnc_numeric \<Rightarrow> bool"  \<comment> \<open>\<^verbatim>\<open>== GNC_ERROR_OK\<close>\<close>
  gnc_numeric_zero_p :: "gnc_numeric \<Rightarrow> bool"
  gnc_numeric_compare :: "gnc_numeric \<Rightarrow> gnc_numeric \<Rightarrow> int"
  gnc_numeric_to_string :: "gnc_numeric \<Rightarrow> string"

section \<open>Views of the engine's objects\<close>

record account_view =
  account_guid :: GncGUID
  gnc_account_get_parent :: "Account option"
  xaccAccountGetName :: "string option"
  xaccAccountGetType :: GNCAccountType
  xaccAccountGetCommodity :: "gnc_commodity option"
  xaccAccountGetCode :: "string option"
  xaccAccountGetDescription :: "string option"
  xaccAccountGetPlaceholder :: bool
  xaccAccountGetHidden :: bool
  xaccAccountGetReconcileLastDate :: "time64 option"
  xaccAccountGetReconciledBalance :: gnc_numeric
  xaccAccountGetSplitList :: "Split list"
  gnc_account_n_children :: nat

record split_view =
  split_guid :: GncGUID
  xaccSplitGetParent :: Transaction
  xaccSplitGetAccount :: Account
  xaccSplitGetValue :: gnc_numeric
  xaccSplitGetAmount :: gnc_numeric
  xaccSplitGetMemo :: "string option"
  xaccSplitGetAction :: "string option"
  xaccSplitGetReconcile :: char
  split_destroying :: bool  \<comment> \<open>\<^verbatim>\<open>qof_instance_get_destroying\<close>\<close>

record trans_view =
  trans_guid :: GncGUID
  xaccTransGetCurrency :: "gnc_commodity option"
  xaccTransGetDatePostedGDate :: GDate
  xaccTransGetDateEntered :: time64
  xaccTransGetNum :: "string option"
  xaccTransGetDescription :: "string option"
  xaccTransGetSplitList :: "Split list"
  xaccTransGetImbalanceValue :: gnc_numeric

record commodity_view =
  gnc_commodity_get_namespace :: string
  gnc_commodity_get_mnemonic :: string
  gnc_commodity_get_fullname :: "string option"
  gnc_commodity_get_fraction :: int
  gnc_commodity_is_currency :: bool

record price_view =
  price_guid :: GncGUID
  gnc_price_get_commodity :: gnc_commodity
  gnc_price_get_currency :: gnc_commodity
  gnc_price_get_time64 :: time64
  gnc_price_get_value :: gnc_numeric
  gnc_price_get_source_string :: "string option"

section \<open>Calls that change the engine\<close>

datatype engine_call =
    xaccAccountBeginEdit Account
  | xaccAccountSetName Account string
  | xaccAccountSetType Account GNCAccountType
  | xaccAccountSetCommodity Account gnc_commodity
  | xaccAccountSetCode Account string
  | xaccAccountSetDescription Account string
  | xaccAccountSetPlaceholder Account bool
  | xaccAccountSetHidden Account bool
  | gnc_account_append_child Account Account  \<comment> \<open>the new parent, the child\<close>
  | xaccAccountSetReconcileLastDate Account time64
  | xaccAccountCommitEdit Account
  | xaccAccountDestroy Account
  | xaccTransBeginEdit Transaction
  | xaccTransSetCurrency Transaction gnc_commodity
  | xaccTransSetDatePostedGDate Transaction GDate
  | xaccTransSetDateEnteredSecs Transaction time64
  | xaccTransSetNum Transaction string
  | xaccTransSetDescription Transaction string
  | xaccTransDestroy Transaction
  | xaccTransCommitEdit Transaction
  | xaccSplitDestroy Split
  | xaccSplitSetParent Split Transaction
  | xaccSplitSetAccount Split Account
  | xaccSplitSetValue Split gnc_numeric
  | xaccSplitSetAmount Split gnc_numeric
  | xaccSplitSetMemo Split string
  | xaccSplitSetAction Split string
  | xaccSplitSetReconcile Split char
  | gnc_price_begin_edit GNCPrice
  | gnc_price_set_commodity GNCPrice gnc_commodity
  | gnc_price_set_currency GNCPrice gnc_commodity
  | gnc_price_set_time64 GNCPrice time64
  | gnc_price_set_value GNCPrice gnc_numeric
  | gnc_price_set_source_string GNCPrice string
  | gnc_price_commit_edit GNCPrice
  | gnc_pricedb_add_price GNCPrice  \<comment> \<open>into the book's price database; its verdict is not looked at\<close>
  | gnc_price_unref GNCPrice

text \<open>The objects an edit is opened on.\<close>

datatype edit_target = Edit_Account Account | Edit_Trans Transaction | Edit_Price GNCPrice

text \<open>The terms a split query is built from, all joined by \<^verbatim>\<open>QOF_QUERY_AND\<close>.\<close>

datatype query_term =
    xaccQueryAddAccountMatch "Account list"
  | xaccQueryAddDateMatchTT bool time64 bool time64
  | xaccQueryAddDescriptionMatch string
  | xaccQueryAddMemoMatch string
  | xaccQueryAddClearedMatch int

record 'w engine =
  lib :: qof_lib
  account_at :: "Account \<Rightarrow> 'w \<Rightarrow> account_view"
  split_at :: "Split \<Rightarrow> 'w \<Rightarrow> split_view"
  trans_at :: "Transaction \<Rightarrow> 'w \<Rightarrow> trans_view"
  commodity_at :: "gnc_commodity \<Rightarrow> 'w \<Rightarrow> commodity_view"
  price_at :: "GNCPrice \<Rightarrow> 'w \<Rightarrow> price_view"
  xaccAccountLookup :: "GncGUID \<Rightarrow> QofBook \<Rightarrow> 'w \<Rightarrow> Account option"
  xaccTransLookup :: "GncGUID \<Rightarrow> QofBook \<Rightarrow> 'w \<Rightarrow> Transaction option"
  gnc_price_lookup :: "GncGUID \<Rightarrow> QofBook \<Rightarrow> 'w \<Rightarrow> GNCPrice option"
  gnc_commodity_table_lookup :: "QofBook \<Rightarrow> string \<Rightarrow> string \<Rightarrow> 'w \<Rightarrow> gnc_commodity option"
  gnc_book_get_root_account :: "QofBook \<Rightarrow> 'w \<Rightarrow> Account"
  xaccMallocAccount :: "QofBook \<Rightarrow> 'w \<Rightarrow> Account \<times> 'w"
  xaccMallocTransaction :: "QofBook \<Rightarrow> 'w \<Rightarrow> Transaction \<times> 'w"
  xaccMallocSplit :: "QofBook \<Rightarrow> 'w \<Rightarrow> Split \<times> 'w"
  gnc_price_create :: "QofBook \<Rightarrow> 'w \<Rightarrow> GNCPrice \<times> 'w"
  eng_do :: "engine_call \<Rightarrow> 'w \<Rightarrow> 'w"
  edit_level :: "edit_target \<Rightarrow> 'w \<Rightarrow> nat"  \<comment> \<open>the open edits of the object, which nest\<close>
  gnc_time :: "'w \<Rightarrow> time64"
  qof_query_run :: "QofBook \<Rightarrow> query_term list \<Rightarrow> 'w \<Rightarrow> Split list"
  gnc_account_get_descendants_sorted :: "Account \<Rightarrow> 'w \<Rightarrow> Account list"
  gnc_commodity_table_get_namespaces :: "QofBook \<Rightarrow> 'w \<Rightarrow> string list"
  gnc_commodity_table_get_commodities :: "QofBook \<Rightarrow> string \<Rightarrow> 'w \<Rightarrow> gnc_commodity list"
  gnc_pricedb_get_prices :: "QofBook \<Rightarrow> gnc_commodity \<Rightarrow> gnc_commodity option \<Rightarrow> 'w \<Rightarrow> GNCPrice list"
  xaccAccountGetBalanceAsOfDateInCurrency :: "Account \<Rightarrow> time64 \<Rightarrow> gnc_commodity \<Rightarrow> bool \<Rightarrow> 'w \<Rightarrow> gnc_numeric"
  qof_book_is_readonly :: "QofBook \<Rightarrow> 'w \<Rightarrow> bool"

definition eng_seq :: "'w engine \<Rightarrow> engine_call list \<Rightarrow> 'w \<Rightarrow> 'w" where
  "eng_seq eng cs w = fold (eng_do eng) cs w"

lemma eng_seq_simps [simp]:
  "eng_seq eng [] w = w"
  "eng_seq eng (c # cs) w = eng_seq eng cs (eng_do eng c w)"
  by (simp_all add: eng_seq_def)

lemma eng_seq_append: "eng_seq eng (cs @ ds) w = eng_seq eng ds (eng_seq eng cs w)"
  by (simp add: eng_seq_def)

section \<open>Edits\<close>

text \<open>
  Which calls belong to an open edit of an object: its own setters, and for a transaction those
  of its splits.
\<close>

fun in_edit :: "edit_target \<Rightarrow> engine_call \<Rightarrow> bool" where
  "in_edit (Edit_Account a) c =
     (case c of
        xaccAccountSetName b _ \<Rightarrow> b = a | xaccAccountSetType b _ \<Rightarrow> b = a
      | xaccAccountSetCommodity b _ \<Rightarrow> b = a | xaccAccountSetCode b _ \<Rightarrow> b = a
      | xaccAccountSetDescription b _ \<Rightarrow> b = a | xaccAccountSetPlaceholder b _ \<Rightarrow> b = a
      | xaccAccountSetHidden b _ \<Rightarrow> b = a | gnc_account_append_child _ b \<Rightarrow> b = a
      | xaccAccountSetReconcileLastDate b _ \<Rightarrow> b = a | _ \<Rightarrow> False)"
| "in_edit (Edit_Trans t) c =
     (case c of
        xaccTransSetCurrency u _ \<Rightarrow> u = t | xaccTransSetDatePostedGDate u _ \<Rightarrow> u = t
      | xaccTransSetDateEnteredSecs u _ \<Rightarrow> u = t | xaccTransSetNum u _ \<Rightarrow> u = t
      | xaccTransSetDescription u _ \<Rightarrow> u = t | xaccTransDestroy u \<Rightarrow> u = t
      | xaccSplitDestroy _ \<Rightarrow> True | xaccSplitSetParent _ u \<Rightarrow> u = t
      | xaccSplitSetAccount _ _ \<Rightarrow> True | xaccSplitSetValue _ _ \<Rightarrow> True
      | xaccSplitSetAmount _ _ \<Rightarrow> True | xaccSplitSetMemo _ _ \<Rightarrow> True
      | xaccSplitSetAction _ _ \<Rightarrow> True | xaccSplitSetReconcile _ _ \<Rightarrow> True | _ \<Rightarrow> False)"
| "in_edit (Edit_Price p) c =
     (case c of
        gnc_price_set_commodity q _ \<Rightarrow> q = p | gnc_price_set_currency q _ \<Rightarrow> q = p
      | gnc_price_set_time64 q _ \<Rightarrow> q = p | gnc_price_set_value q _ \<Rightarrow> q = p
      | gnc_price_set_source_string q _ \<Rightarrow> q = p | _ \<Rightarrow> False)"

fun begin_edit :: "edit_target \<Rightarrow> engine_call" where
  "begin_edit (Edit_Account a) = xaccAccountBeginEdit a"
| "begin_edit (Edit_Trans t) = xaccTransBeginEdit t"
| "begin_edit (Edit_Price p) = gnc_price_begin_edit p"

fun commit_edit :: "edit_target \<Rightarrow> engine_call" where
  "commit_edit (Edit_Account a) = xaccAccountCommitEdit a"
| "commit_edit (Edit_Trans t) = xaccTransCommitEdit t"
| "commit_edit (Edit_Price p) = gnc_price_commit_edit p"

text \<open>
  Edits nest: \<^verbatim>\<open>BeginEdit\<close> raises the level of its object, the commit lowers it, and only the
  outermost commit reaches the database. No edit is open in an idle engine, and \<open>only_edit\<close> is
  the state in which the next commit of the object is an outermost one and no other object has
  changes that are not yet in the database.
\<close>

definition idle :: "'w engine \<Rightarrow> 'w \<Rightarrow> bool" where
  "idle eng w \<longleftrightarrow> (\<forall>t. edit_level eng t w = 0)"

definition only_edit :: "'w engine \<Rightarrow> edit_target \<Rightarrow> 'w \<Rightarrow> bool" where
  "only_edit eng t w \<longleftrightarrow> (\<forall>u. edit_level eng u w = (if u = t then 1 else 0))"

text \<open>The documented discipline of an edit: until its commit it stays in memory, also for a reopened book.\<close>

definition private_edits :: "'w engine \<Rightarrow> ('w \<Rightarrow> 'w) \<Rightarrow> edit_target \<Rightarrow> bool" where
  "private_edits eng reopened t \<longleftrightarrow>
     (\<forall>w. reopened (eng_do eng (begin_edit t) w) = reopened w \<and>
          (\<forall>u. edit_level eng u (eng_do eng (begin_edit t) w) = edit_level eng u w + (if u = t then 1 else 0))) \<and>
     (\<forall>c w. in_edit t c \<and> 0 < edit_level eng t w \<longrightarrow>
          reopened (eng_do eng c w) = reopened w \<and>
          (\<forall>u. edit_level eng u (eng_do eng c w) = edit_level eng u w))"

text \<open>Allocation of an object writes nothing and opens no edit.\<close>

definition quiet_alloc :: "'w engine \<Rightarrow> ('w \<Rightarrow> 'w) \<Rightarrow> ('w \<Rightarrow> 'a \<times> 'w) \<Rightarrow> bool" where
  "quiet_alloc eng reopened alloc \<longleftrightarrow>
     (\<forall>w. reopened (snd (alloc w)) = reopened w \<and> (idle eng w \<longrightarrow> idle eng (snd (alloc w))))"

lemma private_calls:
  assumes "private_edits eng reopened t" and "\<forall>c \<in> set cs. in_edit t c" and "only_edit eng t w"
  shows "only_edit eng t (eng_seq eng cs w) \<and> reopened (eng_seq eng cs w) = reopened w"
  using assms(2,3)
proof (induction cs arbitrary: w)
  case (Cons c cs)
  then have "0 < edit_level eng t w" by (simp add: only_edit_def)
  with Cons.prems(1) assms(1) have c: "reopened (eng_do eng c w) = reopened w"
      "\<forall>u. edit_level eng u (eng_do eng c w) = edit_level eng u w"
    unfolding private_edits_def by (simp_all del: split_paired_All)
  with Cons.prems(2) have "only_edit eng t (eng_do eng c w)" by (simp add: only_edit_def)
  with Cons.IH [OF _ this] Cons.prems(1) c(1) show ?case by simp
qed simp

lemma private_edit:
  assumes "private_edits eng reopened t" and "\<forall>c \<in> set cs. in_edit t c" and "idle eng w"
  shows "only_edit eng t (eng_seq eng (begin_edit t # cs) w)" and "reopened (eng_seq eng (begin_edit t # cs) w) = reopened w"
proof -
  let ?w = "eng_do eng (begin_edit t) w"
  have w: "reopened ?w = reopened w" "\<forall>u. edit_level eng u ?w = edit_level eng u w + (if u = t then 1 else 0)"
    using assms(1) unfolding private_edits_def by blast+
  with assms(3) have "only_edit eng t ?w" by (simp add: only_edit_def idle_def)
  from private_calls [OF assms(1,2) this] w(1)
  show "only_edit eng t (eng_seq eng (begin_edit t # cs) w)" "reopened (eng_seq eng (begin_edit t # cs) w) = reopened w"
    by simp_all
qed

end
