(* ===== verification/Contract.thy ===== *)
theory Contract
  imports Errors
begin

text \<open>
  \<^verbatim>\<open>proto/shim.proto\<close>: the messages the handlers read and write. A message field of message
  type is an \<open>option\<close> (\<^verbatim>\<open>has_x()\<close> is \<open>\<noteq> None\<close>, and \<^verbatim>\<open>x()\<close> of an unset field is the default
  message); scalar fields have their default when unset. Enumerations are open, so each has
  a constructor for the values the contract does not list.
\<close>

section \<open>Values\<close>

record Numeric =
  nu_num :: int64
  nu_denom :: int64

record Date =
  da_year :: int
  da_month :: int
  da_day :: int

record CommodityId =
  ci_space :: string
  ci_mnemonic :: string

definition Numeric_default :: Numeric where
  "Numeric_default = \<lparr>nu_num = 0, nu_denom = 0\<rparr>"

definition Date_default :: Date where
  "Date_default = \<lparr>da_year = 0, da_month = 0, da_day = 0\<rparr>"

definition CommodityId_default :: CommodityId where
  "CommodityId_default = \<lparr>ci_space = [], ci_mnemonic = []\<rparr>"

text \<open>\<^verbatim>\<open>msg.field()\<close> of a message field.\<close>

definition field_or :: "'a \<Rightarrow> 'a option \<Rightarrow> 'a" where
  "field_or d f = (case f of Some m \<Rightarrow> m | None \<Rightarrow> d)"

lemma field_or_simps [simp]: "field_or d (Some m) = m" "field_or d None = d"
  by (simp_all add: field_or_def)

datatype AccountType =
    ACCOUNT_TYPE_UNSPECIFIED | ACCOUNT_TYPE_ASSET | ACCOUNT_TYPE_BANK | ACCOUNT_TYPE_CASH
  | ACCOUNT_TYPE_CREDIT | ACCOUNT_TYPE_LIABILITY | ACCOUNT_TYPE_EQUITY | ACCOUNT_TYPE_INCOME
  | ACCOUNT_TYPE_EXPENSE | ACCOUNT_TYPE_STOCK | ACCOUNT_TYPE_MUTUAL | ACCOUNT_TYPE_RECEIVABLE
  | ACCOUNT_TYPE_PAYABLE | ACCOUNT_TYPE_TRADING | ACCOUNT_TYPE_ROOT | AccountType_other int

datatype ReconcileState =
    RECONCILE_STATE_UNSPECIFIED | RECONCILE_STATE_NOT_RECONCILED | RECONCILE_STATE_CLEARED
  | RECONCILE_STATE_RECONCILED | RECONCILE_STATE_FROZEN | RECONCILE_STATE_VOIDED
  | ReconcileState_other int

section \<open>Entities\<close>

record AccountMsg =
  am_guid :: string
  am_parent_guid :: string
  am_name :: string
  am_type :: AccountType
  am_commodity :: "CommodityId option"
  am_code :: string
  am_description :: string
  am_placeholder :: bool
  am_hidden :: bool

record SplitMsg =
  sm_guid :: string
  sm_account_guid :: string
  sm_value :: "Numeric option"
  sm_quantity :: "Numeric option"
  sm_memo :: string
  sm_action :: string
  sm_reconcile_state :: ReconcileState

record TransactionMsg =
  tm_guid :: string
  tm_currency :: "CommodityId option"
  tm_post_date :: "Date option"
  tm_enter_time_utc :: int64
  tm_num :: string
  tm_description :: string
  tm_splits :: "SplitMsg list"

record PriceMsg =
  pm_guid :: string
  pm_commodity :: "CommodityId option"
  pm_currency :: "CommodityId option"
  pm_date :: "Date option"
  pm_value :: "Numeric option"
  pm_source :: string

record CommodityMsg =
  cm_id :: "CommodityId option"
  cm_fullname :: string
  cm_fraction :: int
  cm_is_currency :: bool

record ReconcileInfo =
  ri_account_guid :: string
  ri_last_date :: "Date option"
  ri_reconciled_balance :: "Numeric option"

section \<open>Requests and responses\<close>

record SetReconcileInfoRequest =
  sr_meta_mutation_id :: string
  sr_account_guid :: string
  sr_last_date :: "Date option"

record AccountRequest =  \<comment> \<open>\<^verbatim>\<open>CreateAccountRequest\<close> and \<^verbatim>\<open>UpdateAccountRequest\<close>\<close>
  ar_meta_mutation_id :: string
  ar_account :: AccountMsg

record DeleteRequest =  \<comment> \<open>\<^verbatim>\<open>DeleteAccountRequest\<close> and \<^verbatim>\<open>DeleteTransactionRequest\<close>\<close>
  dr_meta_mutation_id :: string
  dr_guid :: string

record TransactionRequest =  \<comment> \<open>\<^verbatim>\<open>PostTransactionRequest\<close> and \<^verbatim>\<open>UpdateTransactionRequest\<close>\<close>
  tr_meta_mutation_id :: string
  tr_transaction :: TransactionMsg

record AddPriceRequest =
  ap_meta_mutation_id :: string
  ap_price :: PriceMsg

record QuerySplitsRequest =
  qs_account_guids :: "string list"
  qs_date_from :: "Date option"
  qs_date_to :: "Date option"
  qs_description_contains :: string
  qs_memo_contains :: string
  qs_value_min :: "Numeric option"
  qs_value_max :: "Numeric option"
  qs_states :: "ReconcileState list"
  qs_page_size :: int
  qs_page_token :: string

record SplitWithContext =
  sc_split :: "SplitMsg"
  sc_transaction_guid :: string
  sc_post_date :: "Date option"
  sc_description :: string
  sc_txn_currency :: "CommodityId option"

record QuerySplitsResponse =
  qr_splits :: "SplitWithContext list"
  qr_next_page_token :: string

record GetPricesRequest =
  gp_commodity :: "CommodityId option"
  gp_currency :: "CommodityId option"
  gp_date_from :: "Date option"
  gp_date_to :: "Date option"

record GetBalanceRequest =
  gb_account_guid :: string
  gb_as_of :: "Date option"
  gb_include_children :: bool
  gb_convert_to :: "CommodityId option"

record Balance =
  ba_amount :: "Numeric option"
  ba_commodity :: "CommodityId option"
  ba_as_of :: "Date option"

record TrialBalanceEntry =
  te_currency :: "CommodityId option"
  te_sum :: "Numeric option"

record BookInfo =
  bi_root_account_guid :: string
  bi_default_currency :: "CommodityId option"
  bi_backend_uri :: string
  bi_engine_version :: string
  bi_shim_version :: string
  bi_read_only :: bool

record PingResponse =
  pr_queue_depth :: int64
  pr_uptime_seconds :: int64
  pr_book_open :: bool

end
