(* ===== verification/Recovery.thy ===== *)
theory Recovery
  imports Mutation Engine_Map
begin

text \<open>
  \<^verbatim>\<open>src/journal/recovery.{h,cpp}\<close>: startup reconciliation of the journal against the book. The
  protobuf codecs of the messages it parses and compares are the fields of \<open>recovery_pb\<close>.
\<close>

section \<open>Was the mutation applied?\<close>

record recovery_pb =
  pb_account :: "AccountMsg message_pb"
  pb_reconcile_info :: "ReconcileInfo message_pb"
  pb_transaction :: "TransactionMsg message_pb"
  pb_price :: "PriceMsg message_pb"
  pb_delete_account :: "DeleteRequest message_pb"
  pb_delete_transaction :: "DeleteRequest message_pb"

datatype QofIdType = GNC_ID_ACCOUNT | GNC_ID_TRANS | GNC_ID_other string

definition GuidExists :: "'w engine \<Rightarrow> QofBook \<Rightarrow> string \<Rightarrow> QofIdType \<Rightarrow> 'w \<Rightarrow> bool" where
  "GuidExists eng book guid ty w =
     (case string_to_guid (lib eng) (c_str guid) of
        None \<Rightarrow> False
      | Some parsed \<Rightarrow>
          if ty = GNC_ID_ACCOUNT then xaccAccountLookup eng parsed book w \<noteq> None
          else if ty = GNC_ID_TRANS then xaccTransLookup eng parsed book w \<noteq> None
          else False)"

definition WasApplied :: "recovery_pb \<Rightarrow> 'w engine \<Rightarrow> QofBook \<Rightarrow> 'w \<Rightarrow> PendingEntry \<Rightarrow> bool option" where
  "WasApplied pbs eng book w entry =
     (let rpc = pe_rpc_name entry; pending = pe_pending_response entry in
      if ends_with rpc ''/CreateAccount''
      then (case ParseFromString (pb_account pbs) pending of
              None \<Rightarrow> None
            | Some response \<Rightarrow> Some (GuidExists eng book (am_guid response) GNC_ID_ACCOUNT w))
      else if ends_with rpc ''/UpdateAccount''
      then (case ParseFromString (pb_account pbs) pending of
              None \<Rightarrow> None
            | Some response \<Rightarrow>
                (case string_to_guid (lib eng) (c_str (am_guid response)) of
                   None \<Rightarrow> None
                 | Some parsed \<Rightarrow>
                     (case xaccAccountLookup eng parsed book w of
                        None \<Rightarrow> None
                      | Some account \<Rightarrow>
                          Some (SerializeAsString (pb_account pbs) (AccountToProto eng account w) = pending))))
      else if ends_with rpc ''/DeleteAccount''
      then (case ParseFromString (pb_delete_account pbs) (pe_request_payload entry) of
              None \<Rightarrow> None
            | Some request \<Rightarrow> Some (\<not> GuidExists eng book (dr_guid request) GNC_ID_ACCOUNT w))
      else if ends_with rpc ''/SetReconcileInfo''
      then (case ParseFromString (pb_reconcile_info pbs) pending of
              None \<Rightarrow> None
            | Some response \<Rightarrow>
                (case string_to_guid (lib eng) (c_str (ri_account_guid response)) of
                   None \<Rightarrow> None
                 | Some parsed \<Rightarrow>
                     (case xaccAccountLookup eng parsed book w of
                        None \<Rightarrow> None
                      | Some account \<Rightarrow>
                          Some (SerializeAsString (pb_reconcile_info pbs) (ReconcileInfoToProto eng account w) = pending))))
      else if ends_with rpc ''/PostTransaction''
      then (case ParseFromString (pb_transaction pbs) pending of
              None \<Rightarrow> None
            | Some response \<Rightarrow> Some (GuidExists eng book (tm_guid response) GNC_ID_TRANS w))
      else if ends_with rpc ''/UpdateTransaction''
      then (case ParseFromString (pb_transaction pbs) pending of
              None \<Rightarrow> None
            | Some response \<Rightarrow>
                (case string_to_guid (lib eng) (c_str (tm_guid response)) of
                   None \<Rightarrow> None
                 | Some parsed \<Rightarrow>
                     (case xaccTransLookup eng parsed book w of
                        None \<Rightarrow> None
                      | Some transaction \<Rightarrow>
                          Some (SerializeAsString (pb_transaction pbs) (TransactionToProto eng transaction w) = pending))))
      else if ends_with rpc ''/DeleteTransaction''
      then (case ParseFromString (pb_delete_transaction pbs) (pe_request_payload entry) of
              None \<Rightarrow> None
            | Some request \<Rightarrow> Some (\<not> GuidExists eng book (dr_guid request) GNC_ID_TRANS w))
      else if ends_with rpc ''/AddPrice''
      then (case ParseFromString (pb_price pbs) pending of
              None \<Rightarrow> None
            | Some response \<Rightarrow>
                (case string_to_guid (lib eng) (c_str (pm_guid response)) of
                   None \<Rightarrow> None
                 | Some parsed \<Rightarrow> Some (gnc_price_lookup eng parsed book w \<noteq> None)))
      else None)"

section \<open>Reconciliation\<close>

fun reconcile_loop ::
  "mutation_env \<Rightarrow> (PendingEntry \<Rightarrow> bool option) \<Rightarrow> (PendingEntry \<Rightarrow> int64) \<Rightarrow> PendingEntry list \<Rightarrow> nat \<Rightarrow> Journal \<Rightarrow>
     (exn, nat) flow \<times> Journal" where
  "reconcile_loop env verdict now [] applied_count j = (Ret applied_count, j)"
| "reconcile_loop env verdict now (entry # entries) applied_count j =
     (if verdict entry = Some True
      then (case RecordOutcome (env_sqlite env) (env_outcome_pb env) (pe_mutation_id entry)
                   (ok_outcome (pe_rpc_name entry) (pe_pending_response entry)) (now entry) j of
              Inl e \<Rightarrow> (Throw e, j)
            | Inr j' \<Rightarrow> reconcile_loop env verdict now entries (applied_count + 1) j')
      else (case ClearPending (env_sqlite env) (pe_mutation_id entry) j of
              Inl e \<Rightarrow> (Throw e, j)
            | Inr j' \<Rightarrow> reconcile_loop env verdict now entries applied_count j'))"

definition ReconcilePendingMutations ::
  "mutation_env \<Rightarrow> row_order \<Rightarrow> recovery_pb \<Rightarrow> 'w engine \<Rightarrow> (PendingEntry \<Rightarrow> int64) \<Rightarrow> QofBook \<Rightarrow> 'w \<Rightarrow> Journal \<Rightarrow>
     (exn, nat) flow \<times> Journal" where
  "ReconcilePendingMutations env order_by pbs eng now book w j =
     or_throw (ListPendingUnresolved (env_sqlite env) order_by j) j (\<lambda>entries.
       reconcile_loop env (WasApplied pbs eng book w) now entries 0 j)"

section \<open>What reconciliation does to each mutation\<close>

text \<open>The entry reconciliation sees for an id, and what it decides from it.\<close>

definition pending_entry :: "Journal \<Rightarrow> string \<Rightarrow> PendingEntry option" where
  "pending_entry j mid =
     (case (intent_of j mid, pending_of j mid, outcome_of j mid) of
        (Some (rpc, pl), Some b, None) \<Rightarrow>
          Some \<lparr>pe_mutation_id = mid, pe_rpc_name = c_str rpc, pe_request_payload = pl, pe_pending_response = b\<rparr>
      | _ \<Rightarrow> None)"

definition entry_written :: "outcome_pb \<Rightarrow> (PendingEntry \<Rightarrow> bool option) \<Rightarrow> PendingEntry option \<Rightarrow> bytes option" where
  "entry_written pb verdict eo =
     (case eo of
        Some e \<Rightarrow> if verdict e = Some True
                  then Some (SerializeOutcome pb (ok_outcome (pe_rpc_name e) (pe_pending_response e))) else None
      | None \<Rightarrow> None)"

lemma pending_entryD:
  assumes "pending_entry j mid = Some e"
  shows "pe_mutation_id e = mid" "pending_of j mid = Some (pe_pending_response e)" "outcome_of j mid = None"
    "\<exists>rpc. intent_of j mid = Some (rpc, pe_request_payload e) \<and> pe_rpc_name e = c_str rpc"
  using assms by (auto simp: pending_entry_def split: option.splits)

lemma pending_entryI:
  "intent_of j mid = Some (rpc, pl) \<Longrightarrow> pending_of j mid = Some b \<Longrightarrow> outcome_of j mid = None \<Longrightarrow>
     pending_entry j mid =
       Some \<lparr>pe_mutation_id = mid, pe_rpc_name = c_str rpc, pe_request_payload = pl, pe_pending_response = b\<rparr>"
  by (simp add: pending_entry_def)

lemma pending_entries_exact:
  assumes ok: "journal_ok j" and nf: "no_faults sq" and ord: "sql_order_by order_by"
    and nul: "\<forall>mid. intent_of j mid \<noteq> None \<longrightarrow> CHR 0x00 \<notin> set mid"
  obtains es where "ListPendingUnresolved sq order_by j = Inr es" and "distinct (map pe_mutation_id es)"
    and "\<And>e. e \<in> set es \<longleftrightarrow> pending_entry j (pe_mutation_id e) = Some e"
proof -
  let ?pend = "filter (\<lambda>r. pending_response r \<noteq> None) (unresolved j)"
  let ?ent = "\<lambda>r. \<lparr>pe_mutation_id = c_str (mutation_id r), pe_rpc_name = c_str (rpc_name r),
     pe_request_payload = payload r, pe_pending_response = (case pending_response r of Some b \<Rightarrow> b | None \<Rightarrow> [])\<rparr>"
  have sub: "set (order_by ?pend) = set ?pend" by (rule order_by_facts(1) [OF ord])
  have ids: "map (pe_mutation_id \<circ> ?ent) (order_by ?pend) = map mutation_id (order_by ?pend)"
    by (rule map_cong [OF refl]) (use c_str_ids [OF nul] sub in \<open>auto simp: unresolved_def\<close>)
  have "distinct (map mutation_id ?pend)"
    using ok by (simp add: unresolved_def journal_ok_def map_filter_distinct)
  then have dist: "distinct (map pe_mutation_id (map ?ent (order_by ?pend)))"
    unfolding map_map ids by (rule order_by_facts(2) [OF ord])
  have row: "intent_row_of j (mutation_id r) = Some r" if "r \<in> set (intents j)" for r
    using ok that find_distinct_key [of mutation_id "intents j" r] by (simp add: journal_ok_def intent_row_of_def)
  have mem: "e \<in> set (map ?ent (order_by ?pend)) \<longleftrightarrow> pending_entry j (pe_mutation_id e) = Some e" for e
  proof
    assume "e \<in> set (map ?ent (order_by ?pend))"
    then obtain r where r: "r \<in> set ?pend" "e = ?ent r" using sub by auto
    then have "r \<in> set (intents j)" "mutation_id r \<notin> applied_id ` set (applied j)" by (auto simp: unresolved_def)
    with r show "pending_entry j (pe_mutation_id e) = Some e"
      using row outcome_of_None [of j "mutation_id r"] c_str_ids [OF nul]
      by (auto simp: pending_entry_def intent_of_def pending_of_def)
  next
    assume p: "pending_entry j (pe_mutation_id e) = Some e"
    then obtain r b where r: "intent_row_of j (pe_mutation_id e) = Some r" "pending_response r = Some b"
      "outcome_of j (pe_mutation_id e) = None"
      by (auto simp: pending_entry_def intent_of_def pending_of_def split: option.splits)
    then have "r \<in> set ?pend" "mutation_id r = pe_mutation_id e" "r \<in> set (intents j)"
      using intent_row_of_Some [OF r(1)] outcome_of_None [of j] by (auto simp: unresolved_def)
    moreover from p r have "e = ?ent r"
      using c_str_ids [OF nul \<open>r \<in> set (intents j)\<close>] calculation(2)
      by (auto simp: pending_entry_def intent_of_def pending_of_def)
    ultimately show "e \<in> set (map ?ent (order_by ?pend))" using sub by auto
  qed
  show thesis by (rule that [of "map ?ent (order_by ?pend)"]) (use nf dist mem in \<open>simp_all add: ListPendingUnresolved_def\<close>)
qed

lemma reconcile_loop_effect:
  assumes "journal_ok j" and nf: "no_faults (env_sqlite env)" and "distinct (map pe_mutation_id es)"
    and "\<forall>e \<in> set es. pending_entry j (pe_mutation_id e) = Some e"
  shows "\<exists>j'. reconcile_loop env verdict now es n j = (Ret (n + length (filter (\<lambda>e. verdict e = Some True) es)), j') \<and>
     journal_ok j' \<and> intent_of j' = intent_of j \<and>
     (\<forall>mid. mid \<notin> pe_mutation_id ` set es \<longrightarrow> pending_of j' mid = pending_of j mid \<and> outcome_of j' mid = outcome_of j mid) \<and>
     (\<forall>e \<in> set es. outcome_of j' (pe_mutation_id e) = entry_written (env_outcome_pb env) verdict (Some e) \<and>
        pending_of j' (pe_mutation_id e) = (if verdict e = Some True then Some (pe_pending_response e) else None))"
  using assms
proof (induction es arbitrary: n j)
  case (Cons e es)
  let ?m = "pe_mutation_id e"
  have nf': "stmt_fault (env_sqlite env) st m = None" for st m using nf by (simp add: no_faults_def)
  from Cons.prems(4) have "pending_entry j ?m = Some e" by simp
  from pending_entryD [OF this]
  have e: "intent_of j ?m \<noteq> None" "outcome_of j ?m = None" "pending_of j ?m = Some (pe_pending_response e)" by auto
  have step: "\<exists>j1. reconcile_loop env verdict now (e # es) n j =
        reconcile_loop env verdict now es (if verdict e = Some True then n + 1 else n) j1 \<and>
      journal_ok j1 \<and> intent_of j1 = intent_of j \<and>
      (\<forall>mid. mid \<noteq> ?m \<longrightarrow> pending_of j1 mid = pending_of j mid \<and> outcome_of j1 mid = outcome_of j mid) \<and>
      outcome_of j1 ?m = entry_written (env_outcome_pb env) verdict (Some e) \<and>
      pending_of j1 ?m = (if verdict e = Some True then Some (pe_pending_response e) else None)"
  proof (cases "verdict e = Some True")
    case True
    obtain j1 where j1: "RecordOutcome (env_sqlite env) (env_outcome_pb env) ?m
        (ok_outcome (pe_rpc_name e) (pe_pending_response e)) (now e) j = Inr j1"
      using RecordOutcome_succeeds [OF nf' e(1,2)] by blast
    with True e jr.put_outcome_law [OF Cons.prems(1) j1] show ?thesis by (auto simp: entry_written_def)
  next
    case False
    have j1: "ClearPending (env_sqlite env) ?m j = Inr (set_pending ?m None j)" using nf by (simp add: ClearPending_def)
    with False e Cons.prems(1) show ?thesis by (auto simp: entry_written_def)
  qed
  then obtain j1 where j1: "reconcile_loop env verdict now (e # es) n j =
        reconcile_loop env verdict now es (if verdict e = Some True then n + 1 else n) j1"
      "journal_ok j1" "intent_of j1 = intent_of j"
      "\<forall>mid. mid \<noteq> ?m \<longrightarrow> pending_of j1 mid = pending_of j mid \<and> outcome_of j1 mid = outcome_of j mid"
      "outcome_of j1 ?m = entry_written (env_outcome_pb env) verdict (Some e)"
      "pending_of j1 ?m = (if verdict e = Some True then Some (pe_pending_response e) else None)" by blast
  have rest: "\<forall>e' \<in> set es. pending_entry j1 (pe_mutation_id e') = Some e'" "?m \<notin> pe_mutation_id ` set es"
  proof -
    show fresh: "?m \<notin> pe_mutation_id ` set es" using Cons.prems(3) by auto
    show "\<forall>e' \<in> set es. pending_entry j1 (pe_mutation_id e') = Some e'"
    proof
      fix e' assume e': "e' \<in> set es"
      with fresh have "pe_mutation_id e' \<noteq> ?m" by (metis imageI)
      with e' Cons.prems(4) j1(3,4) show "pending_entry j1 (pe_mutation_id e') = Some e'"
        by (simp add: pending_entry_def)
    qed
  qed
  from Cons.IH [OF j1(2) nf _ rest(1), of "if verdict e = Some True then n + 1 else n"] Cons.prems(3)
  obtain j' where "reconcile_loop env verdict now es (if verdict e = Some True then n + 1 else n) j1 =
        (Ret ((if verdict e = Some True then n + 1 else n) + length (filter (\<lambda>e. verdict e = Some True) es)), j')"
      "journal_ok j'" "intent_of j' = intent_of j1"
      "\<forall>mid. mid \<notin> pe_mutation_id ` set es \<longrightarrow> pending_of j' mid = pending_of j1 mid \<and> outcome_of j' mid = outcome_of j1 mid"
      "\<forall>e \<in> set es. outcome_of j' (pe_mutation_id e) = entry_written (env_outcome_pb env) verdict (Some e) \<and>
        pending_of j' (pe_mutation_id e) = (if verdict e = Some True then Some (pe_pending_response e) else None)"
    by auto
  with j1 rest(2) show ?case by (intro exI [of _ j']) auto
qed simp

text \<open>
  Reconciliation as a function of the abstract journal: for every id on its own, from the
  entry it has.
\<close>

lemma reconcile_effect:
  assumes "journal_ok j" and "no_faults (env_sqlite env)" and "sql_order_by order_by"
    and "\<forall>mid. intent_of j mid \<noteq> None \<longrightarrow> CHR 0x00 \<notin> set mid"
  shows "\<exists>n j'. ReconcilePendingMutations env order_by pbs eng now book w j = (Ret n, j') \<and> journal_ok j' \<and>
     n = card {mid. \<exists>e. pending_entry j mid = Some e \<and> WasApplied pbs eng book w e = Some True} \<and>
     intent_of j' = intent_of j \<and>
     (\<forall>mid. case pending_entry j mid of
        None \<Rightarrow> pending_of j' mid = pending_of j mid \<and> outcome_of j' mid = outcome_of j mid
      | Some e \<Rightarrow>
          if WasApplied pbs eng book w e = Some True
          then pending_of j' mid = pending_of j mid \<and> outcome_of j' mid = Some (SerializeOutcome (env_outcome_pb env)
                 (ok_outcome (pe_rpc_name e) (pe_pending_response e)))
          else pending_of j' mid = None \<and> outcome_of j' mid = None)"
proof -
  let ?v = "WasApplied pbs eng book w"
  obtain es where es: "ListPendingUnresolved (env_sqlite env) order_by j = Inr es" "distinct (map pe_mutation_id es)"
    "\<And>e. e \<in> set es \<longleftrightarrow> pending_entry j (pe_mutation_id e) = Some e"
    using pending_entries_exact [OF assms] by blast
  note id = pending_entryD(1,2) [of j]
  obtain j' where j': "reconcile_loop env ?v now es 0 j = (Ret (length (filter (\<lambda>e. ?v e = Some True) es)), j')"
     "journal_ok j'" "intent_of j' = intent_of j"
     "\<forall>mid. mid \<notin> pe_mutation_id ` set es \<longrightarrow> pending_of j' mid = pending_of j mid \<and> outcome_of j' mid = outcome_of j mid"
     "\<forall>e \<in> set es. outcome_of j' (pe_mutation_id e) = entry_written (env_outcome_pb env) ?v (Some e) \<and>
        pending_of j' (pe_mutation_id e) = (if ?v e = Some True then Some (pe_pending_response e) else None)"
    using reconcile_loop_effect [OF assms(1,2) es(2), where verdict = ?v and now = now and n = 0] es(3) by auto
  let ?A = "filter (\<lambda>e. ?v e = Some True) es"
  have "distinct (map pe_mutation_id ?A)" using es(2) by (rule map_filter_distinct)
  then have "length ?A = card (pe_mutation_id ` set ?A)" by (metis distinct_card length_map set_map)
  also have "pe_mutation_id ` set ?A = {mid. \<exists>e. pending_entry j mid = Some e \<and> ?v e = Some True}"
  proof (intro set_eqI iffI)
    fix mid assume "mid \<in> pe_mutation_id ` set ?A"
    then show "mid \<in> {mid. \<exists>e. pending_entry j mid = Some e \<and> ?v e = Some True}" using es(3) by auto
  next
    fix mid assume "mid \<in> {mid. \<exists>e. pending_entry j mid = Some e \<and> ?v e = Some True}"
    then obtain e where e: "pending_entry j mid = Some e" "?v e = Some True" by blast
    with id(1) [OF e(1)] es(3) have "e \<in> set ?A" by simp
    with id(1) [OF e(1)] show "mid \<in> pe_mutation_id ` set ?A" by blast
  qed
  finally have "length ?A = card {mid. \<exists>e. pending_entry j mid = Some e \<and> ?v e = Some True}" .
  moreover have "case pending_entry j mid of
        None \<Rightarrow> pending_of j' mid = pending_of j mid \<and> outcome_of j' mid = outcome_of j mid
      | Some e \<Rightarrow>
          if ?v e = Some True
          then pending_of j' mid = pending_of j mid \<and> outcome_of j' mid = Some (SerializeOutcome (env_outcome_pb env)
                 (ok_outcome (pe_rpc_name e) (pe_pending_response e)))
          else pending_of j' mid = None \<and> outcome_of j' mid = None" for mid
  proof (cases "pending_entry j mid")
    case None
    then have "mid \<notin> pe_mutation_id ` set es" using es(3) by auto
    with None j'(4) show ?thesis by simp
  next
    case (Some e)
    with id [OF Some] es(3) have "e \<in> set es" "pe_mutation_id e = mid" "pending_of j mid = Some (pe_pending_response e)" by auto
    with Some j'(5) show ?thesis by (auto simp: entry_written_def)
  qed
  ultimately show ?thesis
    using es(1) j' by (auto simp: ReconcilePendingMutations_def)
qed

section \<open>Crash and restart\<close>

lemma valid_id_no_nul: "ValidateMutationId mid = Inr () \<Longrightarrow> CHR 0x00 \<notin> set mid"
proof
  assume v: "ValidateMutationId mid = Inr ()" and nul: "CHR 0x00 \<in> set mid"
  from nul obtain i where i: "i < length mid" "mid ! i = CHR 0x00" by (auto simp: in_set_conv_nth)
  with v have "(kPattern ! i, CHR 0x00) \<in> set (zip kPattern mid)"
    by (auto simp: ValidateMutationId_def set_zip)
  with v have "if kPattern ! i = CHR ''-'' then CHR 0x00 = CHR ''-'' else isxdigit CHR 0x00"
    by (auto simp: ValidateMutationId_def list_all_iff)
  then show False by (simp add: isxdigit_def split: if_splits)
qed

lemma journal_inv_no_nul: "journal_inv pb j \<Longrightarrow> \<forall>mid. intent_of j mid \<noteq> None \<longrightarrow> CHR 0x00 \<notin> set mid"
  by (auto simp: journal_inv_def dest: valid_id_no_nul)

text \<open>
  What a handler must offer beyond its plan for recovery to be able to judge it. \<open>reopened x\<close>
  is the book a daemon restarted from state \<open>x\<close> loads, and \<open>shown r w\<close> says that a book shows
  the effect of the mutation with response \<open>r\<close>. The calls considered are those from a state with
  \<open>pre\<close>: the uncommitted edit leaves no trace in the reopened book, and the check of
  \<^verbatim>\<open>WasApplied\<close> decides from the pending record whether the book shows the effect.
\<close>

locale judged_apply = planned_apply apply_fn plan
  for apply_fn :: "('r, 'x) ApplyFn" and plan :: "'x \<Rightarrow> (exn, 'r \<times> 'x \<times> 'x) flow" +
  fixes pre :: "'x \<Rightarrow> bool" and rpb :: "'r message_pb" and rpc :: string and request :: bytes
    and pbs :: recovery_pb and eng :: "'w engine" and book :: QofBook and reopened :: "'x \<Rightarrow> 'w"
    and shown :: "'r \<Rightarrow> 'w \<Rightarrow> bool"
  assumes uncommitted: "pre x \<Longrightarrow> plan x = Ret (r, x1, x2) \<Longrightarrow> reopened x1 = reopened x"
    and verdict: "pre x \<Longrightarrow> plan x = Ret (r, x1, x2) \<Longrightarrow>
      WasApplied pbs eng book w
        \<lparr>pe_mutation_id = mid, pe_rpc_name = c_str rpc, pe_request_payload = request,
         pe_pending_response = SerializeAsString rpb r\<rparr> = Some True \<longleftrightarrow> shown r w"
begin

text \<open>The entry a crash leaves for reconciliation, and the state beside it.\<close>

lemma crash_leaves_entry:
  assumes valid: "ValidateMutationId mid = Inr ()" and inv: "journal_inv (env_outcome_pb env) j"
    and rt: "outcome_pb_roundtrip (env_outcome_pb env)" and new: "intent_of j mid = None"
    and nf: "no_faults (env_sqlite env)" and crash: "env_crash_at env = Some point" "point \<in> set crash_points"
    and plan: "plan x = Ret (r, x1, x2)"
  obtains j' x' where "RunMutation_body env rpb mid request rpc apply_fn (j, x) = (Abort, (j', x'))"
    and "journal_inv (env_outcome_pb env) j'"
    and "x' = (if point = ''after_intent'' then x else if point = ''after_pending'' then x1 else x2)"
    and "pending_of j' mid = (if point = ''after_intent'' then None else Some (SerializeAsString rpb r))"
    and "outcome_of j' mid = (if point = ''after_outcome'' then Some (SerializeOutcome (env_outcome_pb env)
        (ok_outcome rpc (SerializeAsString rpb r))) else None)"
    and "pending_entry j' mid = (if point = ''after_pending'' \<or> point = ''after_apply''
      then Some \<lparr>pe_mutation_id = mid, pe_rpc_name = c_str rpc, pe_request_payload = request,
                 pe_pending_response = SerializeAsString rpb r\<rparr> else None)"
proof -
  have ok: "journal_ok j" using inv by (simp add: journal_inv_def)
  have fresh: "pending_of j mid = None" "outcome_of j mid = None"
    using new outcome_has_intent [OF ok, of mid]
    by (cases "outcome_of j mid"; auto simp: intent_of_def pending_of_def split: option.splits)+
  from body_crashes [OF valid ok fresh(2) nf crash plan, of rpb request rpc]
  obtain j' x' where run: "RunMutation_body env rpb mid request rpc apply_fn (j, x) = (Abort, (j', x'))"
    and int: "intent_of j' = (intent_of j)(mid := Some (rpc, request))"
    and cs: "call_state mid (j', x') = crash_state env rpb rpc None point x (r, x1, x2)"
    using new fresh by (auto simp: fun_eq_iff)
  have inv': "journal_inv (env_outcome_pb env) j'" using journal_writes_inv [OF body_writes [OF run] rt inv] .
  from cs have st: "x' = (if point = ''after_intent'' then x else if point = ''after_pending'' then x1 else x2)"
    "pending_of j' mid = (if point = ''after_intent'' then None else Some (SerializeAsString rpb r))"
    "outcome_of j' mid = (if point = ''after_outcome'' then Some (SerializeOutcome (env_outcome_pb env)
        (ok_outcome rpc (SerializeAsString rpb r))) else None)"
    using crash(2) by (auto simp: call_state_def crash_state_def crash_points_def Let_def split: if_splits)
  show thesis
    by (rule that [OF run inv' st])
      (use st(2,3) int crash(2) in \<open>auto simp: pending_entry_def crash_points_def split: if_splits\<close>)
qed

text \<open>
  What recovery makes of a crash, whatever the commit made of the edit: a recorded outcome is
  kept, and otherwise the book that the daemon reopens decides.
\<close>

lemma crash_judged:
  assumes valid: "ValidateMutationId mid = Inr ()" and inv: "journal_inv (env_outcome_pb env) j"
    and rt: "outcome_pb_roundtrip (env_outcome_pb env)" "message_pb_roundtrip rpb" and new: "intent_of j mid = None"
    and nf: "no_faults (env_sqlite env)" and crash: "env_crash_at env = Some point" "point \<in> set crash_points"
    and pre: "pre x" and plan: "plan x = Ret (r, x1, x2)"
    and env': "no_faults (env_sqlite env')" "env_outcome_pb env' = env_outcome_pb env" "env_crash_at env' = None"
    and ord: "sql_order_by order_by"
  shows "\<exists>j' x' n j''. RunMutation_body env rpb mid request rpc apply_fn (j, x) = (Abort, (j', x')) \<and>
     ReconcilePendingMutations env' order_by pbs eng now book (reopened x') j' = (Ret n, j'') \<and> journal_ok j'' \<and>
     x' = (if point = ''after_intent'' then x else if point = ''after_pending'' then x1 else x2) \<and>
     (point = ''after_intent'' \<or> point = ''after_pending'' \<longrightarrow> reopened x' = reopened x) \<and>
     (if point = ''after_outcome'' \<or> (point \<noteq> ''after_intent'' \<and> shown r (reopened x'))
      then \<forall>y. RunMutation_body env' rpb mid request rpc apply_fn (j'', y) = (Ret r, (j'', y))
      else outcome_of j'' mid = None \<and> pending_of j'' mid = None)"
proof -
  obtain j' x' where run: "RunMutation_body env rpb mid request rpc apply_fn (j, x) = (Abort, (j', x'))"
    and inv': "journal_inv (env_outcome_pb env) j'"
    and st: "x' = (if point = ''after_intent'' then x else if point = ''after_pending'' then x1 else x2)"
      "pending_of j' mid = (if point = ''after_intent'' then None else Some (SerializeAsString rpb r))"
      "outcome_of j' mid = (if point = ''after_outcome'' then Some (SerializeOutcome (env_outcome_pb env)
        (ok_outcome rpc (SerializeAsString rpb r))) else None)"
    and entry: "pending_entry j' mid = (if point = ''after_pending'' \<or> point = ''after_apply''
      then Some \<lparr>pe_mutation_id = mid, pe_rpc_name = c_str rpc, pe_request_payload = request,
                 pe_pending_response = SerializeAsString rpb r\<rparr> else None)"
    by (rule crash_leaves_entry [OF valid inv rt(1) new nf crash plan])
  have ok': "journal_ok j'" using inv' by (simp add: journal_inv_def)
  note nul = journal_inv_no_nul [OF inv']
  obtain n j'' where rec: "ReconcilePendingMutations env' order_by pbs eng now book (reopened x') j' = (Ret n, j'')" "journal_ok j''"
    and eff: "case pending_entry j' mid of
        None \<Rightarrow> pending_of j'' mid = pending_of j' mid \<and> outcome_of j'' mid = outcome_of j' mid
      | Some e \<Rightarrow>
          if WasApplied pbs eng book (reopened x') e = Some True
          then pending_of j'' mid = pending_of j' mid \<and> outcome_of j'' mid = Some (SerializeOutcome (env_outcome_pb env')
                 (ok_outcome (pe_rpc_name e) (pe_pending_response e)))
          else pending_of j'' mid = None \<and> outcome_of j'' mid = None"
    using reconcile_effect [OF ok' env'(1) ord nul, of pbs eng now book "reopened x'"] by blast
  let ?kept = "point = ''after_outcome'' \<or> (point \<noteq> ''after_intent'' \<and> shown r (reopened x'))"
  note judged = verdict [OF pre plan]
  have lost: "outcome_of j'' mid = None \<and> pending_of j'' mid = None" if "\<not> ?kept"
    using that eff entry st(2,3) judged crash(2) by (auto simp: crash_points_def split: if_splits)
  have kept: "\<exists>rn. outcome_of j'' mid = Some (SerializeOutcome (env_outcome_pb env)
      (ok_outcome rn (SerializeAsString rpb r)))" if ?kept
    using that eff entry st(2,3) judged crash(2) env'(2) by (auto simp: crash_points_def split: if_splits)
  have same: "reopened x' = reopened x" if "point = ''after_intent'' \<or> point = ''after_pending''"
    using that st(1) uncommitted [OF pre plan] by auto
  have "RunMutation_body env' rpb mid request rpc apply_fn (j'', y) = (Ret r, (j'', y))" if ?kept for y
  proof -
    from kept [OF that] obtain rn where "outcome_of j'' mid = Some (SerializeOutcome (env_outcome_pb env)
      (ok_outcome rn (SerializeAsString rpb r)))" by blast
    from recorded_replays [OF valid rec(2) this _ _ env'(1,3), of "ok_outcome rn (SerializeAsString rpb r)" rpb rpc r] env'(2) rt
    show ?thesis by (simp add: outcome_pb_roundtrip_def message_pb_roundtrip_def replay_def ok_outcome_def)
  qed
  with lost have "if ?kept then \<forall>y. RunMutation_body env' rpb mid request rpc apply_fn (j'', y) = (Ret r, (j'', y))
      else outcome_of j'' mid = None \<and> pending_of j'' mid = None" by simp
  with same have "(point = ''after_intent'' \<or> point = ''after_pending'' \<longrightarrow> reopened x' = reopened x) \<and>
     (if ?kept then \<forall>y. RunMutation_body env' rpb mid request rpc apply_fn (j'', y) = (Ret r, (j'', y))
      else outcome_of j'' mid = None \<and> pending_of j'' mid = None)" by blast
  with run rec st(1) show ?thesis by blast
qed

end

text \<open>A handler whose commit is also known to reach the database: what was committed is never lost.\<close>

locale recoverable_apply = judged_apply +
  assumes committed: "pre x \<Longrightarrow> plan x = Ret (r, x1, x2) \<Longrightarrow> shown r (reopened x2)"
begin

lemma crash_recovers:
  assumes valid: "ValidateMutationId mid = Inr ()" and inv: "journal_inv (env_outcome_pb env) j"
    and rt: "outcome_pb_roundtrip (env_outcome_pb env)" "message_pb_roundtrip rpb" and new: "intent_of j mid = None"
    and nf: "no_faults (env_sqlite env)" and crash: "env_crash_at env = Some point" "point \<in> set crash_points"
    and pre: "pre x" and plan: "plan x = Ret (r, x1, x2)"
    and env': "no_faults (env_sqlite env')" "env_outcome_pb env' = env_outcome_pb env" "env_crash_at env' = None"
    and ord: "sql_order_by order_by"
  shows "\<exists>j' x' n j''. RunMutation_body env rpb mid request rpc apply_fn (j, x) = (Abort, (j', x')) \<and>
     ReconcilePendingMutations env' order_by pbs eng now book (reopened x') j' = (Ret n, j'') \<and> journal_ok j'' \<and>
     x' = (if point = ''after_intent'' then x else if point = ''after_pending'' then x1 else x2) \<and>
     (if point = ''after_intent'' \<or> (point = ''after_pending'' \<and> \<not> shown r (reopened x))
      then reopened x' = reopened x \<and> outcome_of j'' mid = None \<and> pending_of j'' mid = None
      else shown r (reopened x') \<and>
           (\<forall>y. RunMutation_body env' rpb mid request rpc apply_fn (j'', y) = (Ret r, (j'', y))))"
proof -
  from crash_judged [OF assms, of now] obtain j' x' n j'' where
    run: "RunMutation_body env rpb mid request rpc apply_fn (j, x) = (Abort, (j', x'))"
      "ReconcilePendingMutations env' order_by pbs eng now book (reopened x') j' = (Ret n, j'')" "journal_ok j''"
    and x': "x' = (if point = ''after_intent'' then x else if point = ''after_pending'' then x1 else x2)"
    and same: "point = ''after_intent'' \<or> point = ''after_pending'' \<longrightarrow> reopened x' = reopened x"
    and judged: "if point = ''after_outcome'' \<or> (point \<noteq> ''after_intent'' \<and> shown r (reopened x'))
      then \<forall>y. RunMutation_body env' rpb mid request rpc apply_fn (j'', y) = (Ret r, (j'', y))
      else outcome_of j'' mid = None \<and> pending_of j'' mid = None" by blast
  let ?lost = "point = ''after_intent'' \<or> (point = ''after_pending'' \<and> \<not> shown r (reopened x))"
  have "shown r (reopened x')" if "\<not> ?lost" using that x' same committed [OF pre plan] by (auto split: if_splits)
  with judged same have "if ?lost then reopened x' = reopened x \<and> outcome_of j'' mid = None \<and> pending_of j'' mid = None
      else shown r (reopened x') \<and> (\<forall>y. RunMutation_body env' rpb mid request rpc apply_fn (j'', y) = (Ret r, (j'', y)))"
    by (auto split: if_splits)
  with run x' show ?thesis by blast
qed

end

section \<open>Properties\<close>

text \<open>
  C7. Startup reconciliation decides every pending mutation on its own and leaves nothing
  half-decided: on a well-formed journal it succeeds, an id with a pending record and no
  outcome gets its pending response as successful outcome exactly when the book shows the
  mutation applied and loses the pending record otherwise, every other id keeps what it had,
  and the count it returns is the number of mutations it found applied.
\<close>
theorem reconciliation_exact:
  assumes "journal_ok j" and "no_faults (env_sqlite env)" and "sql_order_by order_by"
    and "\<forall>mid. intent_of j mid \<noteq> None \<longrightarrow> CHR 0x00 \<notin> set mid"
  shows "\<exists>n j'. ReconcilePendingMutations env order_by pbs eng now book w j = (Ret n, j') \<and> journal_ok j' \<and>
     n = card {mid. \<exists>e. pending_entry j mid = Some e \<and> WasApplied pbs eng book w e = Some True} \<and>
     intent_of j' = intent_of j \<and>
     (\<forall>mid. case pending_entry j mid of
        None \<Rightarrow> pending_of j' mid = pending_of j mid \<and> outcome_of j' mid = outcome_of j mid
      | Some e \<Rightarrow>
          if WasApplied pbs eng book w e = Some True
          then pending_of j' mid = pending_of j mid \<and> outcome_of j' mid = Some (SerializeOutcome (env_outcome_pb env)
                 (ok_outcome (pe_rpc_name e) (pe_pending_response e)))
          else pending_of j' mid = None \<and> outcome_of j' mid = None)"
  by (rule reconcile_effect [OF assms])

end
