(* ===== verification/Ordered_Map.thy ===== *)
theory Ordered_Map
  imports Prelude "HOL-Library.Char_ord" "HOL-Library.List_Lexorder" "HOL-Library.Product_Lexorder"
begin

text \<open>
  The use the sources make of \<^verbatim>\<open>std::map\<close>: \<^verbatim>\<open>try_emplace\<close> with an initial value, an update of
  the entry it returns, and iteration in key order. A map is its list of entries in
  iteration order; keys are compared as \<^verbatim>\<open>std::string\<close> and \<^verbatim>\<open>std::pair\<close> compare, which is the
  lexicographic order of the library.
\<close>

fun upsert :: "'k :: linorder \<Rightarrow> 'v \<Rightarrow> ('v \<Rightarrow> 'v) \<Rightarrow> ('k \<times> 'v) list \<Rightarrow> ('k \<times> 'v) list" where
  "upsert k d f [] = [(k, f d)]"
| "upsert k d f ((k', v) # m) =
     (if k = k' then (k', f v) # m
      else if k < k' then (k, f d) # (k', v) # m
      else (k', v) # upsert k d f m)"

definition ordered_map :: "('k :: linorder \<times> 'v) list \<Rightarrow> bool" where
  "ordered_map m \<longleftrightarrow> sorted_wrt (<) (map fst m)"

lemma ordered_map_Nil [simp]: "ordered_map []"
  by (simp add: ordered_map_def)

lemma upsert_keys [simp]: "fst ` set (upsert k d f m) = insert k (fst ` set m)"
  by (induction k d f m rule: upsert.induct) auto

lemma upsert_ordered [simp]: "ordered_map m \<Longrightarrow> ordered_map (upsert k d f m)"
proof (induction k d f m rule: upsert.induct)
  case (2 k d f k' v m)
  then have "\<not> k < k' \<Longrightarrow> k \<noteq> k' \<Longrightarrow> ordered_map (upsert k d f m)" by (auto simp: ordered_map_def)
  moreover have "fst ` set (upsert k d f m) = insert k (fst ` set m)" by simp
  ultimately show ?case using 2(2) by (auto simp: ordered_map_def)
qed (simp add: ordered_map_def)

lemma ordered_map_distinct: "ordered_map m \<Longrightarrow> distinct (map fst m)"
  by (simp add: ordered_map_def strict_sorted_iff)

lemma upsert_lookup:
  "ordered_map m \<Longrightarrow>
     map_of (upsert k d f m) = (map_of m)(k \<mapsto> f (case map_of m k of Some v \<Rightarrow> v | None \<Rightarrow> d))"
proof (induction k d f m rule: upsert.induct)
  case (2 k d f k' v m)
  show ?case
  proof (cases "k = k' \<or> \<not> k < k'")
    case True
    with 2 show ?thesis by (auto simp: ordered_map_def fun_eq_iff split: option.splits)
  next
    case False
    with 2(2) have "k \<notin> fst ` set m" by (fastforce simp: ordered_map_def)
    then have "map_of m k = None" by (simp add: map_of_eq_None_iff)
    with False show ?thesis by auto
  qed
qed simp

text \<open>Grouping: each key collects, in list order, the elements that have it.\<close>

definition group_fold :: "('a \<Rightarrow> ('k :: linorder) option) \<Rightarrow> ('a \<Rightarrow> 'v) \<Rightarrow> ('a \<Rightarrow> 'v \<Rightarrow> 'v) \<Rightarrow> 'a list \<Rightarrow> ('k \<times> 'v) list" where
  "group_fold key d f xs =
     foldl (\<lambda>m x. case key x of None \<Rightarrow> m | Some k \<Rightarrow> upsert k (d x) (f x) m) [] xs"

definition with_key :: "('a \<Rightarrow> 'k option) \<Rightarrow> 'k \<Rightarrow> 'a list \<Rightarrow> 'a list" where
  "with_key key k xs = filter (\<lambda>x. key x = Some k) xs"

lemma group_fold_snoc:
  "group_fold key d f (xs @ [x]) =
     (case key x of None \<Rightarrow> group_fold key d f xs | Some k \<Rightarrow> upsert k (d x) (f x) (group_fold key d f xs))"
  by (simp add: group_fold_def split: option.split)

lemma group_fold_ordered [simp]: "ordered_map (group_fold key d f xs)"
  by (induction xs rule: rev_induct) (simp_all add: group_fold_snoc group_fold_def [of _ _ _ "[]"] split: option.splits)

lemma group_fold_lookup:
  "map_of (group_fold key d f xs) k =
     (case with_key key k xs of
        [] \<Rightarrow> None
      | x # _ \<Rightarrow> Some (foldl (\<lambda>v y. f y v) (d x) (with_key key k xs)))"
proof (induction xs rule: rev_induct)
  case Nil
  then show ?case by (simp add: group_fold_def with_key_def)
next
  case (snoc x xs)
  then show ?case
    by (auto simp: group_fold_snoc with_key_def upsert_lookup split: option.splits list.splits)
qed

lemma group_fold_entries:
  "(k, v) \<in> set (group_fold key d f xs) \<longleftrightarrow>
     (\<exists>x ys. with_key key k xs = x # ys \<and> v = foldl (\<lambda>v y. f y v) (d x) (x # ys))"
proof -
  have "(k, v) \<in> set (group_fold key d f xs) \<longleftrightarrow> map_of (group_fold key d f xs) k = Some v"
    using ordered_map_distinct [OF group_fold_ordered [of key d f xs]] by auto
  then show ?thesis by (auto simp: group_fold_lookup split: list.splits)
qed

lemma with_key_Nil: "with_key key k xs = [] \<longleftrightarrow> (\<forall>x \<in> set xs. key x \<noteq> Some k)"
  by (simp add: with_key_def filter_empty_conv)

lemma with_key_ConsD: "with_key key k xs = y # ys \<Longrightarrow> key y = Some k"
  unfolding with_key_def by (drule Cons_eq_filterD [OF sym]) auto

lemma group_fold_keys: "fst ` set (group_fold key d f xs) = {k. \<exists>x \<in> set xs. key x = Some k}"
proof -
  have "k \<in> fst ` set (group_fold key d f xs) \<longleftrightarrow> with_key key k xs \<noteq> []" for k
    using map_of_eq_None_iff [of "group_fold key d f xs" k] group_fold_lookup [of key d f xs k]
    by (auto split: list.splits)
  then show ?thesis by (auto simp: with_key_Nil)
qed

end
