(* ===== verification/Session.thy ===== *)
theory Session
  imports Engine_Map Ordered_Map
begin

text \<open>
  \<^verbatim>\<open>src/engine/session.{h,cpp}\<close> and \<^verbatim>\<open>src/util/fail_point.h\<close>: the engine session of the one
  book. The members of the class are a record; \<open>session_api\<close> holds the \<^verbatim>\<open>qof_session_*\<close> calls,
  and \<open>gnclock_env\<close> what SQLite and the operating system answer about the book's lock rows.
\<close>

section \<open>State\<close>

type_synonym QofSession = nat

record Config =
  book_uri :: string
  read_only :: bool

record Session =
  config :: Config
  session_ptr :: "QofSession option"  \<comment> \<open>\<^verbatim>\<open>session_\<close>\<close>
  open_flag :: bool  \<comment> \<open>\<^verbatim>\<open>open_\<close>\<close>

definition new_Session :: "Config \<Rightarrow> Session" where
  "new_Session cfg = \<lparr>config = cfg, session_ptr = None, open_flag = False\<rparr>"

type_synonym 'w engine_side = "Session \<times> 'w"

datatype QofBackendError =
    ERR_BACKEND_NO_ERR | ERR_BACKEND_LOCKED | ERR_BACKEND_READONLY | ERR_BACKEND_PERM
  | ERR_BACKEND_other int

datatype SessionOpenMode = SESSION_READ_ONLY | SESSION_NORMAL_OPEN | SESSION_BREAK_LOCK | SESSION_NEW_STORE

record 'w session_api =
  qof_session_new :: "'w \<Rightarrow> QofSession \<times> 'w"  \<comment> \<open>on a new \<^verbatim>\<open>QofBook\<close>\<close>
  qof_session_begin :: "QofSession \<Rightarrow> string \<Rightarrow> SessionOpenMode \<Rightarrow> 'w \<Rightarrow> 'w"
  qof_session_get_error :: "QofSession \<Rightarrow> 'w \<Rightarrow> QofBackendError"
  qof_session_get_error_message :: "QofSession \<Rightarrow> 'w \<Rightarrow> string option"
  qof_session_load :: "QofSession \<Rightarrow> 'w \<Rightarrow> 'w"
  qof_session_save :: "QofSession \<Rightarrow> 'w \<Rightarrow> 'w"
  qof_session_end :: "QofSession \<Rightarrow> 'w \<Rightarrow> 'w"
  qof_session_destroy :: "QofSession \<Rightarrow> 'w \<Rightarrow> 'w"
  qof_session_get_book :: "QofSession \<Rightarrow> 'w \<Rightarrow> QofBook"
  backend_error_int :: "QofBackendError \<Rightarrow> int"  \<comment> \<open>the enumerator's value\<close>

section \<open>Process-wide initialization\<close>

record 'w global_api =
  gnc_environment_setup :: "'w \<Rightarrow> 'w"
  gnc_filepath_init :: "'w \<Rightarrow> 'w"
  qof_log_init :: "'w \<Rightarrow> 'w"
  qof_log_set_level_warning :: "'w \<Rightarrow> 'w"  \<comment> \<open>for every module\<close>
  gnc_engine_init :: "'w \<Rightarrow> 'w"
  gnc_engine_shutdown :: "'w \<Rightarrow> 'w"

definition GlobalInit :: "'w global_api \<Rightarrow> 'w \<Rightarrow> 'w" where
  "GlobalInit ga w =
     gnc_engine_init ga (qof_log_set_level_warning ga (qof_log_init ga (gnc_filepath_init ga (gnc_environment_setup ga w))))"

definition GlobalShutdown :: "'w global_api \<Rightarrow> 'w \<Rightarrow> 'w" where
  "GlobalShutdown ga w = gnc_engine_shutdown ga w"

section \<open>Helpers\<close>

definition HasSupportedScheme :: "string \<Rightarrow> bool" where
  "HasSupportedScheme uri \<longleftrightarrow> starts_with uri ''sqlite3://'' \<or> starts_with uri ''postgres://''"

definition Sqlite3Path :: "string \<Rightarrow> string" where
  "Sqlite3Path uri = (if starts_with uri ''sqlite3://'' then drop (length ''sqlite3://'') uri else [])"

definition BackendError ::
  "'w session_api \<Rightarrow> QofBackendError \<Rightarrow> string option \<Rightarrow> string \<Rightarrow> ShimError" where
  "BackendError api error engine_message uri =
     (let message =
        (case engine_message of
           Some m \<Rightarrow> if m \<noteq> [] then m else ''backend error '' @ to_string (backend_error_int api error)
         | None \<Rightarrow> ''backend error '' @ to_string (backend_error_int api error))
      in case error of
           ERR_BACKEND_LOCKED \<Rightarrow> shim_error ERROR_CODE_BOOK_LOCKED message uri
         | ERR_BACKEND_READONLY \<Rightarrow> shim_error ERROR_CODE_READ_ONLY_BOOK message uri
         | ERR_BACKEND_PERM \<Rightarrow> shim_error ERROR_CODE_READ_ONLY_BOOK message uri
         | _ \<Rightarrow> shim_error ERROR_CODE_ENGINE_ERROR message uri)"

definition ThrowOnSessionError :: "'w session_api \<Rightarrow> QofSession \<Rightarrow> string \<Rightarrow> 'w \<Rightarrow> exn + unit" where
  "ThrowOnSessionError api session uri w =
     (let error = qof_session_get_error api session w in
      if error = ERR_BACKEND_NO_ERR then Inr ()
      else Inl (ExShim (BackendError api error (qof_session_get_error_message api session w) uri)))"

definition FailPointMaybe :: "string option \<Rightarrow> string \<Rightarrow> exn + unit" where
  "FailPointMaybe fail_at name =
     (if fail_at = Some name
      then Inl (ExShim (shim_error ERROR_CODE_ENGINE_ERROR ''injected failure at fail point'' name))
      else Inr ())"

section \<open>The book's lock\<close>

text \<open>
  \<open>gl_rows path\<close> are the rows of \<^verbatim>\<open>gnclock\<close> up to the end of the scan and whether the scan
  ended with \<^verbatim>\<open>SQLITE_DONE\<close>; \<open>gl_dead pid\<close> says that \<^verbatim>\<open>kill(pid, 0)\<close> failed with \<^verbatim>\<open>ESRCH\<close>.
\<close>

record gnclock_env =
  gl_open_ok :: "string \<Rightarrow> bool"
  gl_prepare_ok :: "string \<Rightarrow> bool"
  gl_rows :: "string \<Rightarrow> (string option \<times> int64) list"
  gl_done :: "string \<Rightarrow> bool"
  gl_host :: string
  gl_dead :: "int \<Rightarrow> bool"

text \<open>\<^verbatim>\<open>static_cast<pid_t>\<close> of a 64-bit integer.\<close>

definition pid_t :: "int64 \<Rightarrow> int" where
  "pid_t i = sint (word_of_int i :: 32 word)"

fun rows_stale :: "gnclock_env \<Rightarrow> bool \<Rightarrow> (string option \<times> int64) list \<Rightarrow> bool" where
  "rows_stale ge rc_done [] = rc_done"
| "rows_stale ge rc_done ((row_host, row_pid) # rows) =
     (let same_host = (case row_host of Some h \<Rightarrow> c_str h = gl_host ge | None \<Rightarrow> False);
          dead = gl_dead ge (pid_t row_pid)
      in if \<not> (same_host \<and> dead) then False else rows_stale ge rc_done rows)"

definition GncLockIsProvablyStale :: "gnclock_env \<Rightarrow> string \<Rightarrow> bool" where
  "GncLockIsProvablyStale ge uri =
     (let path = Sqlite3Path uri in
      if path = [] then False
      else if \<not> gl_open_ok ge path then False
      else if \<not> gl_prepare_ok ge path then False
      else rows_stale ge (gl_done ge path) (gl_rows ge path))"

section \<open>Open, Close, book\<close>

definition Session_Open ::
  "'w session_api \<Rightarrow> gnclock_env \<Rightarrow> 'w engine_side \<Rightarrow> (exn, unit) flow \<times> 'w engine_side" where
  "Session_Open api ge x =
     (case x of (s, w) \<Rightarrow>
       if session_ptr s \<noteq> None then (Ret (), x)
       else if \<not> HasSupportedScheme (book_uri (config s))
       then (Throw (invalid_argument (''unsupported book URI scheme; only sqlite3:// and '' @
                      ''postgres:// books are crash-safe'') (book_uri (config s))), x)
       else
         let uri = book_uri (config s);
             (session, w1) = qof_session_new api w;
             w2 = qof_session_begin api session (c_str uri)
                    (if read_only (config s) then SESSION_READ_ONLY else SESSION_NORMAL_OPEN) w1;
             w3 = (if qof_session_get_error api session w2 = ERR_BACKEND_LOCKED \<and> \<not> read_only (config s)
                   then if \<not> starts_with uri ''sqlite3://'' \<or> GncLockIsProvablyStale ge uri
                        then qof_session_begin api session (c_str uri) SESSION_BREAK_LOCK w2 else w2
                   else w2);
             error = qof_session_get_error api session w3
         in if error \<noteq> ERR_BACKEND_NO_ERR
            then (Throw (ExShim (BackendError api error (qof_session_get_error_message api session w3) uri)),
                  (s, qof_session_destroy api session w3))
            else
              let w4 = qof_session_load api session w3;
                  error' = qof_session_get_error api session w4
              in if error' \<noteq> ERR_BACKEND_NO_ERR
                 then (Throw (ExShim (BackendError api error' (qof_session_get_error_message api session w4) uri)),
                       (s, qof_session_destroy api session (qof_session_end api session w4)))
                 else (Ret (), (s\<lparr>session_ptr := Some session, open_flag := True\<rparr>, w4)))"

text \<open>The \<^verbatim>\<open>try\<close> block of \<^verbatim>\<open>Close\<close>: the save error, if any, and the world it leaves.\<close>

definition close_save ::
  "'w session_api \<Rightarrow> string option \<Rightarrow> string \<Rightarrow> QofSession \<Rightarrow> 'w \<Rightarrow> exn option \<times> 'w" where
  "close_save api fail_at uri session w =
     (case FailPointMaybe fail_at ''session_close_save'' of
        Inl e \<Rightarrow> (Some e, w)
      | Inr _ \<Rightarrow>
          (let w1 = qof_session_save api session w in
           (case ThrowOnSessionError api session uri w1 of Inl e \<Rightarrow> (Some e, w1) | Inr _ \<Rightarrow> (None, w1))))"

definition Session_Close ::
  "'w session_api \<Rightarrow> string option \<Rightarrow> 'w engine_side \<Rightarrow> (exn, unit) flow \<times> 'w engine_side" where
  "Session_Close api fail_at x =
     (case x of (s, w) \<Rightarrow>
       (case session_ptr s of
          None \<Rightarrow> (Ret (), x)
        | Some session \<Rightarrow>
            (let s1 = s\<lparr>open_flag := False\<rparr>;
                 (save_error, w1) =
                   (if \<not> read_only (config s) then close_save api fail_at (book_uri (config s)) session w
                    else (None, w));
                 w2 = qof_session_destroy api session (qof_session_end api session w1);
                 s2 = s1\<lparr>session_ptr := None\<rparr>
             in (case save_error of Some e \<Rightarrow> Throw e | None \<Rightarrow> Ret (), (s2, w2)))))"

text \<open>The destructor swallows the save error.\<close>

definition Session_destructor :: "'w session_api \<Rightarrow> string option \<Rightarrow> 'w engine_side \<Rightarrow> 'w engine_side" where
  "Session_destructor api fail_at x =
     (if session_ptr (fst x) = None then x else snd (Session_Close api fail_at x))"

definition is_open :: "Session \<Rightarrow> bool" where
  "is_open s = open_flag s"

definition Session_book :: "'w session_api \<Rightarrow> 'w engine_side \<Rightarrow> exn + QofBook" where
  "Session_book api x =
     (case session_ptr (fst x) of
        None \<Rightarrow> Inl (ExShim (shim_error ERROR_CODE_BOOK_NOT_OPEN ''no book is open'' []))
      | Some session \<Rightarrow> Inr (qof_session_get_book api session (snd x)))"

definition root_account :: "'w engine \<Rightarrow> 'w session_api \<Rightarrow> 'w engine_side \<Rightarrow> exn + Account" where
  "root_account eng api x =
     map_result (\<lambda>book. gnc_book_get_root_account eng book (snd x)) (Session_book api x)"

section \<open>Startup checks\<close>

definition split_currency :: "'w engine \<Rightarrow> 'w \<Rightarrow> Split \<Rightarrow> gnc_commodity option" where
  "split_currency eng w sp = xaccTransGetCurrency (trans_at eng (xaccSplitGetParent (split_at eng sp w)) w)"

definition currency_key :: "'w engine \<Rightarrow> 'w \<Rightarrow> Split \<Rightarrow> string option" where
  "currency_key eng w sp =
     map_option (\<lambda>c. gnc_commodity_get_namespace (commodity_at eng c w) @ '':'' @
                     gnc_commodity_get_mnemonic (commodity_at eng c w)) (split_currency eng w sp)"

definition txn_imbalanced :: "'w engine \<Rightarrow> 'w \<Rightarrow> Split \<Rightarrow> bool" where
  "txn_imbalanced eng w sp \<longleftrightarrow>
     \<not> gnc_numeric_zero_p (lib eng)
         (xaccTransGetImbalanceValue (trans_at eng (xaccSplitGetParent (split_at eng sp w)) w))"

text \<open>
  One pass over the splits, as the loop makes it: the GUID of the first imbalanced
  transaction (while none is named yet) and the per-currency sums.
\<close>

definition startup_step ::
  "'w engine \<Rightarrow> 'w \<Rightarrow> string \<times> (string \<times> gnc_numeric) list \<Rightarrow> Split \<Rightarrow> string \<times> (string \<times> gnc_numeric) list" where
  "startup_step eng w acc sp =
     (case acc of (imbalanced_txn, sums) \<Rightarrow>
       let transaction = xaccSplitGetParent (split_at eng sp w);
           imbalanced_txn' =
             (if imbalanced_txn = [] \<and> txn_imbalanced eng w sp
              then GuidToString (lib eng) (trans_guid (trans_at eng transaction w)) else imbalanced_txn)
       in (imbalanced_txn',
           case currency_key eng w sp of
             None \<Rightarrow> sums
           | Some k \<Rightarrow>
               upsert k gnc_numeric_zero
                 (\<lambda>sum. gnc_numeric_add (lib eng) sum (xaccSplitGetValue (split_at eng sp w))) sums))"

definition RunStartupChecks :: "'w engine \<Rightarrow> 'w session_api \<Rightarrow> 'w engine_side \<Rightarrow> exn + unit" where
  "RunStartupChecks eng api x =
     and_then (Session_book api x) (\<lambda>current_book.
       case foldl (startup_step eng (snd x)) ([], []) (qof_query_run eng current_book [] (snd x)) of
         (imbalanced_txn, sums) \<Rightarrow>
           if imbalanced_txn \<noteq> []
           then Inl (ExShim (shim_error ERROR_CODE_ENGINE_ERROR
                  ''startup check failed: imbalanced transaction'' imbalanced_txn))
           else (case find (\<lambda>(_, sum). \<not> gnc_numeric_zero_p (lib eng) sum) sums of
                   Some (currency, _) \<Rightarrow>
                     Inl (ExShim (shim_error ERROR_CODE_ENGINE_ERROR
                       ''startup check failed: trial balance is nonzero'' currency))
                 | None \<Rightarrow> Inr ()))"

section \<open>Dead lock rows\<close>

definition dead_row :: "gnclock_env \<Rightarrow> string option \<times> int64 \<Rightarrow> bool" where
  "dead_row ge r \<longleftrightarrow> (\<exists>h. fst r = Some h \<and> c_str h = gl_host ge) \<and> gl_dead ge (pid_t (snd r))"

lemma rows_stale_iff: "rows_stale ge rc rows \<longleftrightarrow> rc \<and> list_all (dead_row ge) rows"
  by (induction ge rc rows rule: rows_stale.induct) (auto simp: dead_row_def Let_def split: option.splits)

section \<open>The session as a state machine\<close>

text \<open>
  What the daemon ever does to the session object: open it, close it, and run engine calls
  that do not touch it.
\<close>

inductive session_step :: "'w session_api \<Rightarrow> 'w engine_side \<Rightarrow> 'w engine_side \<Rightarrow> bool" for api where
  st_open: "Session_Open api ge x = (fl, x') \<Longrightarrow> session_step api x x'"
| st_close: "Session_Close api fail_at x = (fl, x') \<Longrightarrow> session_step api x x'"
| st_engine: "session_step api (s, w) (s, w')"

definition session_inv :: "Session \<Rightarrow> bool" where
  "session_inv s \<longleftrightarrow> open_flag s = (session_ptr s \<noteq> None)"

lemma new_Session_inv [simp]: "session_inv (new_Session cfg)"
  by (simp add: session_inv_def new_Session_def)

lemma closed_is_new: "session_inv s \<Longrightarrow> session_ptr s = None \<Longrightarrow> s = new_Session (config s)"
  by (cases s) (simp add: session_inv_def new_Session_def)

lemma Session_Open_cases:
  assumes "Session_Open api ge (s, w) = (fl, (s', w'))"
  shows "(fl = Ret () \<and> session_ptr s \<noteq> None \<and> s' = s \<and> w' = w) \<or>
         (fl = Ret () \<and> (\<exists>q. s' = s\<lparr>session_ptr := Some q, open_flag := True\<rparr>)) \<or>
         (\<exists>se. fl = Throw (ExShim se) \<and> session_ptr s = None \<and> s' = s)"
  using assms
  by (auto simp: Session_Open_def Let_def invalid_argument_def split: if_splits prod.splits)

lemma close_save_shim: "close_save api fail_at uri q w = (Some e, w') \<Longrightarrow> \<exists>se. e = ExShim se"
  by (auto simp: close_save_def FailPointMaybe_def ThrowOnSessionError_def Let_def split: if_splits sum.splits)

lemma close_save_world: "close_save api fail_at uri q w = (err, w') \<Longrightarrow> w' = w \<or> w' = qof_session_save api q w"
  by (auto simp: close_save_def Let_def split: sum.splits)

lemma Session_Close_some:
  assumes "session_ptr s = Some q" and "Session_Close api fail_at (s, w) = (fl, (s', w'))"
  shows "s' = new_Session (config s)"
    and "\<exists>w1. (w1 = w \<or> w1 = qof_session_save api q w) \<and> w' = qof_session_destroy api q (qof_session_end api q w1)"
    and "fl = Ret () \<or> (\<exists>se. fl = Throw (ExShim se))"
  using assms close_save_world [of api fail_at "book_uri (config s)" q w] close_save_shim [of api fail_at "book_uri (config s)" q w]
  by (auto simp: Session_Close_def new_Session_def Let_def split: prod.splits option.splits if_splits)

lemma session_step_inv:
  "session_step api x x' \<Longrightarrow> session_inv (fst x) \<Longrightarrow> session_inv (fst x') \<and> config (fst x') = config (fst x)"
proof (cases rule: session_step.cases, assumption)
  fix ge fl assume inv: "session_inv (fst x)" and "Session_Open api ge x = (fl, x')"
  then show ?thesis
    using Session_Open_cases [of api ge "fst x" "snd x" fl "fst x'" "snd x'"] by (auto simp: session_inv_def)
next
  fix fail_at fl assume inv: "session_inv (fst x)" and c: "Session_Close api fail_at x = (fl, x')"
  show ?thesis
  proof (cases "session_ptr (fst x)")
    case None
    with c inv show ?thesis by (cases x) (auto simp: Session_Close_def)
  next
    case (Some q)
    from Session_Close_some(1) [OF Some, of api fail_at "snd x" fl "fst x'" "snd x'"] c show ?thesis
      by (simp add: new_Session_def session_inv_def)
  qed
qed auto

section \<open>The startup pass\<close>

lemma startup_pass:
  assumes "guid_text (lib eng)"
  shows "foldl (startup_step eng w) ([], []) xs =
    ((case find (txn_imbalanced eng w) xs of
        None \<Rightarrow> []
      | Some sp \<Rightarrow> GuidToString (lib eng) (trans_guid (trans_at eng (xaccSplitGetParent (split_at eng sp w)) w))),
     group_fold (currency_key eng w) (\<lambda>_. gnc_numeric_zero)
       (\<lambda>sp sum. gnc_numeric_add (lib eng) sum (xaccSplitGetValue (split_at eng sp w))) xs)"
proof (induction xs rule: rev_induct)
  case Nil
  then show ?case by (simp add: group_fold_def)
next
  case (snoc sp xs)
  have "GuidToString (lib eng) g \<noteq> []" for g using assms by (simp add: guid_text_def GuidToString_def)
  with snoc show ?case
    by (auto simp: startup_step_def Let_def find_append group_fold_snoc split: option.splits)
qed

definition currency_sum :: "'w engine \<Rightarrow> 'w \<Rightarrow> Split list \<Rightarrow> string \<Rightarrow> gnc_numeric" where
  "currency_sum eng w xs k =
     foldl (gnc_numeric_add (lib eng)) gnc_numeric_zero
       (map (\<lambda>sp. xaccSplitGetValue (split_at eng sp w)) (with_key (currency_key eng w) k xs))"

lemma foldl_map_value: "foldl g a (map h xs) = foldl (\<lambda>v y. g v (h y)) a xs"
  by (induction xs arbitrary: a) simp_all

lemma startup_sums:
  "(k, v) \<in> set (group_fold (currency_key eng w) (\<lambda>_. gnc_numeric_zero)
       (\<lambda>sp sum. gnc_numeric_add (lib eng) sum (xaccSplitGetValue (split_at eng sp w))) xs) \<longleftrightarrow>
   with_key (currency_key eng w) k xs \<noteq> [] \<and> v = currency_sum eng w xs k"
  by (auto simp: group_fold_entries currency_sum_def foldl_map_value neq_Nil_conv)

section \<open>Properties\<close>

text \<open>
  C31. The session cannot wedge and does not hide a failed save: closing an open session ends and
  destroys the engine session and leaves the object exactly as a newly constructed one, so that
  the next \<^verbatim>\<open>Open\<close> starts afresh. A read-only session is not saved; otherwise the call throws the
  injected error when there is one (and then does not save), and else the error the backend
  reports after the save, with its message and the book's URI, and returns exactly when it reports none.
\<close>
theorem close_never_wedges:
  assumes "session_ptr s = Some q" and "Session_Close api fail_at (s, w) = (fl, (s', w'))"
  shows "s' = new_Session (config s) \<and> \<not> is_open s' \<and>
    (let uri = book_uri (config s); saved = qof_session_save api q w; error = qof_session_get_error api q saved;
         gone = (\<lambda>w1. qof_session_destroy api q (qof_session_end api q w1))
     in if read_only (config s) then fl = Ret () \<and> w' = gone w
        else if fail_at = Some ''session_close_save''
        then fl = Throw (ExShim (shim_error ERROR_CODE_ENGINE_ERROR ''injected failure at fail point'' ''session_close_save'')) \<and>
             w' = gone w
        else w' = gone saved \<and>
             fl = (if error = ERR_BACKEND_NO_ERR then Ret ()
                   else Throw (ExShim (BackendError api error (qof_session_get_error_message api q saved) uri))))"
  using assms
  by (auto simp: Session_Close_def close_save_def FailPointMaybe_def ThrowOnSessionError_def new_Session_def is_open_def Let_def
      split: if_splits)

text \<open>
  C32. In every state the daemon can reach from a new session object by opens, closes and
  engine calls, whatever the engine answers: the flag \<^verbatim>\<open>Ping\<close> reads is true exactly when
  there is an engine session, \<^verbatim>\<open>book()\<close> throws \<open>BOOK_NOT_OPEN\<close> exactly when it is false, and
  the configuration is the one the daemon was started with.
\<close>
theorem session_open_invariant:
  assumes "(session_step api)\<^sup>*\<^sup>* (new_Session cfg, w0) (s, w)"
  shows "is_open s = (session_ptr s \<noteq> None) \<and> config s = cfg \<and>
    (Session_book api (s, w) = Inl (ExShim (shim_error ERROR_CODE_BOOK_NOT_OPEN ''no book is open'' [])) \<longleftrightarrow>
       \<not> is_open s)"
proof -
  have "session_inv (fst x) \<and> config (fst x) = cfg" if "(session_step api)\<^sup>*\<^sup>* (new_Session cfg, w0) x" for x
    using that by (induction rule: rtranclp_induct) (auto simp: new_Session_def session_inv_def dest!: session_step_inv)
  from this [OF assms] show ?thesis
    by (auto simp: session_inv_def is_open_def Session_book_def split: option.splits)
qed

text \<open>
  C33. A live editor's lock is never broken on a file-backed book: when a sqlite3 book is
  reported locked and some lock row is of another host or of a process not known to be
  dead (or the rows cannot be read to the end), \<^verbatim>\<open>Open\<close> makes no second attempt; it throws
  \<open>BOOK_LOCKED\<close> and leaves the session closed.
\<close>
theorem live_lock_is_respected:
  assumes "session_ptr s = None" and "book_uri (config s) = ''sqlite3://'' @ path" and "\<not> read_only (config s)"
    and "qof_session_new api w = (q, w1)"
    and "w2 = qof_session_begin api q (c_str (book_uri (config s))) SESSION_NORMAL_OPEN w1"
    and "qof_session_get_error api q w2 = ERR_BACKEND_LOCKED"
    and live: "gl_done ge path \<longrightarrow> (\<exists>r \<in> set (gl_rows ge path). \<not> dead_row ge r)"
  shows "\<exists>msg. Session_Open api ge (s, w) =
    (Throw (ExShim (shim_error ERROR_CODE_BOOK_LOCKED msg (book_uri (config s)))), (s, qof_session_destroy api q w2))"
proof -
  have pre: "starts_with (''sqlite3://'' @ path) ''sqlite3://''" by (simp add: starts_with_def)
  then have "Sqlite3Path (book_uri (config s)) = path" using assms(2) by (simp add: Sqlite3Path_def)
  then have "\<not> GncLockIsProvablyStale ge (book_uri (config s))"
    using live by (auto simp: GncLockIsProvablyStale_def rows_stale_iff list_all_iff Let_def)
  then show ?thesis
    using assms(1-6) pre by (auto simp: Session_Open_def HasSupportedScheme_def BackendError_def Let_def)
qed

text \<open>
  C30. The startup checks pass exactly on a balanced book: every transaction that has a split
  has a zero imbalance, and for every currency the engine's sum of its splits' values, in
  the order the query delivers them, is zero.
\<close>
theorem startup_checks_iff_balanced:
  assumes "guid_text (lib eng)" and "Session_book api x = Inr book"
  shows "RunStartupChecks eng api x = Inr () \<longleftrightarrow>
    (let splits = qof_query_run eng book [] (snd x) in
     (\<forall>sp \<in> set splits. gnc_numeric_zero_p (lib eng)
        (xaccTransGetImbalanceValue (trans_at eng (xaccSplitGetParent (split_at eng sp (snd x))) (snd x)))) \<and>
     (\<forall>k. with_key (currency_key eng (snd x)) k splits \<noteq> [] \<longrightarrow>
        gnc_numeric_zero_p (lib eng) (currency_sum eng (snd x) splits k)))"
proof -
  let ?w = "snd x" and ?xs = "qof_query_run eng book [] (snd x)"
  let ?sums = "group_fold (currency_key eng ?w) (\<lambda>_. gnc_numeric_zero)
       (\<lambda>sp sum. gnc_numeric_add (lib eng) sum (xaccSplitGetValue (split_at eng sp ?w))) ?xs"
  have guid: "GuidToString (lib eng) g \<noteq> []" for g using assms by (simp add: guid_text_def GuidToString_def)
  have "RunStartupChecks eng api x = Inr () \<longleftrightarrow>
      find (txn_imbalanced eng ?w) ?xs = None \<and> find (\<lambda>(_, sum). \<not> gnc_numeric_zero_p (lib eng) sum) ?sums = None"
    using assms(2) guid
    by (auto simp: RunStartupChecks_def startup_pass [OF assms(1)] split: option.splits)
  also have "find (\<lambda>(_, sum). \<not> gnc_numeric_zero_p (lib eng) sum) ?sums = None \<longleftrightarrow>
      (\<forall>k v. (k, v) \<in> set ?sums \<longrightarrow> gnc_numeric_zero_p (lib eng) v)"
    by (auto simp: find_None_all)
  finally show ?thesis by (simp add: find_None_all txn_imbalanced_def startup_sums Let_def)
qed

end
