(* ===== verification/Account_Service.thy ===== *)
theory Account_Service
  imports Recovery Session
begin

text \<open>
  \<^verbatim>\<open>src/rpc/account_service.{h,cpp}\<close>: the seven RPCs on accounts. A mutating handler is its
  checks, which only look, and its edit, which gives the response, the engine before the
  commit and the engine after it; the engine calls are listed in the order of the source. The
  RPC itself hands both to the mutation protocol.
\<close>

text \<open>A mutating RPC: from the journal and the engine to the status and the response.\<close>

type_synonym ('r, 'w) mutation_rpc =
  "Journal \<times> 'w engine_side \<Rightarrow> (exn, Status \<times> 'r option) flow \<times> (Journal \<times> 'w engine_side)"

section \<open>Checks on the account tree\<close>

partial_function (option) meets_account :: "(Account \<Rightarrow> Account option) \<Rightarrow> Account \<Rightarrow> Account option \<Rightarrow> bool option" where
  "meets_account parent account cursor =
     (case cursor of
        None \<Rightarrow> Some False
      | Some c \<Rightarrow> if c = account then Some True else meets_account parent account (parent c))"

declare meets_account.simps [code]

definition parent_in :: "'w engine \<Rightarrow> 'w \<Rightarrow> Account \<Rightarrow> Account option" where
  "parent_in eng w a = gnc_account_get_parent (account_at eng a w)"

definition CheckNoCycle :: "'w engine \<Rightarrow> Account \<Rightarrow> Account \<Rightarrow> string \<Rightarrow> 'w \<Rightarrow> (exn, unit) flow" where
  "CheckNoCycle eng account new_parent ctx w =
     (case meets_account (parent_in eng w) account (Some new_parent) of
        None \<Rightarrow> Abort
      | Some True \<Rightarrow> Throw (invalid_argument ''parent_guid would create a cycle'' ctx)
      | Some False \<Rightarrow> Ret ())"

definition CheckIsNotRoot :: "Account \<Rightarrow> Account \<Rightarrow> string \<Rightarrow> exn + unit" where
  "CheckIsNotRoot account root ctx =
     require (account \<noteq> root) (invalid_argument ''the root account cannot be modified'' ctx)"

section \<open>Reads\<close>

definition ListAccounts :: "'w engine \<Rightarrow> 'w session_api \<Rightarrow> 'w engine_side \<Rightarrow> exn + AccountMsg list" where
  "ListAccounts eng api x =
     map_result (\<lambda>root. AccountToProto eng root (snd x) #
                         map (\<lambda>a. AccountToProto eng a (snd x)) (gnc_account_get_descendants_sorted eng root (snd x)))
       (root_account eng api x)"

definition GetAccount :: "'w engine \<Rightarrow> 'w session_api \<Rightarrow> string \<Rightarrow> 'w engine_side \<Rightarrow> exn + AccountMsg" where
  "GetAccount eng api guid x =
     and_then (Session_book api x) (\<lambda>book.
     and_then (FindAccount eng book guid ''guid'' (snd x)) (\<lambda>a. Inr (AccountToProto eng a (snd x))))"

definition GetReconcileInfo :: "'w engine \<Rightarrow> 'w session_api \<Rightarrow> string \<Rightarrow> 'w engine_side \<Rightarrow> exn + ReconcileInfo" where
  "GetReconcileInfo eng api guid x =
     and_then (Session_book api x) (\<lambda>book.
     and_then (FindAccount eng book guid ''guid'' (snd x)) (\<lambda>a. Inr (ReconcileInfoToProto eng a (snd x))))"

section \<open>CreateAccount\<close>

definition CreateAccount_checks ::
  "'w engine \<Rightarrow> 'w session_api \<Rightarrow> AccountMsg \<Rightarrow> 'w engine_side \<Rightarrow>
     (exn, QofBook \<times> Account \<times> GNCAccountType \<times> gnc_commodity) flow" where
  "CreateAccount_checks eng api spec x =
     attempt (require (am_guid spec = []) (invalid_argument ''guid must be empty on create; the engine assigns'' ''account.guid'')) (\<lambda>_.
     attempt (require (am_name spec \<noteq> []) (invalid_argument ''name is required'' ''account.name'')) (\<lambda>_.
     attempt (require (am_parent_guid spec \<noteq> []) (invalid_argument ''parent_guid is required'' ''account.parent_guid'')) (\<lambda>_.
     attempt (Session_book api x) (\<lambda>book.
     attempt (FindAccount eng book (am_parent_guid spec) ''account.parent_guid'' (snd x)) (\<lambda>parent.
     attempt (AccountTypeFromProto (am_type spec) ''account.type'') (\<lambda>type.
     attempt (FindCommodity eng book (field_or CommodityId_default (am_commodity spec)) ''account.commodity'' (snd x)) (\<lambda>commodity.
       Ret (book, parent, type, commodity))))))))"

definition account_setters :: "Account \<Rightarrow> AccountMsg \<Rightarrow> GNCAccountType \<Rightarrow> gnc_commodity \<Rightarrow> engine_call list" where
  "account_setters account spec type commodity =
     [xaccAccountSetName account (c_str (am_name spec)),
      xaccAccountSetType account type,
      xaccAccountSetCommodity account commodity,
      xaccAccountSetCode account (c_str (am_code spec)),
      xaccAccountSetDescription account (c_str (am_description spec)),
      xaccAccountSetPlaceholder account (am_placeholder spec),
      xaccAccountSetHidden account (am_hidden spec)]"

definition CreateAccount_edit ::
  "'w engine \<Rightarrow> AccountMsg \<Rightarrow> QofBook \<times> Account \<times> GNCAccountType \<times> gnc_commodity \<Rightarrow> 'w engine_side \<Rightarrow>
     AccountMsg \<times> 'w engine_side \<times> 'w engine_side" where
  "CreateAccount_edit eng spec c x =
     (case c of (book, parent, type, commodity) \<Rightarrow>
       let (account, w0) = xaccMallocAccount eng book (snd x);
           w1 = eng_seq eng (xaccAccountBeginEdit account # account_setters account spec type commodity @
                  [gnc_account_append_child parent account]) w0;
           out = AccountToProto eng account w1
       in (out, (fst x, w1), (fst x, eng_do eng (xaccAccountCommitEdit account) w1)))"

definition CreateAccount_apply ::
  "'w engine \<Rightarrow> 'w session_api \<Rightarrow> AccountRequest \<Rightarrow> (AccountMsg, 'w engine_side) ApplyFn" where
  "CreateAccount_apply eng api request =
     checked_edit (CreateAccount_checks eng api (ar_account request)) (CreateAccount_edit eng (ar_account request))"

definition CreateAccount ::
  "mutation_env \<Rightarrow> exn option \<Rightarrow> AccountMsg message_pb \<Rightarrow> AccountRequest message_pb \<Rightarrow> 'w engine \<Rightarrow> 'w session_api \<Rightarrow> 
     AccountRequest \<Rightarrow> (AccountMsg, 'w) mutation_rpc" where
  "CreateAccount env admission rpb qpb eng api request =
     RunMutation env admission rpb (ar_meta_mutation_id request) (SerializeAsString qpb request)
       ''daicho.shim.v1.AccountService/CreateAccount'' (CreateAccount_apply eng api request)"

section \<open>UpdateAccount\<close>

definition UpdateAccount_checks ::
  "'w engine \<Rightarrow> 'w session_api \<Rightarrow> AccountMsg \<Rightarrow> 'w engine_side \<Rightarrow>
     (exn, Account \<times> GNCAccountType \<times> gnc_commodity \<times> Account) flow" where
  "UpdateAccount_checks eng api spec x =
     attempt (require (am_guid spec \<noteq> []) (invalid_argument ''guid is required on update'' ''account.guid'')) (\<lambda>_.
     attempt (require (am_name spec \<noteq> []) (invalid_argument ''name is required'' ''account.name'')) (\<lambda>_.
     attempt (Session_book api x) (\<lambda>book.
     attempt (FindAccount eng book (am_guid spec) ''account.guid'' (snd x)) (\<lambda>account.
     attempt (root_account eng api x) (\<lambda>root.
     attempt (CheckIsNotRoot account root ''account.guid'') (\<lambda>_.
     attempt (AccountTypeFromProto (am_type spec) ''account.type'') (\<lambda>new_type.
     attempt (FindCommodity eng book (field_or CommodityId_default (am_commodity spec)) ''account.commodity'' (snd x)) (\<lambda>commodity.
     attempt (require (am_parent_guid spec \<noteq> [])
       (invalid_argument ''parent_guid is required (full replacement)'' ''account.parent_guid'')) (\<lambda>_.
     attempt (FindAccount eng book (am_parent_guid spec) ''account.parent_guid'' (snd x)) (\<lambda>new_parent.
       flow_map (\<lambda>_. (account, new_type, commodity, new_parent))
         (CheckNoCycle eng account new_parent ''account.parent_guid'' (snd x))))))))))))"

definition UpdateAccount_edit ::
  "'w engine \<Rightarrow> AccountMsg \<Rightarrow> Account \<times> GNCAccountType \<times> gnc_commodity \<times> Account \<Rightarrow> 'w engine_side \<Rightarrow>
     AccountMsg \<times> 'w engine_side \<times> 'w engine_side" where
  "UpdateAccount_edit eng spec c x =
     (case c of (account, new_type, commodity, new_parent) \<Rightarrow>
       let w0 = eng_seq eng (xaccAccountBeginEdit account # account_setters account spec new_type commodity) (snd x);
           w1 = (if Some new_parent \<noteq> gnc_account_get_parent (account_at eng account w0)
                 then eng_do eng (gnc_account_append_child new_parent account) w0 else w0);
           out = AccountToProto eng account w1
       in (out, (fst x, w1), (fst x, eng_do eng (xaccAccountCommitEdit account) w1)))"

definition UpdateAccount_apply ::
  "'w engine \<Rightarrow> 'w session_api \<Rightarrow> AccountRequest \<Rightarrow> (AccountMsg, 'w engine_side) ApplyFn" where
  "UpdateAccount_apply eng api request =
     checked_edit (UpdateAccount_checks eng api (ar_account request)) (UpdateAccount_edit eng (ar_account request))"

definition UpdateAccount ::
  "mutation_env \<Rightarrow> exn option \<Rightarrow> AccountMsg message_pb \<Rightarrow> AccountRequest message_pb \<Rightarrow> 'w engine \<Rightarrow> 'w session_api \<Rightarrow> 
     AccountRequest \<Rightarrow> (AccountMsg, 'w) mutation_rpc" where
  "UpdateAccount env admission rpb qpb eng api request =
     RunMutation env admission rpb (ar_meta_mutation_id request) (SerializeAsString qpb request)
       ''daicho.shim.v1.AccountService/UpdateAccount'' (UpdateAccount_apply eng api request)"

section \<open>DeleteAccount\<close>

definition DeleteAccount_checks ::
  "'w engine \<Rightarrow> 'w session_api \<Rightarrow> string \<Rightarrow> 'w engine_side \<Rightarrow> (exn, Account) flow" where
  "DeleteAccount_checks eng api guid x =
     attempt (Session_book api x) (\<lambda>book.
     attempt (FindAccount eng book guid ''guid'' (snd x)) (\<lambda>account.
     attempt (root_account eng api x) (\<lambda>root.
     attempt (CheckIsNotRoot account root ''guid'') (\<lambda>_.
     attempt (require (xaccAccountGetSplitList (account_at eng account (snd x)) = [] \<and>
                       gnc_account_n_children (account_at eng account (snd x)) = 0)
       (ExShim (shim_error ERROR_CODE_ACCOUNT_NOT_EMPTY ''account has splits or children'' guid))) (\<lambda>_.
       Ret account)))))"

text \<open>Here the pending record is written before the edit begins.\<close>

definition DeleteAccount_edit :: "'w engine \<Rightarrow> Account \<Rightarrow> 'w engine_side \<Rightarrow> unit \<times> 'w engine_side \<times> 'w engine_side" where
  "DeleteAccount_edit eng account x =
     ((), x, (fst x, eng_seq eng [xaccAccountBeginEdit account, xaccAccountDestroy account] (snd x)))"

definition DeleteAccount_apply ::
  "'w engine \<Rightarrow> 'w session_api \<Rightarrow> DeleteRequest \<Rightarrow> (unit, 'w engine_side) ApplyFn" where
  "DeleteAccount_apply eng api request =
     checked_edit (DeleteAccount_checks eng api (dr_guid request)) (DeleteAccount_edit eng)"

definition DeleteAccount ::
  "mutation_env \<Rightarrow> exn option \<Rightarrow> unit message_pb \<Rightarrow> DeleteRequest message_pb \<Rightarrow> 'w engine \<Rightarrow> 'w session_api \<Rightarrow> 
     DeleteRequest \<Rightarrow> (unit, 'w) mutation_rpc" where
  "DeleteAccount env admission rpb qpb eng api request =
     RunMutation env admission rpb (dr_meta_mutation_id request) (SerializeAsString qpb request)
       ''daicho.shim.v1.AccountService/DeleteAccount'' (DeleteAccount_apply eng api request)"

section \<open>SetReconcileInfo\<close>

definition SetReconcileInfo_checks ::
  "'w engine \<Rightarrow> 'w session_api \<Rightarrow> SetReconcileInfoRequest \<Rightarrow> 'w engine_side \<Rightarrow> (exn, Account \<times> time64) flow" where
  "SetReconcileInfo_checks eng api request x =
     attempt (Session_book api x) (\<lambda>book.
     attempt (FindAccount eng book (sr_account_guid request) ''account_guid'' (snd x)) (\<lambda>account.
     attempt (require (sr_last_date request \<noteq> None) (invalid_argument ''last_date is required'' ''last_date'')) (\<lambda>_.
     attempt (DateFromProto (lib eng) (field_or Date_default (sr_last_date request)) ''last_date'') (\<lambda>date.
       Ret (account, gnc_dmy2time64_neutral (lib eng) date)))))"

definition SetReconcileInfo_edit ::
  "'w engine \<Rightarrow> Account \<times> time64 \<Rightarrow> 'w engine_side \<Rightarrow> ReconcileInfo \<times> 'w engine_side \<times> 'w engine_side" where
  "SetReconcileInfo_edit eng c x =
     (case c of (account, stamp) \<Rightarrow>
       let w1 = eng_seq eng [xaccAccountBeginEdit account, xaccAccountSetReconcileLastDate account stamp] (snd x)
       in (ReconcileInfoToProto eng account w1, (fst x, w1),
           (fst x, eng_do eng (xaccAccountCommitEdit account) w1)))"

definition SetReconcileInfo_apply ::
  "'w engine \<Rightarrow> 'w session_api \<Rightarrow> SetReconcileInfoRequest \<Rightarrow> (ReconcileInfo, 'w engine_side) ApplyFn" where
  "SetReconcileInfo_apply eng api request =
     checked_edit (SetReconcileInfo_checks eng api request) (SetReconcileInfo_edit eng)"

definition SetReconcileInfo ::
  "mutation_env \<Rightarrow> exn option \<Rightarrow> ReconcileInfo message_pb \<Rightarrow> SetReconcileInfoRequest message_pb \<Rightarrow> 'w engine \<Rightarrow> 'w session_api \<Rightarrow> 
     SetReconcileInfoRequest \<Rightarrow> (ReconcileInfo, 'w) mutation_rpc" where
  "SetReconcileInfo env admission rpb qpb eng api request =
     RunMutation env admission rpb (sr_meta_mutation_id request) (SerializeAsString qpb request)
       ''daicho.shim.v1.AccountService/SetReconcileInfo'' (SetReconcileInfo_apply eng api request)"

section \<open>The handlers keep the protocol's contract\<close>

lemma Session_book_shim [simp]: "Session_book api x = Inl e \<Longrightarrow> \<exists>se. e = ExShim se"
  by (auto simp: Session_book_def split: option.splits)

lemma root_account_shim [simp]: "root_account eng api x = Inl e \<Longrightarrow> \<exists>se. e = ExShim se"
  by (simp add: root_account_def)

lemmas throws_shim = lookups_throw_shim Session_book_shim root_account_shim

lemma invalid_argument_shim [simp]: "\<exists>se. invalid_argument m ctx = ExShim se"
  by (simp add: invalid_argument_def)

lemma CheckNoCycle_shim: "CheckNoCycle eng a p ctx w = Throw e \<Longrightarrow> \<exists>se. e = ExShim se"
  by (auto simp: CheckNoCycle_def split: option.splits bool.splits)

lemma CreateAccount_checks_shim: "CreateAccount_checks eng api spec x = Throw e \<Longrightarrow> \<exists>se. e = ExShim se"
  unfolding CreateAccount_checks_def by (auto simp: attempt_eq_Throw intro: throws_shim)

lemma UpdateAccount_checks_shim: "UpdateAccount_checks eng api spec x = Throw e \<Longrightarrow> \<exists>se. e = ExShim se"
  unfolding UpdateAccount_checks_def CheckIsNotRoot_def
  by (auto simp: attempt_eq_Throw intro: throws_shim CheckNoCycle_shim)

lemma DeleteAccount_checks_shim: "DeleteAccount_checks eng api guid x = Throw e \<Longrightarrow> \<exists>se. e = ExShim se"
  unfolding DeleteAccount_checks_def CheckIsNotRoot_def by (auto simp: attempt_eq_Throw intro: throws_shim)

lemma SetReconcileInfo_checks_shim: "SetReconcileInfo_checks eng api request x = Throw e \<Longrightarrow> \<exists>se. e = ExShim se"
  unfolding SetReconcileInfo_checks_def by (auto simp: attempt_eq_Throw intro: throws_shim)

interpretation create_account: planned_apply "CreateAccount_apply eng api request"
  "edit_plan (CreateAccount_checks eng api (ar_account request)) (CreateAccount_edit eng (ar_account request))"
  for eng api request
  unfolding CreateAccount_apply_def by (rule checked_edit_planned) (rule CreateAccount_checks_shim)

interpretation update_account: planned_apply "UpdateAccount_apply eng api request"
  "edit_plan (UpdateAccount_checks eng api (ar_account request)) (UpdateAccount_edit eng (ar_account request))"
  for eng api request
  unfolding UpdateAccount_apply_def by (rule checked_edit_planned) (rule UpdateAccount_checks_shim)

interpretation delete_account: planned_apply "DeleteAccount_apply eng api request"
  "edit_plan (DeleteAccount_checks eng api (dr_guid request)) (DeleteAccount_edit eng)"
  for eng api request
  unfolding DeleteAccount_apply_def by (rule checked_edit_planned) (rule DeleteAccount_checks_shim)

interpretation set_reconcile_info: planned_apply "SetReconcileInfo_apply eng api request"
  "edit_plan (SetReconcileInfo_checks eng api request) (SetReconcileInfo_edit eng)"
  for eng api request
  unfolding SetReconcileInfo_apply_def by (rule checked_edit_planned) (rule SetReconcileInfo_checks_shim)

section \<open>The account tree\<close>

text \<open>An account is rooted when the walk up its parents ends.\<close>

inductive rooted :: "(Account \<Rightarrow> Account option) \<Rightarrow> Account \<Rightarrow> bool" for parent where
  root: "parent a = None \<Longrightarrow> rooted parent a"
| child: "parent a = Some p \<Longrightarrow> rooted parent p \<Longrightarrow> rooted parent a"

text \<open>The accounts the walk of \<^verbatim>\<open>CheckNoCycle\<close> visits.\<close>

inductive on_path :: "(Account \<Rightarrow> Account option) \<Rightarrow> Account \<Rightarrow> Account \<Rightarrow> bool" for parent where
  here: "on_path parent a a"
| up: "parent c = Some p \<Longrightarrow> on_path parent p a \<Longrightarrow> on_path parent c a"

inductive_cases on_pathE: "on_path parent c a"

lemma meets_account_simps [simp]:
  "meets_account parent a None = Some False"
  "meets_account parent a (Some c) = (if c = a then Some True else meets_account parent a (parent c))"
  by (subst meets_account.simps; simp)+

lemma meets_account_rooted:
  "rooted parent c \<Longrightarrow> meets_account parent a (Some c) = Some (on_path parent c a)"
proof (induction rule: rooted.induct)
  case (root c)
  then show ?case by (auto intro: on_path.here elim: on_pathE)
next
  case (child c p)
  then show ?case by (auto intro: on_path.intros elim: on_pathE)
qed

lemma reparent_off_path:
  "rooted parent c \<Longrightarrow> \<not> on_path parent c a \<Longrightarrow> rooted (parent(a := np)) c"
proof (induction rule: rooted.induct)
  case (root c)
  then have "c \<noteq> a" by (auto intro: on_path.here)
  with root show ?case by (simp add: rooted.root)
next
  case (child c p)
  then have "c \<noteq> a" "\<not> on_path parent p a" by (auto intro: on_path.intros)
  with child show ?case by (auto intro: rooted.child)
qed

lemma reparent_rooted:
  assumes all: "\<And>b. rooted parent b" and off: "\<not> on_path parent np a"
  shows "rooted (parent(a := Some np)) b"
proof -
  have a: "rooted (parent(a := Some np)) a"
    using reparent_off_path [OF all off, of "Some np"] by (auto intro: rooted.child)
  from all [of b] show ?thesis
  proof (induction rule: rooted.induct)
    case (root c)
    show ?case
    proof (cases "c = a")
      case False
      with root show ?thesis by (simp add: rooted.root)
    qed (use a in \<open>simp only:\<close>)
  next
    case (child c p)
    show ?case
    proof (cases "c = a")
      case False
      with child show ?thesis by (auto intro: rooted.child)
    qed (use a in \<open>simp only:\<close>)
  qed
qed

lemma on_path_upd: "on_path parent c a \<Longrightarrow> on_path (parent(a := q)) c a"
proof (induction rule: on_path.induct)
  case (up c p a)
  show ?case
  proof (cases "c = a")
    case True
    then show ?thesis by (simp add: on_path.here)
  next
    case False
    with up show ?thesis by (auto intro: on_path.up)
  qed
qed (rule on_path.here)

lemma rooted_no_cycle: "rooted q c \<Longrightarrow> on_path q c a \<Longrightarrow> q a = Some np \<Longrightarrow> on_path q np a \<Longrightarrow> False"
proof (induction rule: rooted.induct)
  case (root c)
  from root(2) show ?case by (cases rule: on_path.cases) (use root in simp_all)
next
  case (child c p)
  from child(4) show ?case by (cases rule: on_path.cases) (use child in auto)
qed

lemma reparent_on_path: "on_path parent np a \<Longrightarrow> \<not> rooted (parent(a := Some np)) a"
  using rooted_no_cycle [of "parent(a := Some np)" a a np] on_path_upd on_path.here by fastforce

section \<open>Properties\<close>

text \<open>
  C25. The reparent guard is exact and always ends: in a book whose every account hangs under a
  root, \<^verbatim>\<open>CheckNoCycle\<close> accepts a new parent exactly when after the move every account still
  does; otherwise it throws \<open>INVALID_ARGUMENT\<close>.
\<close>
theorem CheckNoCycle_exact:
  assumes "\<And>b. rooted (parent_in eng w) b"
  shows "CheckNoCycle eng account new_parent ctx w =
    (if \<forall>b. rooted ((parent_in eng w)(account := Some new_parent)) b then Ret ()
     else Throw (invalid_argument ''parent_guid would create a cycle'' ctx))"
proof (cases "on_path (parent_in eng w) new_parent account")
  case True
  with meets_account_rooted [OF assms, of account new_parent] reparent_on_path [OF True] show ?thesis
    by (auto simp: CheckNoCycle_def simp del: meets_account_simps)
next
  case False
  with meets_account_rooted [OF assms, of account new_parent] reparent_rooted [OF assms False] show ?thesis
    by (auto simp: CheckNoCycle_def simp del: meets_account_simps)
qed

end
