(* ===== verification/Transaction_Service.thy ===== *)
theory Transaction_Service
  imports Complex_Main Account_Service
begin

unbundle bit_operations_syntax

text \<open>
  \<^verbatim>\<open>src/rpc/transaction_service.{h,cpp}\<close>: planning, posting, updating and deleting
  transactions, and the paged split query. \<^verbatim>\<open>std::unordered_map\<close> iterates in an order the
  language leaves open: \<open>hash_order\<close> is that order.
\<close>

section \<open>Plans\<close>

record SplitPlan =
  sp_existing :: "Split option"
  sp_account :: Account
  sp_value :: gnc_numeric
  sp_quantity :: gnc_numeric
  sp_memo :: string
  sp_action :: string
  sp_reconcile :: char

record TransactionPlan =
  tp_currency :: gnc_commodity
  tp_post_date :: GDate
  tp_enter_time :: time64
  tp_num :: string
  tp_description :: string
  tp_splits :: "SplitPlan list"
  tp_doomed :: "Split list"

type_synonym split_table = "(string \<times> Split) list"

definition split_guid_string :: "'w engine \<Rightarrow> 'w \<Rightarrow> Split \<Rightarrow> string" where
  "split_guid_string eng w sp = GuidToString (lib eng) (split_guid (split_at eng sp w))"

text \<open>\<^verbatim>\<open>engine_splits\<close>: the splits of the existing transaction by their GUIDs.\<close>

definition engine_split_table :: "'w engine \<Rightarrow> Transaction option \<Rightarrow> 'w \<Rightarrow> split_table" where
  "engine_split_table eng existing w =
     (case existing of
        None \<Rightarrow> []
      | Some t \<Rightarrow>
          foldl (\<lambda>m sp. upsert (split_guid_string eng w sp) sp (\<lambda>_. sp) m) []
            (xaccTransGetSplitList (trans_at eng t w)))"

text \<open>The block of the loop that resolves the split's GUID; \<open>claimed\<close> is the set built so far.\<close>

definition claim_split ::
  "bool \<Rightarrow> split_table \<Rightarrow> string list \<Rightarrow> string \<Rightarrow> string \<Rightarrow> exn + (Split option \<times> string list)" where
  "claim_split update engine_splits claimed field guid =
     (if guid = [] then Inr (None, claimed)
      else if \<not> update
      then Inl (invalid_argument ''split guid must be empty on create; the engine assigns'' (field @ ''.guid''))
      else case map_of engine_splits guid of
             None \<Rightarrow> Inl (invalid_argument (''split '' @ guid @ '' does not belong to this transaction'') (field @ ''.guid''))
           | Some sp \<Rightarrow>
               if guid \<in> set claimed
               then Inl (invalid_argument (''split '' @ guid @ '' appears twice'') (field @ ''.guid''))
               else Inr (Some sp, guid # claimed))"

definition split_field :: "nat \<Rightarrow> string" where
  "split_field i = ''transaction.splits['' @ nat_to_string i @ '']''"

definition plan_split ::
  "'w engine \<Rightarrow> QofBook \<Rightarrow> 'w \<Rightarrow> bool \<Rightarrow> split_table \<Rightarrow> string list \<Rightarrow> nat \<Rightarrow> SplitMsg \<Rightarrow> exn + (SplitPlan \<times> string list)" where
  "plan_split eng book w update engine_splits claimed i split_spec =
     (let field = split_field i in
      and_then (claim_split update engine_splits claimed field (sm_guid split_spec)) (\<lambda>(existing, claimed').
      and_then (FindAccount eng book (sm_account_guid split_spec) (field @ ''.account_guid'') w) (\<lambda>account.
      and_then (NumericFromProto (field_or Numeric_default (sm_value split_spec)) (field @ ''.value'')) (\<lambda>value.
      and_then (NumericFromProto (field_or Numeric_default (sm_quantity split_spec)) (field @ ''.quantity'')) (\<lambda>quantity.
      and_then (if sm_reconcile_state split_spec = RECONCILE_STATE_UNSPECIFIED then Inr NREC
                else ReconcileStateFromProto (sm_reconcile_state split_spec) (field @ ''.reconcile_state'')) (\<lambda>reconcile.
        Inr (\<lparr>sp_existing = existing, sp_account = account, sp_value = value, sp_quantity = quantity,
              sp_memo = sm_memo split_spec, sp_action = sm_action split_spec, sp_reconcile = reconcile\<rparr>, claimed')))))))"

fun plan_splits ::
  "'w engine \<Rightarrow> QofBook \<Rightarrow> 'w \<Rightarrow> bool \<Rightarrow> split_table \<Rightarrow> nat \<Rightarrow> gnc_numeric \<Rightarrow> string list \<Rightarrow> SplitMsg list \<Rightarrow>
     exn + (SplitPlan list \<times> gnc_numeric \<times> string list)" where
  "plan_splits eng book w update engine_splits i run_sum claimed [] = Inr ([], run_sum, claimed)"
| "plan_splits eng book w update engine_splits i run_sum claimed (split_spec # specs) =
     and_then (plan_split eng book w update engine_splits claimed i split_spec) (\<lambda>(split_plan, claimed').
       let run_sum' = gnc_numeric_add (lib eng) run_sum (sp_value split_plan) in
       if \<not> gnc_numeric_check (lib eng) run_sum'
       then Inl (invalid_argument ''split values overflow engine arithmetic'' (split_field i))
       else and_then (plan_splits eng book w update engine_splits (i + 1) run_sum' claimed' specs) (\<lambda>(plans, total, claimed'').
              Inr (split_plan # plans, total, claimed'')))"

definition PlanTransaction ::
  "'w engine \<Rightarrow> (split_table \<Rightarrow> split_table) \<Rightarrow> QofBook \<Rightarrow> TransactionMsg \<Rightarrow> Transaction option \<Rightarrow> 'w \<Rightarrow> exn + TransactionPlan" where
  "PlanTransaction eng hash_order book spec existing w =
     and_then (require (tm_currency spec \<noteq> None) (invalid_argument ''currency is required'' ''transaction.currency'')) (\<lambda>_.
     and_then (FindCommodity eng book (field_or CommodityId_default (tm_currency spec)) ''transaction.currency'' w) (\<lambda>currency.
     and_then (require (gnc_commodity_is_currency (commodity_at eng currency w))
       (ExShim (shim_error ERROR_CODE_CURRENCY_MISMATCH ''transaction currency is not a currency commodity'' ''transaction.currency''))) (\<lambda>_.
     and_then (require (tm_post_date spec \<noteq> None) (invalid_argument ''post_date is required'' ''transaction.post_date'')) (\<lambda>_.
     and_then (DateFromProto (lib eng) (field_or Date_default (tm_post_date spec)) ''transaction.post_date'') (\<lambda>post_date.
     let enter_time = (if tm_enter_time_utc spec \<noteq> 0 then tm_enter_time_utc spec else gnc_time eng w) in
     and_then (require (tm_splits spec \<noteq> []) (invalid_argument ''at least one split is required'' ''transaction.splits'')) (\<lambda>_.
     let engine_splits = engine_split_table eng existing w in
     and_then (plan_splits eng book w (existing \<noteq> None) engine_splits 0 gnc_numeric_zero [] (tm_splits spec)) (\<lambda>(plans, sum, claimed).
     and_then (require (gnc_numeric_zero_p (lib eng) sum)
       (ExShim (shim_error ERROR_CODE_UNBALANCED_TRANSACTION
         (''split values sum to '' @ gnc_numeric_to_string (lib eng) sum @ '', expected zero'') ''transaction.splits''))) (\<lambda>_.
       Inr \<lparr>tp_currency = currency, tp_post_date = post_date, tp_enter_time = enter_time, tp_num = tm_num spec,
            tp_description = tm_description spec, tp_splits = plans,
            tp_doomed = map snd (filter (\<lambda>(guid, _). guid \<notin> set claimed) (hash_order engine_splits))\<rparr>))))))))"

section \<open>Applying a plan\<close>

definition split_setters :: "Split \<Rightarrow> SplitPlan \<Rightarrow> engine_call list" where
  "split_setters split p =
     [xaccSplitSetAccount split (sp_account p),
      xaccSplitSetValue split (sp_value p),
      xaccSplitSetAmount split (sp_quantity p),
      xaccSplitSetMemo split (c_str (sp_memo p)),
      xaccSplitSetAction split (c_str (sp_action p)),
      xaccSplitSetReconcile split (sp_reconcile p)]"

definition apply_split :: "'w engine \<Rightarrow> QofBook \<Rightarrow> Transaction \<Rightarrow> SplitPlan \<Rightarrow> 'w \<Rightarrow> 'w" where
  "apply_split eng book transaction p w =
     (let (split, w1) =
        (case sp_existing p of
           Some split \<Rightarrow> (split, w)
         | None \<Rightarrow> (let (split, w0) = xaccMallocSplit eng book w in (split, eng_do eng (xaccSplitSetParent split transaction) w0)))
      in eng_seq eng (split_setters split p) w1)"

definition trans_setters :: "Transaction \<Rightarrow> TransactionPlan \<Rightarrow> engine_call list" where
  "trans_setters transaction plan =
     [xaccTransSetCurrency transaction (tp_currency plan),
      xaccTransSetDatePostedGDate transaction (tp_post_date plan),
      xaccTransSetDateEnteredSecs transaction (tp_enter_time plan),
      xaccTransSetNum transaction (c_str (tp_num plan)),
      xaccTransSetDescription transaction (c_str (tp_description plan))]"

definition ApplyPlan :: "'w engine \<Rightarrow> QofBook \<Rightarrow> Transaction \<Rightarrow> TransactionPlan \<Rightarrow> 'w \<Rightarrow> 'w" where
  "ApplyPlan eng book transaction plan w =
     fold (apply_split eng book transaction) (tp_splits plan)
       (eng_seq eng (trans_setters transaction plan @ map xaccSplitDestroy (tp_doomed plan)) w)"

section \<open>The RPCs on transactions\<close>

definition GetTransaction :: "'w engine \<Rightarrow> 'w session_api \<Rightarrow> string \<Rightarrow> 'w engine_side \<Rightarrow> exn + TransactionMsg" where
  "GetTransaction eng api guid x =
     and_then (Session_book api x) (\<lambda>book.
     and_then (FindTransaction eng book guid ''guid'' (snd x)) (\<lambda>t. Inr (TransactionToProto eng t (snd x))))"

definition PostTransaction_checks ::
  "'w engine \<Rightarrow> 'w session_api \<Rightarrow> (split_table \<Rightarrow> split_table) \<Rightarrow> TransactionMsg \<Rightarrow> 'w engine_side \<Rightarrow>
     (exn, QofBook \<times> TransactionPlan) flow" where
  "PostTransaction_checks eng api hash_order spec x =
     attempt (require (tm_guid spec = []) (invalid_argument ''guid must be empty on create; the engine assigns'' ''transaction.guid'')) (\<lambda>_.
     attempt (Session_book api x) (\<lambda>book.
     attempt (PlanTransaction eng hash_order book spec None (snd x)) (\<lambda>plan. Ret (book, plan))))"

definition PostTransaction_edit ::
  "'w engine \<Rightarrow> QofBook \<times> TransactionPlan \<Rightarrow> 'w engine_side \<Rightarrow> TransactionMsg \<times> 'w engine_side \<times> 'w engine_side" where
  "PostTransaction_edit eng c x =
     (case c of (book, plan) \<Rightarrow>
       let (transaction, w0) = xaccMallocTransaction eng book (snd x);
           w1 = ApplyPlan eng book transaction plan (eng_do eng (xaccTransBeginEdit transaction) w0)
       in (TransactionToProto eng transaction w1, (fst x, w1),
           (fst x, eng_do eng (xaccTransCommitEdit transaction) w1)))"

definition PostTransaction_apply ::
  "'w engine \<Rightarrow> 'w session_api \<Rightarrow> (split_table \<Rightarrow> split_table) \<Rightarrow> TransactionRequest \<Rightarrow> (TransactionMsg, 'w engine_side) ApplyFn" where
  "PostTransaction_apply eng api hash_order request =
     checked_edit (PostTransaction_checks eng api hash_order (tr_transaction request)) (PostTransaction_edit eng)"

definition PostTransaction ::
  "mutation_env \<Rightarrow> exn option \<Rightarrow> TransactionMsg message_pb \<Rightarrow> TransactionRequest message_pb \<Rightarrow> 'w engine \<Rightarrow> 'w session_api \<Rightarrow> (split_table \<Rightarrow> split_table) \<Rightarrow>
     TransactionRequest \<Rightarrow> (TransactionMsg, 'w) mutation_rpc" where
  "PostTransaction env admission rpb qpb eng api hash_order request =
     RunMutation env admission rpb (tr_meta_mutation_id request) (SerializeAsString qpb request)
       ''daicho.shim.v1.TransactionService/PostTransaction'' (PostTransaction_apply eng api hash_order request)"

definition UpdateTransaction_checks ::
  "'w engine \<Rightarrow> 'w session_api \<Rightarrow> (split_table \<Rightarrow> split_table) \<Rightarrow> TransactionMsg \<Rightarrow> 'w engine_side \<Rightarrow>
     (exn, QofBook \<times> Transaction \<times> TransactionPlan) flow" where
  "UpdateTransaction_checks eng api hash_order spec x =
     attempt (require (tm_guid spec \<noteq> []) (invalid_argument ''guid is required on update'' ''transaction.guid'')) (\<lambda>_.
     attempt (Session_book api x) (\<lambda>book.
     attempt (FindTransaction eng book (tm_guid spec) ''transaction.guid'' (snd x)) (\<lambda>transaction.
     attempt (PlanTransaction eng hash_order book spec (Some transaction) (snd x)) (\<lambda>plan. Ret (book, transaction, plan)))))"

definition UpdateTransaction_edit ::
  "'w engine \<Rightarrow> QofBook \<times> Transaction \<times> TransactionPlan \<Rightarrow> 'w engine_side \<Rightarrow> TransactionMsg \<times> 'w engine_side \<times> 'w engine_side" where
  "UpdateTransaction_edit eng c x =
     (case c of (book, transaction, plan) \<Rightarrow>
       let w1 = ApplyPlan eng book transaction plan (eng_do eng (xaccTransBeginEdit transaction) (snd x))
       in (TransactionToProto eng transaction w1, (fst x, w1),
           (fst x, eng_do eng (xaccTransCommitEdit transaction) w1)))"

definition UpdateTransaction_apply ::
  "'w engine \<Rightarrow> 'w session_api \<Rightarrow> (split_table \<Rightarrow> split_table) \<Rightarrow> TransactionRequest \<Rightarrow> (TransactionMsg, 'w engine_side) ApplyFn" where
  "UpdateTransaction_apply eng api hash_order request =
     checked_edit (UpdateTransaction_checks eng api hash_order (tr_transaction request)) (UpdateTransaction_edit eng)"

definition UpdateTransaction ::
  "mutation_env \<Rightarrow> exn option \<Rightarrow> TransactionMsg message_pb \<Rightarrow> TransactionRequest message_pb \<Rightarrow> 'w engine \<Rightarrow> 'w session_api \<Rightarrow> (split_table \<Rightarrow> split_table) \<Rightarrow>
     TransactionRequest \<Rightarrow> (TransactionMsg, 'w) mutation_rpc" where
  "UpdateTransaction env admission rpb qpb eng api hash_order request =
     RunMutation env admission rpb (tr_meta_mutation_id request) (SerializeAsString qpb request)
       ''daicho.shim.v1.TransactionService/UpdateTransaction'' (UpdateTransaction_apply eng api hash_order request)"

definition DeleteTransaction_checks ::
  "'w engine \<Rightarrow> 'w session_api \<Rightarrow> string \<Rightarrow> 'w engine_side \<Rightarrow> (exn, Transaction) flow" where
  "DeleteTransaction_checks eng api guid x =
     attempt (Session_book api x) (\<lambda>book.
     attempt (FindTransaction eng book guid ''guid'' (snd x)) (\<lambda>transaction. Ret transaction))"

definition DeleteTransaction_edit :: "'w engine \<Rightarrow> Transaction \<Rightarrow> 'w engine_side \<Rightarrow> unit \<times> 'w engine_side \<times> 'w engine_side" where
  "DeleteTransaction_edit eng transaction x =
     ((), x, (fst x, eng_seq eng [xaccTransBeginEdit transaction, xaccTransDestroy transaction,
                                   xaccTransCommitEdit transaction] (snd x)))"

definition DeleteTransaction_apply ::
  "'w engine \<Rightarrow> 'w session_api \<Rightarrow> DeleteRequest \<Rightarrow> (unit, 'w engine_side) ApplyFn" where
  "DeleteTransaction_apply eng api request =
     checked_edit (DeleteTransaction_checks eng api (dr_guid request)) (DeleteTransaction_edit eng)"

definition DeleteTransaction ::
  "mutation_env \<Rightarrow> exn option \<Rightarrow> unit message_pb \<Rightarrow> DeleteRequest message_pb \<Rightarrow> 'w engine \<Rightarrow> 'w session_api \<Rightarrow> 
     DeleteRequest \<Rightarrow> (unit, 'w) mutation_rpc" where
  "DeleteTransaction env admission rpb qpb eng api request =
     RunMutation env admission rpb (dr_meta_mutation_id request) (SerializeAsString qpb request)
       ''daicho.shim.v1.TransactionService/DeleteTransaction'' (DeleteTransaction_apply eng api request)"

section \<open>QuerySplits\<close>

text \<open>The bits of the engine's \<^verbatim>\<open>cleared_match_t\<close>.\<close>

record cleared_match =
  CLEARED_NO :: int
  CLEARED_CLEARED :: int
  CLEARED_RECONCILED :: int
  CLEARED_FROZEN :: int
  CLEARED_VOIDED :: int

fun cleared_bit :: "cleared_match \<Rightarrow> ReconcileState \<Rightarrow> int option" where
  "cleared_bit cm RECONCILE_STATE_NOT_RECONCILED = Some (CLEARED_NO cm)"
| "cleared_bit cm RECONCILE_STATE_CLEARED = Some (CLEARED_CLEARED cm)"
| "cleared_bit cm RECONCILE_STATE_RECONCILED = Some (CLEARED_RECONCILED cm)"
| "cleared_bit cm RECONCILE_STATE_FROZEN = Some (CLEARED_FROZEN cm)"
| "cleared_bit cm RECONCILE_STATE_VOIDED = Some (CLEARED_VOIDED cm)"
| "cleared_bit cm _ = None"

fun cleared_mask :: "cleared_match \<Rightarrow> int \<Rightarrow> ReconcileState list \<Rightarrow> exn + int" where
  "cleared_mask cm bits [] = Inr bits"
| "cleared_mask cm bits (st # states) =
     (case cleared_bit cm st of
        Some b \<Rightarrow> cleared_mask cm (bits OR b) states
      | None \<Rightarrow> Inl (invalid_argument ''unspecified reconcile state'' ''states''))"

definition ClearedMaskFromStates :: "cleared_match \<Rightarrow> ReconcileState list \<Rightarrow> exn + int" where
  "ClearedMaskFromStates cm states = cleared_mask cm 0 states"

definition kDefaultPageSize :: int where "kDefaultPageSize = 100"
definition kMaxPageSize :: int where "kMaxPageSize = 500"

definition effective_page_size :: "int \<Rightarrow> int" where
  "effective_page_size requested =
     (let page_size = (if requested \<le> 0 then kDefaultPageSize else requested)
      in if page_size > kMaxPageSize then kMaxPageSize else page_size)"

definition split_with_context :: "'w engine \<Rightarrow> 'w \<Rightarrow> Split \<Rightarrow> SplitWithContext" where
  "split_with_context eng w sp =
     (let t = trans_at eng (xaccSplitGetParent (split_at eng sp w)) w in
      \<lparr>sc_split = SplitToProto eng sp w,
       sc_transaction_guid = GuidToString (lib eng) (trans_guid t),
       sc_post_date = valid_date_field (lib eng) (xaccTransGetDatePostedGDate t),
       sc_description = safe (xaccTransGetDescription t),
       sc_txn_currency = map_option (\<lambda>c. CommodityIdToProto eng c w) (xaccTransGetCurrency t)\<rparr>)"

definition value_in_bounds :: "'w engine \<Rightarrow> gnc_numeric option \<Rightarrow> gnc_numeric option \<Rightarrow> 'w \<Rightarrow> Split \<Rightarrow> bool" where
  "value_in_bounds eng vmin vmax w sp \<longleftrightarrow>
     (case vmin of Some m \<Rightarrow> \<not> gnc_numeric_compare (lib eng) (xaccSplitGetValue (split_at eng sp w)) m < 0 | None \<Rightarrow> True) \<and>
     (case vmax of Some m \<Rightarrow> \<not> gnc_numeric_compare (lib eng) (xaccSplitGetValue (split_at eng sp w)) m > 0 | None \<Rightarrow> True)"

text \<open>
  The loop over the results. Its state is \<^verbatim>\<open>skipping\<close> and the entries emitted so far; the
  result has the next page token and \<^verbatim>\<open>skipping\<close> at the end (\<^verbatim>\<open>token_seen\<close> is its complement
  once a token was given).
\<close>

fun query_loop ::
  "('s \<Rightarrow> string) \<Rightarrow> ('s \<Rightarrow> bool) \<Rightarrow> ('s \<Rightarrow> 'o) \<Rightarrow> ('o \<Rightarrow> string) \<Rightarrow> string \<Rightarrow> int \<Rightarrow> bool \<Rightarrow> 'o list \<Rightarrow> 's list \<Rightarrow>
     'o list \<times> string \<times> bool" where
  "query_loop guid ok emit out_guid token page_size skipping out [] = (out, [], skipping)"
| "query_loop guid ok emit out_guid token page_size skipping out (sp # results) =
     (if skipping
      then query_loop guid ok emit out_guid token page_size (guid sp \<noteq> token) out results
      else if \<not> ok sp then query_loop guid ok emit out_guid token page_size False out results
      else if int (length out) = page_size then (out, out_guid (last out), False)
      else query_loop guid ok emit out_guid token page_size False (out @ [emit sp]) results)"

definition query_terms :: "QuerySplitsRequest \<Rightarrow> Account list \<Rightarrow> time64 \<Rightarrow> time64 \<Rightarrow> int \<Rightarrow> query_term list" where
  "query_terms request accounts start end_ts bits =
     (if accounts \<noteq> [] then [xaccQueryAddAccountMatch accounts] else []) @
     (if qs_date_from request \<noteq> None \<or> qs_date_to request \<noteq> None
      then [xaccQueryAddDateMatchTT (qs_date_from request \<noteq> None) start (qs_date_to request \<noteq> None) end_ts] else []) @
     (if qs_description_contains request \<noteq> []
      then [xaccQueryAddDescriptionMatch (c_str (qs_description_contains request))] else []) @
     (if qs_memo_contains request \<noteq> [] then [xaccQueryAddMemoMatch (c_str (qs_memo_contains request))] else []) @
     (if qs_states request \<noteq> [] then [xaccQueryAddClearedMatch bits] else [])"

definition optional_stamp :: "qof_lib \<Rightarrow> (GDate \<Rightarrow> time64) \<Rightarrow> Date option \<Rightarrow> string \<Rightarrow> exn + time64" where
  "optional_stamp ql stamp d ctx =
     (case d of None \<Rightarrow> Inr 0 | Some date \<Rightarrow> map_result stamp (DateFromProto ql date ctx))"

definition optional_numeric :: "Numeric option \<Rightarrow> string \<Rightarrow> exn + gnc_numeric option" where
  "optional_numeric n ctx =
     (case n of None \<Rightarrow> Inr None | Some v \<Rightarrow> map_result Some (NumericFromProto v ctx))"

text \<open>Everything up to the run of the query: the results, and the filter on their values.\<close>

definition QuerySplits_run ::
  "'w engine \<Rightarrow> 'w session_api \<Rightarrow> cleared_match \<Rightarrow> QuerySplitsRequest \<Rightarrow> 'w engine_side \<Rightarrow> exn + (Split list \<times> (Split \<Rightarrow> bool))" where
  "QuerySplits_run eng api cm request x =
     and_then (Session_book api x) (\<lambda>book.
     and_then (traverse (\<lambda>guid. FindAccount eng book guid ''account_guids'' (snd x)) (qs_account_guids request)) (\<lambda>accounts.
     and_then (optional_stamp (lib eng) (gnc_dmy2time64 (lib eng)) (qs_date_from request) ''date_from'') (\<lambda>start.
     and_then (optional_stamp (lib eng) (gnc_dmy2time64_end (lib eng)) (qs_date_to request) ''date_to'') (\<lambda>end_ts.
     and_then (ClearedMaskFromStates cm (qs_states request)) (\<lambda>bits.
     and_then (optional_numeric (qs_value_min request) ''value_min'') (\<lambda>value_min.
     and_then (optional_numeric (qs_value_max request) ''value_max'') (\<lambda>value_max.
       Inr (qof_query_run eng book (query_terms request (rev accounts) start end_ts bits) (snd x),
            value_in_bounds eng value_min value_max (snd x)))))))))"

definition QuerySplits ::
  "'w engine \<Rightarrow> 'w session_api \<Rightarrow> cleared_match \<Rightarrow> QuerySplitsRequest \<Rightarrow> 'w engine_side \<Rightarrow> exn + QuerySplitsResponse" where
  "QuerySplits eng api cm request x =
     and_then (QuerySplits_run eng api cm request x) (\<lambda>(results, in_bounds).
       case query_loop (split_guid_string eng (snd x)) in_bounds (split_with_context eng (snd x))
              (\<lambda>sc. sm_guid (sc_split sc)) (qs_page_token request)
              (effective_page_size (qs_page_size request)) (qs_page_token request \<noteq> []) [] results of
         (splits, next_token, skipping) \<Rightarrow>
           if skipping then Inl (invalid_argument ''page_token does not match any current result'' ''page_token'')
           else Inr \<lparr>qr_splits = splits, qr_next_page_token = next_token\<rparr>)"

section \<open>The handlers keep the protocol's contract\<close>

lemma claim_split_shim: "claim_split update es claimed field guid = Inl e \<Longrightarrow> \<exists>se. e = ExShim se"
  by (auto simp: claim_split_def split: if_splits option.splits)

lemma plan_split_shim: "plan_split eng book w update es claimed i spec = Inl e \<Longrightarrow> \<exists>se. e = ExShim se"
  unfolding plan_split_def Let_def
  by (auto simp: and_then_eq_Inl split: if_splits intro: throws_shim claim_split_shim)

lemma plan_splits_shim: "plan_splits eng book w update es i s claimed specs = Inl e \<Longrightarrow> \<exists>se. e = ExShim se"
proof (induction specs arbitrary: i s claimed)
  case (Cons spec specs)
  then show ?case
    by (auto simp: and_then_eq_Inl Let_def split: if_splits intro: plan_split_shim)
qed simp

lemma PlanTransaction_shim: "PlanTransaction eng ho book spec existing w = Inl e \<Longrightarrow> \<exists>se. e = ExShim se"
  unfolding PlanTransaction_def Let_def
  by (auto simp: and_then_eq_Inl intro: throws_shim plan_splits_shim)

interpretation post_transaction: planned_apply "PostTransaction_apply eng api ho request"
  "edit_plan (PostTransaction_checks eng api ho (tr_transaction request)) (PostTransaction_edit eng)"
  for eng api ho request
  unfolding PostTransaction_apply_def
  by (rule checked_edit_planned)
     (auto simp: PostTransaction_checks_def attempt_eq_Throw intro: throws_shim PlanTransaction_shim)

interpretation update_transaction: planned_apply "UpdateTransaction_apply eng api ho request"
  "edit_plan (UpdateTransaction_checks eng api ho (tr_transaction request)) (UpdateTransaction_edit eng)"
  for eng api ho request
  unfolding UpdateTransaction_apply_def
  by (rule checked_edit_planned)
     (auto simp: UpdateTransaction_checks_def attempt_eq_Throw intro: throws_shim PlanTransaction_shim)

interpretation delete_transaction: planned_apply "DeleteTransaction_apply eng api request"
  "edit_plan (DeleteTransaction_checks eng api (dr_guid request)) (DeleteTransaction_edit eng)"
  for eng api request
  unfolding DeleteTransaction_apply_def
  by (rule checked_edit_planned) (auto simp: DeleteTransaction_checks_def attempt_eq_Throw intro: throws_shim)

section \<open>Plans balance\<close>

text \<open>
  The engine's arithmetic, as documented: a sum that passes \<^verbatim>\<open>gnc_numeric_check\<close> is exact,
  and \<^verbatim>\<open>gnc_numeric_zero_p\<close> of a checked number says that it is zero.
\<close>

definition num_value :: "gnc_numeric \<Rightarrow> rat" where
  "num_value a = Fract (gn_num a) (gn_denom a)"

definition exact_arithmetic :: "qof_lib \<Rightarrow> bool" where
  "exact_arithmetic ql \<longleftrightarrow>
     (\<forall>a b. 0 < gn_denom a \<longrightarrow> 0 < gn_denom b \<longrightarrow> gnc_numeric_check ql (gnc_numeric_add ql a b) \<longrightarrow>
        0 < gn_denom (gnc_numeric_add ql a b) \<and>
        num_value (gnc_numeric_add ql a b) = num_value a + num_value b) \<and>
     (\<forall>a. gnc_numeric_check ql a \<longrightarrow> gnc_numeric_zero_p ql a = (num_value a = 0))"

lemma Fract_is_0: "0 < d \<Longrightarrow> Fract n d = 0 \<longleftrightarrow> n = 0"
  by (simp add: Zero_rat_def eq_rat)

lemma Fract_same_denom: "0 < d \<Longrightarrow> Fract a d + Fract b d = Fract (a + b) d"
  by (simp add: eq_rat) (simp add: algebra_simps)

lemma ref_lib_exact [simp]: "exact_arithmetic ref_lib"
proof -
  have "num_value (gnc_numeric_add ref_lib a b) = num_value a + num_value b \<and> 0 < gn_denom (gnc_numeric_add ref_lib a b)"
    if "0 < gn_denom a" "0 < gn_denom b" for a b
    using that Fract_same_denom [of "gn_denom a" "gn_num a" "gn_num b"]
    by (auto simp: ref_lib_def num_value_def gnc_numeric_create_def)
  moreover have "gnc_numeric_check ref_lib a \<Longrightarrow> gnc_numeric_zero_p ref_lib a = (num_value a = 0)" for a
    by (simp add: ref_lib_def num_value_def Fract_is_0)
  ultimately show ?thesis by (simp add: exact_arithmetic_def)
qed

lemma plan_split_value:
  assumes "plan_split eng book w update es claimed i spec = Inr (p, claimed')"
  shows "sm_value spec \<noteq> None" "sp_value p = gnc_numeric_create (nu_num (the (sm_value spec))) (nu_denom (the (sm_value spec)))"
    "0 < nu_denom (the (sm_value spec))"
  using assms
  by (cases "sm_value spec"; auto simp: plan_split_def Let_def and_then_eq_Inr NumericFromProto_def Numeric_default_def split: if_splits)+

definition proto_value :: "SplitMsg \<Rightarrow> rat" where
  "proto_value spec = Fract (nu_num (field_or Numeric_default (sm_value spec))) (nu_denom (field_or Numeric_default (sm_value spec)))"

lemma plan_splits_ConsE:
  assumes "plan_splits eng book w update es i s claimed (spec # specs) = Inr (ps, tot, claimed')"
  obtains p cl ps' where "ps = p # ps'" and "plan_split eng book w update es claimed i spec = Inr (p, cl)"
    and "gnc_numeric_check (lib eng) (gnc_numeric_add (lib eng) s (sp_value p))"
    and "plan_splits eng book w update es (i + 1) (gnc_numeric_add (lib eng) s (sp_value p)) cl specs = Inr (ps', tot, claimed')"
  using assms by (auto simp: and_then_eq_Inr Let_def split: if_splits)

lemma plan_splits_sum:
  assumes "plan_splits eng book w update es i s claimed specs = Inr (ps, tot, claimed')"
    and exact: "exact_arithmetic (lib eng)" and "0 < gn_denom s"
  shows "num_value tot = num_value s + sum_list (map proto_value specs) \<and>
     (specs \<noteq> [] \<longrightarrow> gnc_numeric_check (lib eng) tot)"
  using assms(1,3)
proof (induction specs arbitrary: i s claimed ps)
  case (Cons spec specs)
  from Cons.prems(1) obtain p cl ps' where p: "plan_split eng book w update es claimed i spec = Inr (p, cl)"
    and ck: "gnc_numeric_check (lib eng) (gnc_numeric_add (lib eng) s (sp_value p))"
    and rest: "plan_splits eng book w update es (i + 1) (gnc_numeric_add (lib eng) s (sp_value p)) cl specs = Inr (ps', tot, claimed')"
    by (rule plan_splits_ConsE)
  have v: "num_value (sp_value p) = proto_value spec" "0 < gn_denom (sp_value p)"
    using plan_split_value [OF p] by (auto simp: num_value_def proto_value_def gnc_numeric_create_def)
  have add: "num_value (gnc_numeric_add (lib eng) s (sp_value p)) = num_value s + proto_value spec"
    "0 < gn_denom (gnc_numeric_add (lib eng) s (sp_value p))"
    using exact ck Cons.prems(2) v by (auto simp: exact_arithmetic_def)
  from Cons.IH [OF rest add(2)] add(1) rest ck show ?case by (cases specs) auto
qed simp

lemma PlanTransactionE:
  assumes "PlanTransaction eng ho book spec existing w = Inr plan"
  obtains tot claimed where "tm_splits spec \<noteq> []"
    and "plan_splits eng book w (existing \<noteq> None) (engine_split_table eng existing w) 0 gnc_numeric_zero [] (tm_splits spec) =
           Inr (tp_splits plan, tot, claimed)"
    and "gnc_numeric_zero_p (lib eng) tot"
    and "tp_doomed plan = map snd (filter (\<lambda>(guid, _). guid \<notin> set claimed) (ho (engine_split_table eng existing w)))"
    and "gnc_commodity_is_currency (commodity_at eng (tp_currency plan) w)"
  using assms by (auto simp: PlanTransaction_def and_then_eq_Inr Let_def)

section \<open>Plans account for every split\<close>

lemma plan_split_claims:
  assumes "plan_split eng book w update es claimed i spec = Inr (p, cl)"
  shows "if sm_guid spec = [] then sp_existing p = None \<and> cl = claimed
     else sp_existing p = map_of es (sm_guid spec) \<and> sp_existing p \<noteq> None \<and> sm_guid spec \<notin> set claimed \<and>
          cl = sm_guid spec # claimed \<and> update"
  using assms
  by (auto simp: plan_split_def claim_split_def Let_def and_then_eq_Inr split: if_splits option.splits)

text \<open>The GUIDs the specification names, in its order.\<close>

definition named_guids :: "SplitMsg list \<Rightarrow> string list" where
  "named_guids specs = filter (\<lambda>g. g \<noteq> []) (map sm_guid specs)"

lemma plan_splits_claims:
  assumes "plan_splits eng book w update es i s claimed specs = Inr (ps, tot, claimed')"
  shows "claimed' = rev (named_guids specs) @ claimed \<and> (distinct claimed \<longrightarrow> distinct claimed') \<and>
     map (\<lambda>p. sp_existing p) ps = map (\<lambda>spec. if sm_guid spec = [] then None else map_of es (sm_guid spec)) specs \<and>
     (\<forall>g \<in> set (named_guids specs). map_of es g \<noteq> None)"
  using assms
proof (induction specs arbitrary: i s claimed ps)
  case (Cons spec specs)
  from Cons.prems obtain p cl ps' where ps: "ps = p # ps'" and p: "plan_split eng book w update es claimed i spec = Inr (p, cl)"
    and rest: "plan_splits eng book w update es (i + 1) (gnc_numeric_add (lib eng) s (sp_value p)) cl specs = Inr (ps', tot, claimed')"
    by (rule plan_splits_ConsE)
  from Cons.IH [OF rest] plan_split_claims [OF p] ps show ?case
    by (auto simp: named_guids_def split: if_splits)
qed (simp add: named_guids_def)

lemma engine_split_table_snoc:
  "ordered_map m \<Longrightarrow> ordered_map (foldl (\<lambda>m sp. upsert (k sp) sp (\<lambda>_. sp) m) m xs) \<and>
     (distinct (map k xs) \<longrightarrow> fst ` set m \<inter> k ` set xs = {} \<longrightarrow>
      set (foldl (\<lambda>m sp. upsert (k sp) sp (\<lambda>_. sp) m) m xs) = set m \<union> (\<lambda>sp. (k sp, sp)) ` set xs)"
proof (induction xs arbitrary: m)
  case (Cons x xs)
  have "fst ` set (upsert (k x) x (\<lambda>_. x) m) = insert (k x) (fst ` set m)" by simp
  moreover have "k x \<notin> fst ` set m \<Longrightarrow> set (upsert (k x) x (\<lambda>_. x) m) = insert (k x, x) (set m)"
    by (induction "k x" x "\<lambda>_ :: 'b. x" m rule: upsert.induct) auto
  ultimately show ?case using Cons.IH [of "upsert (k x) x (\<lambda>_. x) m"] Cons.prems by auto
qed simp

lemma engine_split_table_set:
  assumes "distinct (map (split_guid_string eng w) (xaccTransGetSplitList (trans_at eng t w)))"
  shows "set (engine_split_table eng (Some t) w) =
      (\<lambda>sp. (split_guid_string eng w sp, sp)) ` set (xaccTransGetSplitList (trans_at eng t w))"
    and "map_of (engine_split_table eng (Some t) w) g = Some sp \<longleftrightarrow>
      sp \<in> set (xaccTransGetSplitList (trans_at eng t w)) \<and> g = split_guid_string eng w sp"
proof -
  let ?k = "split_guid_string eng w" and ?xs = "xaccTransGetSplitList (trans_at eng t w)"
  note f = engine_split_table_snoc [of "[]" ?k ?xs]
  show s: "set (engine_split_table eng (Some t) w) = (\<lambda>sp. (?k sp, sp)) ` set ?xs"
    using f assms by (simp add: engine_split_table_def)
  have "distinct (map fst (engine_split_table eng (Some t) w))"
    using f by (simp add: engine_split_table_def ordered_map_distinct)
  then have "map_of (engine_split_table eng (Some t) w) g = Some sp \<longleftrightarrow> (g, sp) \<in> set (engine_split_table eng (Some t) w)"
    by simp
  then show "map_of (engine_split_table eng (Some t) w) g = Some sp \<longleftrightarrow> sp \<in> set ?xs \<and> g = ?k sp"
    unfolding s by auto
qed

text \<open>How the named GUIDs of a specification look up in the table of the transaction's splits.\<close>

lemma named_lookups:
  "\<forall>g \<in> set (named_guids specs). map_of es g \<noteq> None \<Longrightarrow>
     filter (\<lambda>e. e \<noteq> None) (map (\<lambda>s. if sm_guid s = [] then None else map_of es (sm_guid s)) specs) =
       map (map_of es) (named_guids specs)"
  by (induction specs) (auto simp: named_guids_def)

lemma table_lookup_inj:
  assumes look: "\<And>g sp. map_of es g = Some sp \<longleftrightarrow> sp \<in> set xs \<and> g = k sp" and "\<forall>g \<in> A. map_of es g \<noteq> None"
  shows "inj_on (map_of es) A"
proof (rule inj_onI)
  fix g g' assume "g \<in> A" "g' \<in> A" "map_of es g = map_of es g'"
  with assms(2) obtain sp where "map_of es g = Some sp" "map_of es g' = Some sp" by (metis not_None_eq)
  with look show "g = g'" by metis
qed

lemma planned_owners:
  assumes ex: "map sp_existing plans = map (\<lambda>s. if sm_guid s = [] then None else map_of es (sm_guid s)) specs"
    and look: "\<And>g sp. map_of es g = Some sp \<longleftrightarrow> sp \<in> set xs \<and> g = k sp"
    and known: "\<forall>g \<in> set (named_guids specs). map_of es g \<noteq> None"
  shows "list_all2 (\<lambda>s p. if sm_guid s = [] then sp_existing p = None
      else \<exists>sp \<in> set xs. sp_existing p = Some sp \<and> k sp = sm_guid s) specs plans"
proof (rule list_all2_all_nthI)
  show "length specs = length plans" using arg_cong [OF ex, of length] by simp
  fix i assume i: "i < length specs"
  have e: "sp_existing (plans ! i) = (if sm_guid (specs ! i) = [] then None else map_of es (sm_guid (specs ! i)))"
    using arg_cong [OF ex, of "\<lambda>l. l ! i"] arg_cong [OF ex, of length] i by simp
  have "sm_guid (specs ! i) \<noteq> [] \<Longrightarrow> map_of es (sm_guid (specs ! i)) \<noteq> None" using known i by (auto simp: named_guids_def)
  with e look show "if sm_guid (specs ! i) = [] then sp_existing (plans ! i) = None
      else \<exists>sp \<in> set xs. sp_existing (plans ! i) = Some sp \<and> k sp = sm_guid (specs ! i)" by auto metis
qed

text \<open>The splits a plan for an existing transaction keeps and those it destroys.\<close>

lemma update_plan_facts:
  assumes "PlanTransaction eng ho book spec (Some t) w = Inr plan"
    and guids: "distinct (map (split_guid_string eng w) (xaccTransGetSplitList (trans_at eng t w)))"
  shows "Some sp \<in> sp_existing ` set (tp_splits plan) \<longleftrightarrow>
      sp \<in> set (xaccTransGetSplitList (trans_at eng t w)) \<and> split_guid_string eng w sp \<in> set (named_guids (tm_splits spec))"
    and "(\<And>m. set (ho m) = set m) \<Longrightarrow> sp \<in> set (tp_doomed plan) \<longleftrightarrow>
      sp \<in> set (xaccTransGetSplitList (trans_at eng t w)) \<and> split_guid_string eng w sp \<notin> set (named_guids (tm_splits spec))"
    and "distinct (filter (\<lambda>e. e \<noteq> None) (map sp_existing (tp_splits plan)))"
    and "list_all2 (\<lambda>s p. if sm_guid s = [] then sp_existing p = None
      else \<exists>sp \<in> set (xaccTransGetSplitList (trans_at eng t w)). sp_existing p = Some sp \<and> split_guid_string eng w sp = sm_guid s)
      (tm_splits spec) (tp_splits plan)"
    and "(\<And>m. mset (ho m) = mset m) \<Longrightarrow> distinct (tp_doomed plan)"
proof -
  let ?xs = "xaccTransGetSplitList (trans_at eng t w)" and ?k = "split_guid_string eng w"
  let ?es = "engine_split_table eng (Some t) w" and ?named = "named_guids (tm_splits spec)"
  from assms(1) obtain tot claimed where
    ps: "plan_splits eng book w True ?es 0 gnc_numeric_zero [] (tm_splits spec) = Inr (tp_splits plan, tot, claimed)"
    and doomed: "tp_doomed plan = map snd (filter (\<lambda>(guid, _). guid \<notin> set claimed) (ho ?es))"
    by (rule PlanTransactionE) simp
  note cl = plan_splits_claims [OF ps]
  note look = engine_split_table_set(2) [OF guids]
  have ex: "map sp_existing (tp_splits plan) =
      map (\<lambda>s. if sm_guid s = [] then None else map_of ?es (sm_guid s)) (tm_splits spec)" using cl by simp
  have known: "\<forall>g \<in> set ?named. map_of ?es g \<noteq> None" using cl by simp
  have some: "filter (\<lambda>e. e \<noteq> None) (map sp_existing (tp_splits plan)) = map (map_of ?es) ?named"
    unfolding ex by (rule named_lookups [OF known])
  have "distinct ?named" using cl by (metis append_Nil2 distinct.simps(1) distinct_rev)
  then have dist: "distinct (map (map_of ?es) ?named)"
    using table_lookup_inj [OF look known] by (simp add: distinct_map)
  have kept: "Some sp \<in> sp_existing ` set (tp_splits plan) \<longleftrightarrow> sp \<in> set ?xs \<and> ?k sp \<in> set ?named" for sp
  proof -
    have "Some sp \<in> sp_existing ` set (tp_splits plan) \<longleftrightarrow> Some sp \<in> set (filter (\<lambda>e. e \<noteq> None) (map sp_existing (tp_splits plan)))"
      by auto
    also have "\<dots> \<longleftrightarrow> (\<exists>g \<in> set ?named. map_of ?es g = Some sp)" unfolding some by (auto simp: image_iff) metis
    also have "\<dots> \<longleftrightarrow> sp \<in> set ?xs \<and> ?k sp \<in> set ?named" using look by auto
    finally show ?thesis .
  qed
  then show "Some sp \<in> sp_existing ` set (tp_splits plan) \<longleftrightarrow> sp \<in> set ?xs \<and> ?k sp \<in> set ?named" for sp .
  show "sp \<in> set (tp_doomed plan) \<longleftrightarrow> sp \<in> set ?xs \<and> ?k sp \<notin> set ?named" if "\<And>m. set (ho m) = set m" for sp
    using cl that engine_split_table_set(1) [OF guids] by (auto simp: doomed image_iff)
  show "distinct (filter (\<lambda>e. e \<noteq> None) (map sp_existing (tp_splits plan)))" using dist some by simp
  show "list_all2 (\<lambda>s p. if sm_guid s = [] then sp_existing p = None
      else \<exists>sp \<in> set ?xs. sp_existing p = Some sp \<and> ?k sp = sm_guid s) (tm_splits spec) (tp_splits plan)"
    by (rule planned_owners [OF ex look known])
  show "distinct (tp_doomed plan)" if "\<And>m. mset (ho m) = mset m"
  proof -
    have "ordered_map ?es" using engine_split_table_snoc [of "[]" ?k ?xs] by (simp add: engine_split_table_def)
    from ordered_map_distinct [OF this] have "distinct ?es" by (simp add: distinct_map)
    then have "distinct (ho ?es)" using that by (metis mset_eq_imp_distinct_iff)
    moreover have "inj_on snd (set (ho ?es))"
      using engine_split_table_set(1) [OF guids] mset_eq_setD [OF that, of ?es] by (auto simp: inj_on_def)
    ultimately show ?thesis unfolding doomed by (auto simp: distinct_map intro: inj_on_subset)
  qed
qed

section \<open>Pages\<close>

lemma query_loop_emits:
  assumes "int (length out) \<le> page_size"
  shows "query_loop guid ok emit og token page_size False out xs =
     (let page = take (nat page_size - length out) (filter ok xs) in
      (out @ map emit page,
       if length out + length (filter ok xs) > nat page_size then og (last (out @ map emit page)) else [],
       False))"
  using assms
proof (induction xs arbitrary: out)
  case (Cons x xs)
  show ?case
  proof (cases "ok x \<and> int (length out) \<noteq> page_size")
    case True
    with Cons.prems have le: "int (length (out @ [emit x])) \<le> page_size" by simp
    have "nat page_size - length out = Suc (nat page_size - Suc (length out))" using le by simp
    with True Cons.IH [OF le] show ?thesis by (simp add: Let_def)
  next
    case False
    with Cons show ?thesis by (auto simp: Let_def)
  qed
qed (simp add: Let_def nat_less_iff)

lemma query_loop_skips:
  assumes "token \<notin> guid ` set pre"
  shows "query_loop guid ok emit og token page_size True out (pre @ x # xs) =
     (if guid x = token then query_loop guid ok emit og token page_size False out xs
      else query_loop guid ok emit og token page_size True out xs)"
  using assms by (induction pre) auto

lemma query_loop_no_token:
  "token \<notin> guid ` set xs \<Longrightarrow> query_loop guid ok emit og token page_size True out xs = (out, [], True)"
  by (induction xs) auto

lemma effective_page_size_bounds: "1 \<le> effective_page_size n \<and> effective_page_size n \<le> 500"
  by (simp add: effective_page_size_def kDefaultPageSize_def kMaxPageSize_def Let_def)

text \<open>
  What one call returns, said without the loop: the results after the token's split, filtered,
  cut to a page, with the last split of the page as the next token when something is left.
\<close>

definition page_after :: "('s \<Rightarrow> string) \<Rightarrow> string \<Rightarrow> 's list \<Rightarrow> 's list" where
  "page_after guid token results = (if token = [] then results else tl (dropWhile (\<lambda>s. guid s \<noteq> token) results))"

lemma query_loop_reference:
  assumes "1 \<le> page_size" and "\<And>s. og (emit s) = guid s" and found: "token \<noteq> [] \<Longrightarrow> token \<in> guid ` set results"
  shows "query_loop guid ok emit og token page_size (token \<noteq> []) [] results =
     (let matching = filter ok (page_after guid token results) in
      (map emit (take (nat page_size) matching),
       if length matching > nat page_size then guid (matching ! (nat page_size - 1)) else [], False))"
proof -
  have "query_loop guid ok emit og token page_size (token \<noteq> []) [] results =
      query_loop guid ok emit og token page_size False [] (page_after guid token results)"
  proof (cases "token = []")
    case False
    with found obtain x where x: "x \<in> set results" "\<not> (guid x \<noteq> token)" by auto
    let ?pre = "takeWhile (\<lambda>s. guid s \<noteq> token) results"
    obtain y ys where d: "dropWhile (\<lambda>s. guid s \<noteq> token) results = y # ys"
      using x by (cases "dropWhile (\<lambda>s. guid s \<noteq> token) results") (auto simp: dropWhile_eq_Nil_conv)
    from d hd_dropWhile [of "\<lambda>s. guid s \<noteq> token" results] have "guid y = token" by simp
    moreover have "results = ?pre @ y # ys" using d takeWhile_dropWhile_id [of "\<lambda>s. guid s \<noteq> token" results] by simp
    moreover have "token \<notin> guid ` set ?pre" by (auto dest: set_takeWhileD)
    ultimately show ?thesis
      using False d query_loop_skips [of token guid ?pre ok emit og page_size "[]" y ys] by (simp add: page_after_def)
  qed (simp add: page_after_def)
  moreover have "last (map emit (take (nat page_size) m)) = emit (m ! (nat page_size - 1))" if "length m > nat page_size" for m
  proof -
    have "take (nat page_size) m \<noteq> []" using that assms(1) by auto
    with that assms(1) show ?thesis by (simp add: last_map last_conv_nth min_absorb2)
  qed
  ultimately show ?thesis
    using assms(1,2) by (simp add: query_loop_emits Let_def)
qed

text \<open>A client that follows the page tokens, for at most a given number of calls.\<close>

fun fetch_pages :: "(string \<Rightarrow> exn + QuerySplitsResponse) \<Rightarrow> nat \<Rightarrow> string \<Rightarrow> (exn + SplitWithContext list) option" where
  "fetch_pages call 0 token = None"
| "fetch_pages call (Suc n) token =
     (case call token of
        Inl e \<Rightarrow> Some (Inl e)
      | Inr r \<Rightarrow>
          if qr_next_page_token r = [] then Some (Inr (qr_splits r))
          else map_option (map_result (\<lambda>rest. qr_splits r @ rest)) (fetch_pages call n (qr_next_page_token r)))"

lemma filter_splitE:
  assumes "filter P xs = as @ b # bs"
  obtains us vs where "xs = us @ b # vs" and "filter P us = as" and "filter P vs = bs"
proof -
  have "\<exists>us ws. xs = us @ ws \<and> filter P us = as \<and> filter P ws = b # bs"
    using assms
  proof (induction xs arbitrary: as)
    case (Cons x xs)
    show ?case
    proof (cases "as = [] \<or> \<not> P x")
      case True
      then show ?thesis
      proof
        assume "as = []"
        with Cons.prems show ?thesis by (intro exI [of _ "[]"] exI [of _ "x # xs"]) simp
      next
        assume "\<not> P x"
        with Cons.IH [of as] Cons.prems obtain us ws where "xs = us @ ws" "filter P us = as" "filter P ws = b # bs" by auto
        with \<open>\<not> P x\<close> show ?thesis by (intro exI [of _ "x # us"] exI [of _ ws]) simp
      qed
    next
      case False
      with Cons.prems obtain as' where "as = x # as'" "filter P xs = as' @ b # bs" by (cases as) auto
      with Cons.IH [of as'] obtain us ws where "xs = us @ ws" "filter P us = as'" "filter P ws = b # bs" by auto
      with False \<open>as = x # as'\<close> show ?thesis by (intro exI [of _ "x # us"] exI [of _ ws]) simp
    qed
  qed simp
  then obtain us ws where "xs = us @ ws" "filter P us = as" "filter P ws = b # bs" by blast
  then obtain us' vs where "ws = us' @ b # vs" "\<forall>u \<in> set us'. \<not> P u" "bs = filter P vs"
    using filter_eq_ConsD [of P ws b bs] by auto
  then show thesis using that [of "us @ us'" vs] \<open>xs = us @ ws\<close> \<open>filter P us = as\<close> by (simp add: filter_empty_conv)
qed

lemma fetch_pages_from:
  assumes guid: "\<And>s. guid s \<noteq> []" and og: "\<And>s. og (emit s) = guid s" and ps: "1 \<le> (ps :: int)" and dist: "distinct (map guid results)"
    and call: "\<And>token. call token =
       (case query_loop guid ok emit og token ps (token \<noteq> []) [] results of
          (splits, next_token, skipping) \<Rightarrow>
            if skipping then Inl e else Inr \<lparr>qr_splits = splits, qr_next_page_token = next_token\<rparr>)"
    and start: "(token = [] \<and> xs = results) \<or> (\<exists>pre x. results = pre @ x # xs \<and> token = guid x)"
  shows "fetch_pages call (Suc (length (filter ok xs))) token = Some (Inr (map emit (filter ok xs)))"
  using start
proof (induction "length (filter ok xs)" arbitrary: xs token rule: less_induct)
  case less
  let ?page = "take (nat ps) (filter ok xs)"
  have loop: "query_loop guid ok emit og token ps (token \<noteq> []) [] results = query_loop guid ok emit og token ps False [] xs"
    using less.prems
  proof
    assume "\<exists>pre x. results = pre @ x # xs \<and> token = guid x"
    then obtain pre x where r: "results = pre @ x # xs" "token = guid x" by blast
    with dist have "token \<notin> guid ` set pre" by auto
    from query_loop_skips [OF this, of ok emit og ps "[]" x xs] r guid show ?thesis by auto
  qed simp
  have page: "call token = Inr \<lparr>qr_splits = map emit ?page,
      qr_next_page_token = (if length (filter ok xs) > nat ps then og (last (map emit ?page)) else [])\<rparr>"
    using query_loop_emits [of "[]" ps guid ok emit og token xs] ps by (simp add: call loop Let_def)
  show ?case
  proof (cases "length (filter ok xs) > nat ps")
    case False
    with page show ?thesis by simp
  next
    case True
    have ne: "?page \<noteq> []" using True ps by auto
    then obtain as y where y: "?page = as @ [y]" by (metis append_butlast_last_id)
    have "filter ok xs = as @ y # drop (nat ps) (filter ok xs)" using y by (metis append_take_drop_id append.assoc append_Cons append_Nil)
    from filter_splitE [OF this] obtain us vs where xs: "xs = us @ y # vs" and vs: "filter ok vs = drop (nat ps) (filter ok xs)"
      by metis
    have less': "length (filter ok vs) < length (filter ok xs)" using vs True ps by simp
    have tok: "og (last (map emit ?page)) = guid y" using y og by simp
    have start': "(guid y = [] \<and> vs = results) \<or> (\<exists>pre x. results = pre @ x # vs \<and> guid y = guid x)"
      using less.prems xs by (metis append.assoc append_Cons)
    obtain k where k: "length (filter ok xs) = Suc (length (filter ok vs)) + k" using less' by (metis less_iff_Suc_add add_Suc)
    have mono: "fetch_pages call n t = Some r \<Longrightarrow> fetch_pages call (n + k) t = Some r" for n t r
    proof (induction n arbitrary: t r)
      case (Suc n)
      then show ?case by (auto split: sum.splits if_splits)
    qed simp
    from mono [OF less.hyps [OF less' start']] k
    have "fetch_pages call (length (filter ok xs)) (guid y) = Some (Inr (map emit (filter ok vs)))" by (simp add: add.commute)
    moreover have "map emit ?page @ map emit (filter ok vs) = map emit (filter ok xs)" unfolding vs by (metis append_take_drop_id map_append)
    ultimately show ?thesis using page True tok guid by (simp add: map_result_def)
  qed
qed

section \<open>Properties\<close>

text \<open>
  C8. No unbalanced transaction is ever planned, and so none is ever posted: when planning
  accepts a specification, the values of its splits, as exact fractions, sum to zero, and
  each planned split carries its specification's value.
\<close>
theorem accepted_plan_balances:
  assumes "PlanTransaction eng ho book spec existing w = Inr plan" and "exact_arithmetic (lib eng)"
  shows "sum_list (map proto_value (tm_splits spec)) = 0 \<and>
     map (\<lambda>p. num_value (sp_value p)) (tp_splits plan) = map proto_value (tm_splits spec)"
proof -
  have vals: "map (\<lambda>p. num_value (sp_value p)) ps = map proto_value specs"
    if "plan_splits eng book w upd es i s claimed specs = Inr (ps, tot, claimed')" for upd es i s claimed specs ps tot claimed'
    using that
  proof (induction specs arbitrary: i s claimed ps)
    case (Cons spec specs)
    from Cons.prems show ?case
      by (rule plan_splits_ConsE)
         (use Cons.IH plan_split_value in \<open>fastforce simp: num_value_def proto_value_def gnc_numeric_create_def\<close>)
  qed simp
  from assms(1) obtain tot claimed where ne: "tm_splits spec \<noteq> []"
    and ps: "plan_splits eng book w (existing \<noteq> None) (engine_split_table eng existing w) 0 gnc_numeric_zero [] (tm_splits spec) =
           Inr (tp_splits plan, tot, claimed)"
    and z: "gnc_numeric_zero_p (lib eng) tot" by (rule PlanTransactionE)
  have "num_value gnc_numeric_zero = 0" "0 < gn_denom gnc_numeric_zero"
    by (simp_all add: num_value_def gnc_numeric_zero_def gnc_numeric_create_def Fract_is_0)
  with plan_splits_sum [OF ps assms(2)] z ne assms(2) vals [OF ps] show ?thesis
    by (auto simp: exact_arithmetic_def)
qed

text \<open>
  An update accounts for every split of the transaction exactly once: the splits the plan
  updates in place and the splits it destroys are disjoint, no split is updated twice, and
  together they are all the splits the transaction has; each specification that names a
  GUID gets the split with that GUID, and the others get a new one.
\<close>
theorem update_plan_partitions:
  assumes "PlanTransaction eng ho book spec (Some t) w = Inr plan"
    and guids: "distinct (map (split_guid_string eng w) (xaccTransGetSplitList (trans_at eng t w)))"
    and ho: "\<And>m. set (ho m) = set m"
  shows "let old = set (xaccTransGetSplitList (trans_at eng t w));
             kept = {sp. Some sp \<in> sp_existing ` set (tp_splits plan)}
     in kept \<inter> set (tp_doomed plan) = {} \<and> kept \<union> set (tp_doomed plan) = old \<and>
        distinct (filter (\<lambda>e. e \<noteq> None) (map sp_existing (tp_splits plan))) \<and>
        list_all2 (\<lambda>s p. if sm_guid s = [] then sp_existing p = None
                        else \<exists>sp \<in> old. sp_existing p = Some sp \<and> split_guid_string eng w sp = sm_guid s)
          (tm_splits spec) (tp_splits plan)"
proof -
  from update_plan_facts [OF assms(1,2)] ho have f: "\<And>sp. Some sp \<in> sp_existing ` set (tp_splits plan) \<longleftrightarrow>
        sp \<in> set (xaccTransGetSplitList (trans_at eng t w)) \<and> split_guid_string eng w sp \<in> set (named_guids (tm_splits spec))"
      "\<And>sp. sp \<in> set (tp_doomed plan) \<longleftrightarrow>
        sp \<in> set (xaccTransGetSplitList (trans_at eng t w)) \<and> split_guid_string eng w sp \<notin> set (named_guids (tm_splits spec))"
    by blast+
  show ?thesis using f update_plan_facts(3,4) [OF assms(1,2)] by (auto simp: Let_def)
qed

text \<open>
  C24. One page is what its description says: the loop over the query's results answers with the
  matching splits after the token's split, cut to the effective page size, and names the last of
  them as the next token exactly when some are left; a token that is no current result is an
  \<open>INVALID_ARGUMENT\<close>.
\<close>
theorem page_equals_reference:
  assumes run: "QuerySplits_run eng api cm request x = Inr (results, in_bounds)"
  shows "QuerySplits eng api cm request x =
    (let token = qs_page_token request; n = nat (effective_page_size (qs_page_size request));
         guid = split_guid_string eng (snd x); matching = filter in_bounds (page_after guid token results)
     in if token \<noteq> [] \<and> token \<notin> guid ` set results
        then Inl (invalid_argument ''page_token does not match any current result'' ''page_token'')
        else Inr \<lparr>qr_splits = map (split_with_context eng (snd x)) (take n matching),
                  qr_next_page_token = (if length matching > n then guid (matching ! (n - 1)) else [])\<rparr>)"
proof -
  let ?guid = "split_guid_string eng (snd x)" and ?token = "qs_page_token request"
  have og: "sm_guid (sc_split (split_with_context eng (snd x) s)) = ?guid s" for s
    by (simp add: split_with_context_def SplitToProto_def split_guid_string_def Let_def)
  have ps: "1 \<le> effective_page_size (qs_page_size request)" using effective_page_size_bounds by simp
  show ?thesis
  proof (cases "?token \<noteq> [] \<and> ?token \<notin> ?guid ` set results")
    case True
    then show ?thesis using run by (simp add: QuerySplits_def Let_def query_loop_no_token)
  next
    case False
    then have "?token \<noteq> [] \<Longrightarrow> ?token \<in> ?guid ` set results" by blast
    from query_loop_reference [where emit = "split_with_context eng (snd x)", OF ps og this] False run
    show ?thesis by (simp add: QuerySplits_def Let_def)
  qed
qed

text \<open>
  C23. Paging is complete and without repetition: a client that starts without a token and
  follows \<open>next_page_token\<close> until it is empty gets, in order and each exactly once, every
  split the query finds whose value is within the bounds, in finitely many calls and in
  pages of at most 500.
\<close>
theorem pages_enumerate_results:
  assumes run: "QuerySplits_run eng api cm request x = Inr (results, in_bounds)"
    and "guid_text (lib eng)" and "distinct (map (split_guid_string eng (snd x)) results)"
  shows "fetch_pages (\<lambda>token. QuerySplits eng api cm (request\<lparr>qs_page_token := token\<rparr>) x)
       (Suc (length (filter in_bounds results))) [] =
     Some (Inr (map (split_with_context eng (snd x)) (filter in_bounds results))) \<and>
   (\<forall>token r. QuerySplits eng api cm (request\<lparr>qs_page_token := token\<rparr>) x = Inr r \<longrightarrow> length (qr_splits r) \<le> 500)"
proof -
  let ?ps = "effective_page_size (qs_page_size request)"
  let ?loop = "\<lambda>token. query_loop (split_guid_string eng (snd x)) in_bounds (split_with_context eng (snd x))
      (\<lambda>sc. sm_guid (sc_split sc)) token ?ps (token \<noteq> []) [] results"
  have terms: "query_terms (request\<lparr>qs_page_token := token\<rparr>) = query_terms request" for token
    by (intro ext) (simp add: query_terms_def)
  have run': "QuerySplits_run eng api cm (request\<lparr>qs_page_token := token\<rparr>) x = Inr (results, in_bounds)" for token
    using run by (simp add: QuerySplits_run_def terms)
  have call: "QuerySplits eng api cm (request\<lparr>qs_page_token := token\<rparr>) x =
     (case ?loop token of (splits, next_token, skipping) \<Rightarrow>
        if skipping then Inl (invalid_argument ''page_token does not match any current result'' ''page_token'')
        else Inr \<lparr>qr_splits = splits, qr_next_page_token = next_token\<rparr>)" for token
    by (simp add: QuerySplits_def run')
  have guid: "split_guid_string eng (snd x) sp \<noteq> []" for sp
    using assms(2) by (simp add: split_guid_string_def guid_text_def GuidToString_def)
  have og: "sm_guid (sc_split (split_with_context eng (snd x) sp)) = split_guid_string eng (snd x) sp" for sp
    by (simp add: split_with_context_def SplitToProto_def split_guid_string_def Let_def)
  have short: "length (fst (query_loop g ok em og' tok ps sk out xs)) \<le> nat ps"
    if "int (length out) \<le> ps" for g :: "Split \<Rightarrow> string" and ok em og' tok ps sk out xs
    using that by (induction g ok em og' tok ps sk out xs rule: query_loop.induct) auto
  have "length (qr_splits r) \<le> 500"
    if "QuerySplits eng api cm (request\<lparr>qs_page_token := token\<rparr>) x = Inr r" for token r
  proof -
    obtain splits next_token skipping where l: "?loop token = (splits, next_token, skipping)" by (cases "?loop token") auto
    have "qr_splits r = splits" using that by (auto simp: call l split: if_splits)
    moreover have "length splits \<le> nat ?ps"
      using short [of "[]" ?ps "split_guid_string eng (snd x)" in_bounds "split_with_context eng (snd x)"
        "\<lambda>sc. sm_guid (sc_split sc)" token "token \<noteq> []" results] effective_page_size_bounds [of "qs_page_size request"] l
      by simp
    ultimately show ?thesis using effective_page_size_bounds [of "qs_page_size request"] by (simp add: le_nat_iff)
  qed
  with fetch_pages_from [OF guid og _ assms(3) call, of "[]" results] effective_page_size_bounds show ?thesis by auto
qed

end
