(* ===== verification/Commodity_Service.thy ===== *)
theory Commodity_Service
  imports Transaction_Service
begin

text \<open>
  \<^verbatim>\<open>src/rpc/commodity_service.{h,cpp}\<close>: commodities, prices and balances.
\<close>

section \<open>Conversions\<close>

definition CommodityToProto :: "'w engine \<Rightarrow> gnc_commodity \<Rightarrow> 'w \<Rightarrow> CommodityMsg" where
  "CommodityToProto eng c w =
     (let v = commodity_at eng c w in
      \<lparr>cm_id = Some (CommodityIdToProto eng c w), cm_fullname = safe (gnc_commodity_get_fullname v),
       cm_fraction = gnc_commodity_get_fraction v, cm_is_currency = gnc_commodity_is_currency v\<rparr>)"

definition PriceToProto :: "'w engine \<Rightarrow> GNCPrice \<Rightarrow> 'w \<Rightarrow> PriceMsg" where
  "PriceToProto eng p w =
     (let v = price_at eng p w in
      \<lparr>pm_guid = GuidToString (lib eng) (price_guid v),
       pm_commodity = Some (CommodityIdToProto eng (gnc_price_get_commodity v) w),
       pm_currency = Some (CommodityIdToProto eng (gnc_price_get_currency v) w),
       pm_date = valid_date_field (lib eng) (time64_to_gdate (lib eng) (gnc_price_get_time64 v)),
       pm_value = Some (NumericToProto (gnc_price_get_value v)),
       pm_source = safe (gnc_price_get_source_string v)\<rparr>)"

section \<open>Commodities and prices\<close>

definition ListCommodities :: "'w engine \<Rightarrow> 'w session_api \<Rightarrow> 'w engine_side \<Rightarrow> exn + CommodityMsg list" where
  "ListCommodities eng api x =
     map_result (\<lambda>book. concat (map (\<lambda>ns. map (\<lambda>c. CommodityToProto eng c (snd x))
                                   (gnc_commodity_table_get_commodities eng book ns (snd x)))
                             (gnc_commodity_table_get_namespaces eng book (snd x))))
       (Session_book api x)"

definition GetPrices :: "'w engine \<Rightarrow> 'w session_api \<Rightarrow> GetPricesRequest \<Rightarrow> 'w engine_side \<Rightarrow> exn + PriceMsg list" where
  "GetPrices eng api request x =
     and_then (Session_book api x) (\<lambda>book.
     and_then (FindCommodity eng book (field_or CommodityId_default (gp_commodity request)) ''commodity'' (snd x)) (\<lambda>commodity.
     and_then (case gp_currency request of
                 Some cid \<Rightarrow> map_result Some (FindCommodity eng book cid ''currency'' (snd x))
               | None \<Rightarrow> Inr None) (\<lambda>currency.
     and_then (optional_stamp (lib eng) (gnc_dmy2time64 (lib eng)) (gp_date_from request) ''date_from'') (\<lambda>from_ts.
     and_then (optional_stamp (lib eng) (gnc_dmy2time64_end (lib eng)) (gp_date_to request) ''date_to'') (\<lambda>to_ts.
       Inr (map (\<lambda>p. PriceToProto eng p (snd x))
              (filter (\<lambda>p. let stamp = gnc_price_get_time64 (price_at eng p (snd x)) in
                            \<not> (gp_date_from request \<noteq> None \<and> stamp < from_ts) \<and>
                            \<not> (gp_date_to request \<noteq> None \<and> stamp > to_ts))
                 (gnc_pricedb_get_prices eng book commodity currency (snd x)))))))))"

definition AddPrice_checks ::
  "'w engine \<Rightarrow> 'w session_api \<Rightarrow> PriceMsg \<Rightarrow> 'w engine_side \<Rightarrow>
     (exn, QofBook \<times> gnc_commodity \<times> gnc_commodity \<times> GDate \<times> gnc_numeric) flow" where
  "AddPrice_checks eng api spec x =
     attempt (require (pm_guid spec = []) (invalid_argument ''guid must be empty on create; the engine assigns'' ''price.guid'')) (\<lambda>_.
     attempt (Session_book api x) (\<lambda>book.
     attempt (FindCommodity eng book (field_or CommodityId_default (pm_commodity spec)) ''price.commodity'' (snd x)) (\<lambda>commodity.
     attempt (FindCommodity eng book (field_or CommodityId_default (pm_currency spec)) ''price.currency'' (snd x)) (\<lambda>currency.
     attempt (require (gnc_commodity_is_currency (commodity_at eng currency (snd x)))
       (ExShim (shim_error ERROR_CODE_CURRENCY_MISMATCH ''price currency is not a currency commodity'' ''price.currency''))) (\<lambda>_.
     attempt (require (pm_date spec \<noteq> None) (invalid_argument ''date is required'' ''price.date'')) (\<lambda>_.
     attempt (DateFromProto (lib eng) (field_or Date_default (pm_date spec)) ''price.date'') (\<lambda>date.
     attempt (NumericFromProto (field_or Numeric_default (pm_value spec)) ''price.value'') (\<lambda>value.
       Ret (book, commodity, currency, date, value)))))))))"

definition AddPrice_edit ::
  "'w engine \<Rightarrow> PriceMsg \<Rightarrow> QofBook \<times> gnc_commodity \<times> gnc_commodity \<times> GDate \<times> gnc_numeric \<Rightarrow> 'w engine_side \<Rightarrow>
     PriceMsg \<times> 'w engine_side \<times> 'w engine_side" where
  "AddPrice_edit eng spec c x =
     (case c of (book, commodity, currency, date, value) \<Rightarrow>
       let (price, w0) = gnc_price_create eng book (snd x);
           w1 = eng_seq eng
             [gnc_price_begin_edit price,
              gnc_price_set_commodity price commodity,
              gnc_price_set_currency price currency,
              gnc_price_set_time64 price (gnc_dmy2time64_neutral (lib eng) date),
              gnc_price_set_value price value,
              gnc_price_set_source_string price (if pm_source spec = [] then ''shim:api'' else c_str (pm_source spec))] w0;
           out = PriceToProto eng price w1
       in (out, (fst x, w1),
           (fst x, eng_seq eng [gnc_price_commit_edit price, gnc_pricedb_add_price price, gnc_price_unref price] w1)))"

definition AddPrice_apply ::
  "'w engine \<Rightarrow> 'w session_api \<Rightarrow> AddPriceRequest \<Rightarrow> (PriceMsg, 'w engine_side) ApplyFn" where
  "AddPrice_apply eng api request =
     checked_edit (AddPrice_checks eng api (ap_price request)) (AddPrice_edit eng (ap_price request))"

definition AddPrice ::
  "mutation_env \<Rightarrow> exn option \<Rightarrow> PriceMsg message_pb \<Rightarrow> AddPriceRequest message_pb \<Rightarrow> 'w engine \<Rightarrow> 'w session_api \<Rightarrow> 
     AddPriceRequest \<Rightarrow> (PriceMsg, 'w) mutation_rpc" where
  "AddPrice env admission rpb qpb eng api request =
     RunMutation env admission rpb (ap_meta_mutation_id request) (SerializeAsString qpb request)
       ''daicho.shim.v1.CommodityService/AddPrice'' (AddPrice_apply eng api request)"

section \<open>Balances\<close>

definition GetBalance :: "'w engine \<Rightarrow> 'w session_api \<Rightarrow> GetBalanceRequest \<Rightarrow> 'w engine_side \<Rightarrow> exn + Balance" where
  "GetBalance eng api request x =
     and_then (Session_book api x) (\<lambda>book.
     and_then (FindAccount eng book (gb_account_guid request) ''account_guid'' (snd x)) (\<lambda>account.
     and_then (case gb_as_of request of
                 Some d \<Rightarrow> DateFromProto (lib eng) d ''as_of''
               | None \<Rightarrow> Inr (g_date_set_dmy 31 12 9999)) (\<lambda>as_of.
     let stamp = gnc_dmy2time64_end (lib eng) as_of in
     and_then (case gb_convert_to request of
                 Some cid \<Rightarrow> map_result Some (FindCommodity eng book cid ''convert_to'' (snd x))
               | None \<Rightarrow> Inr (xaccAccountGetCommodity (account_at eng account (snd x)))) (\<lambda>target.
     case target of
       None \<Rightarrow> Inl (invalid_argument ''account has no commodity and convert_to is unset'' (gb_account_guid request))
     | Some c \<Rightarrow>
         Inr \<lparr>ba_amount = Some (NumericToProto (xaccAccountGetBalanceAsOfDateInCurrency eng account stamp c
                            (gb_include_children request) (snd x))),
              ba_commodity = Some (CommodityIdToProto eng c (snd x)),
              ba_as_of = Some (case gb_as_of request of Some d \<Rightarrow> d | None \<Rightarrow> DateToProto as_of)\<rparr>))))"

definition trial_key :: "'w engine \<Rightarrow> 'w \<Rightarrow> Split \<Rightarrow> (string \<times> string) option" where
  "trial_key eng w sp =
     map_option (\<lambda>c. (gnc_commodity_get_namespace (commodity_at eng c w),
                      gnc_commodity_get_mnemonic (commodity_at eng c w))) (split_currency eng w sp)"

definition GetTrialBalance :: "'w engine \<Rightarrow> 'w session_api \<Rightarrow> 'w engine_side \<Rightarrow> exn + TrialBalanceEntry list" where
  "GetTrialBalance eng api x =
     map_result (\<lambda>book.
       map (\<lambda>(_, (currency, sum)). \<lparr>te_currency = Some (CommodityIdToProto eng currency (snd x)),
                                    te_sum = Some (NumericToProto sum)\<rparr>)
         (group_fold (trial_key eng (snd x))
            (\<lambda>sp. (the (split_currency eng (snd x) sp), gnc_numeric_zero))
            (\<lambda>sp (currency, sum). (currency, gnc_numeric_add (lib eng) sum (xaccSplitGetValue (split_at eng sp (snd x)))))
            (qof_query_run eng book [] (snd x))))
       (Session_book api x)"

section \<open>The handler keeps the protocol's contract\<close>

interpretation add_price: planned_apply "AddPrice_apply eng api request"
  "edit_plan (AddPrice_checks eng api (ap_price request)) (AddPrice_edit eng (ap_price request))"
  for eng api request
  unfolding AddPrice_apply_def
  by (rule checked_edit_planned) (auto simp: AddPrice_checks_def attempt_eq_Throw intro: throws_shim)

section \<open>Properties\<close>

text \<open>
  C34. The trial balance has one entry per currency: its entries are ordered by namespace and
  mnemonic without repetition, there is one for every currency some split has, and its sum is
  the engine's sum, over the splits in query order, of the values of exactly that currency's
  splits.
\<close>
theorem trial_balance_exact:
  assumes "Session_book api x = Inr book"
  shows "\<exists>keys. GetTrialBalance eng api x = Inr (map (\<lambda>k.
        \<lparr>te_currency = Some \<lparr>ci_space = fst k, ci_mnemonic = snd k\<rparr>,
         te_sum = Some (NumericToProto (foldl (gnc_numeric_add (lib eng)) gnc_numeric_zero
           (map (\<lambda>sp. xaccSplitGetValue (split_at eng sp (snd x)))
              (with_key (trial_key eng (snd x)) k (qof_query_run eng book [] (snd x))))))\<rparr>) keys) \<and>
     sorted_wrt (<) keys \<and>
     set keys = {k. \<exists>sp \<in> set (qof_query_run eng book [] (snd x)). trial_key eng (snd x) sp = Some k}"
proof -
  let ?w = "snd x" and ?xs = "qof_query_run eng book [] (snd x)"
  let ?d = "\<lambda>sp. (the (split_currency eng ?w sp), gnc_numeric_zero)"
  let ?f = "\<lambda>sp (currency, s). (currency, gnc_numeric_add (lib eng) s (xaccSplitGetValue (split_at eng sp ?w)))"
  let ?m = "group_fold (trial_key eng ?w) ?d ?f ?xs"
  have fold: "foldl (\<lambda>v y. ?f y v) (c, s) ys =
      (c, foldl (gnc_numeric_add (lib eng)) s (map (\<lambda>sp. xaccSplitGetValue (split_at eng sp ?w)) ys))" for c s ys
    by (induction ys arbitrary: s) auto
  have entry: "(\<lambda>(_, (currency, s)). \<lparr>te_currency = Some (CommodityIdToProto eng currency ?w),
        te_sum = Some (NumericToProto s)\<rparr>) kv =
     (\<lambda>k. \<lparr>te_currency = Some \<lparr>ci_space = fst k, ci_mnemonic = snd k\<rparr>,
         te_sum = Some (NumericToProto (foldl (gnc_numeric_add (lib eng)) gnc_numeric_zero
           (map (\<lambda>sp. xaccSplitGetValue (split_at eng sp ?w)) (with_key (trial_key eng ?w) k ?xs))))\<rparr>) (fst kv)"
    if "kv \<in> set ?m" for kv
  proof -
    obtain k v where kv: "kv = (k, v)" by (cases kv)
    with that group_fold_entries [of k v "trial_key eng ?w" ?d ?f ?xs] obtain y ys where
      y: "with_key (trial_key eng ?w) k ?xs = y # ys" and v: "v = foldl (\<lambda>v y. ?f y v) (?d y) (y # ys)" by auto
    from y have "trial_key eng ?w y = Some k" by (rule with_key_ConsD)
    then obtain c where "split_currency eng ?w y = Some c" "fst k = gnc_commodity_get_namespace (commodity_at eng c ?w)"
      "snd k = gnc_commodity_get_mnemonic (commodity_at eng c ?w)" by (auto simp: trial_key_def)
    with v y show ?thesis by (simp only: kv fold prod.case fst_conv) (simp add: CommodityIdToProto_def)
  qed
  have "fst ` set ?m = {k. \<exists>sp \<in> set ?xs. trial_key eng ?w sp = Some k}" by (rule group_fold_keys)
  moreover have "sorted_wrt (<) (map fst ?m)" using group_fold_ordered unfolding ordered_map_def .
  moreover have "GetTrialBalance eng api x = Inr (map (\<lambda>k.
        \<lparr>te_currency = Some \<lparr>ci_space = fst k, ci_mnemonic = snd k\<rparr>,
         te_sum = Some (NumericToProto (foldl (gnc_numeric_add (lib eng)) gnc_numeric_zero
           (map (\<lambda>sp. xaccSplitGetValue (split_at eng sp ?w)) (with_key (trial_key eng ?w) k ?xs))))\<rparr>) (map fst ?m))"
    using assms entry by (simp add: GetTrialBalance_def)
  ultimately show ?thesis by (intro exI [of _ "map fst ?m"]) simp
qed

end
