(* ===== verification/Session_Service.thy ===== *)
theory Session_Service
  imports Mutation Session
begin

text \<open>
  \<^verbatim>\<open>src/rpc/session_service.{h,cpp}\<close>: opening and closing the book, its description, the
  liveness probe and the recovery handshake. The version strings are build constants.
\<close>

definition FillBookInfo ::
  "'w engine \<Rightarrow> 'w session_api \<Rightarrow> string \<Rightarrow> string \<Rightarrow> 'w engine_side \<Rightarrow> exn + BookInfo" where
  "FillBookInfo eng api gnc_version shim_version x =
     and_then (Session_book api x) (\<lambda>book.
     and_then (root_account eng api x) (\<lambda>root.
       Inr \<lparr>bi_root_account_guid = GuidToString (lib eng) (account_guid (account_at eng root (snd x))),
            bi_default_currency = None,
            bi_backend_uri = RedactUri (book_uri (config (fst x))),
            bi_engine_version = gnc_version,
            bi_shim_version = shim_version,
            bi_read_only = (read_only (config (fst x)) \<or> qof_book_is_readonly eng book (snd x))\<rparr>))"

definition OpenBook ::
  "status_pb \<Rightarrow> exn option \<Rightarrow> 'w engine \<Rightarrow> 'w session_api \<Rightarrow> gnclock_env \<Rightarrow> string \<Rightarrow> string \<Rightarrow> 'w engine_side \<Rightarrow>
     (exn, Status \<times> BookInfo option) flow \<times> 'w engine_side" where
  "OpenBook pb admission eng api ge gnc_version shim_version =
     RunRpc pb admission (\<lambda>x.
       case Session_Open api ge x of
         (Ret _, x') \<Rightarrow> or_throw (FillBookInfo eng api gnc_version shim_version x') x' (\<lambda>info. (Ret info, x'))
       | (Throw e, x') \<Rightarrow> (Throw e, x')
       | (Abort, x') \<Rightarrow> (Abort, x'))"

definition CloseBook ::
  "status_pb \<Rightarrow> exn option \<Rightarrow> 'w session_api \<Rightarrow> string option \<Rightarrow> 'w engine_side \<Rightarrow>
     (exn, Status \<times> unit option) flow \<times> 'w engine_side" where
  "CloseBook pb admission api fail_at = RunRpc pb admission (Session_Close api fail_at)"

definition GetBookInfo ::
  "status_pb \<Rightarrow> exn option \<Rightarrow> 'w engine \<Rightarrow> 'w session_api \<Rightarrow> string \<Rightarrow> string \<Rightarrow> 'w engine_side \<Rightarrow>
     (exn, Status \<times> BookInfo option) flow \<times> 'w engine_side" where
  "GetBookInfo pb admission eng api gnc_version shim_version =
     RunRpc pb admission (\<lambda>x. or_throw (FillBookInfo eng api gnc_version shim_version x) x (\<lambda>info. (Ret info, x)))"

text \<open>\<^verbatim>\<open>Ping\<close> does not go through the engine queue.\<close>

definition Ping :: "('s, 'r) EngineWorker \<Rightarrow> Session \<Rightarrow> int64 \<Rightarrow> int64 \<Rightarrow> Status \<times> PingResponse" where
  "Ping worker session start_time now =
     (Status_OK, \<lparr>pr_queue_depth = int (queue_depth worker), pr_uptime_seconds = now - start_time,
                  pr_book_open = is_open session\<rparr>)"

definition ListIndeterminateMutations ::
  "status_pb \<Rightarrow> exn option \<Rightarrow> sqlite_env \<Rightarrow> row_order \<Rightarrow> Journal \<Rightarrow>
     (exn, Status \<times> IndeterminateEntry list option) flow \<times> Journal" where
  "ListIndeterminateMutations pb admission sq order_by =
     RunRpc pb admission (\<lambda>j. or_throw (ListIndeterminate sq order_by j) j (\<lambda>es. (Ret es, j)))"

section \<open>Properties\<close>

lemma OpenBook_opens:
  assumes "OpenBook pb admission eng api ge gv sv x = (Ret (Status_OK, info), x')"
  shows "session_ptr (fst x') \<noteq> None \<and> admission = None \<and> (\<exists>i. info = Some i \<and> FillBookInfo eng api gv sv x' = Inr i)"
  using assms Session_Open_cases [of api ge "fst x" "snd x"]
  by (cases x; cases x')
     (auto simp: OpenBook_def RunRpc_def or_throw_def split: option.splits prod.splits flow.splits sum.splits)

text \<open>
  \<^verbatim>\<open>OpenBook\<close> is idempotent: once it has answered \<open>OK\<close>, the book is open, and a further
  \<^verbatim>\<open>OpenBook\<close> that is admitted, whatever has happened to the book's lock, answers with the
  same information and changes nothing; a \<^verbatim>\<open>CloseBook\<close> in between makes \<^verbatim>\<open>GetBookInfo\<close>
  answer \<open>UNAVAILABLE\<close>.
\<close>
theorem open_book_idempotent:
  assumes "OpenBook pb admission eng api ge gv sv x = (Ret (Status_OK, info), x')"
  shows "OpenBook pb None eng api ge' gv sv x' = (Ret (Status_OK, info), x') \<and> info \<noteq> None \<and>
    (\<forall>x''. snd (CloseBook pb None api fail_at x') = x'' \<longrightarrow>
       (\<exists>st. GetBookInfo pb None eng api gv sv x'' = (Ret (st, None), x'') \<and> status_code st = GRPC_UNAVAILABLE))"
proof -
  note o = OpenBook_opens [OF assms]
  have again: "Session_Open api ge' x' = (Ret (), x')" using o by (cases x') (simp add: Session_Open_def)
  have closed: "session_ptr (fst (snd (CloseBook pb None api fail_at x'))) = None"
    using o by (cases x') (auto simp: CloseBook_def RunRpc_def Session_Close_def Let_def split: prod.splits flow.splits option.splits)
  have "\<exists>st. GetBookInfo pb None eng api gv sv y = (Ret (st, None), y) \<and> status_code st = GRPC_UNAVAILABLE"
    if "session_ptr (fst y) = None" for y
    using that by (simp add: GetBookInfo_def RunRpc_def FillBookInfo_def Session_book_def)
  with o again closed show ?thesis by (auto simp: OpenBook_def RunRpc_def)
qed

end
