(* ===== verification/Services.thy ===== *)
theory Services
  imports Commodity_Service Session_Service
begin

text \<open>
  The five gRPC services as the server sees them (\<^verbatim>\<open>src/rpc/*_service.h\<close>): every RPC of the contract
  is a value of a datatype, and a service is the function that dispatches it to its handler.
  The services share the worker, the session and the journal, so they all work on one state:
  the journal, the session and the engine's world. A read goes through \<^verbatim>\<open>RunRpc\<close> here; a
  mutation through \<^verbatim>\<open>RunMutation\<close> in its own theory.
\<close>

section \<open>Calls and answers\<close>

datatype session_rpc = OpenBook_rpc | CloseBook_rpc | GetBookInfo_rpc | Ping_rpc | ListIndeterminateMutations_rpc

datatype account_rpc =
    ListAccounts_rpc
  | GetAccount_rpc string
  | CreateAccount_rpc AccountRequest
  | UpdateAccount_rpc AccountRequest
  | DeleteAccount_rpc DeleteRequest
  | GetReconcileInfo_rpc string
  | SetReconcileInfo_rpc SetReconcileInfoRequest

datatype transaction_rpc =
    GetTransaction_rpc string
  | PostTransaction_rpc TransactionRequest
  | UpdateTransaction_rpc TransactionRequest
  | DeleteTransaction_rpc DeleteRequest
  | QuerySplits_rpc QuerySplitsRequest

datatype commodity_rpc = ListCommodities_rpc | GetPrices_rpc GetPricesRequest | AddPrice_rpc AddPriceRequest

datatype balance_rpc = GetBalance_rpc GetBalanceRequest | GetTrialBalance_rpc

datatype rpc =
    SessionService session_rpc
  | AccountService account_rpc
  | TransactionService transaction_rpc
  | CommodityService commodity_rpc
  | BalanceService balance_rpc

datatype response =
    R_Empty
  | R_BookInfo BookInfo
  | R_Ping PingResponse
  | R_Indeterminate "IndeterminateEntry list"
  | R_Account AccountMsg
  | R_AccountList "AccountMsg list"
  | R_ReconcileInfo ReconcileInfo
  | R_Transaction TransactionMsg
  | R_QuerySplits QuerySplitsResponse
  | R_CommodityList "CommodityMsg list"
  | R_PriceList "PriceMsg list"
  | R_Price PriceMsg
  | R_Balance Balance
  | R_TrialBalance "TrialBalanceEntry list"

section \<open>The services\<close>

text \<open>
  What the services are constructed with and what they rely on; \<open>sv_requests\<close> serializes the
  request of each mutating RPC, for the journal.
\<close>

record request_pb =
  qpb_account :: "AccountRequest message_pb"
  qpb_reconcile :: "SetReconcileInfoRequest message_pb"
  qpb_transaction :: "TransactionRequest message_pb"
  qpb_price :: "AddPriceRequest message_pb"
  qpb_delete_account :: "DeleteRequest message_pb"
  qpb_delete_transaction :: "DeleteRequest message_pb"

record response_pb =
  rpb_account :: "AccountMsg message_pb"
  rpb_reconcile :: "ReconcileInfo message_pb"
  rpb_transaction :: "TransactionMsg message_pb"
  rpb_price :: "PriceMsg message_pb"
  rpb_empty :: "unit message_pb"

record 'w service_env =
  sv_mut :: mutation_env
  sv_order :: row_order
  sv_requests :: request_pb
  sv_responses :: response_pb
  sv_eng :: "'w engine"
  sv_api :: "'w session_api"
  sv_lock :: gnclock_env
  sv_fail_at :: "string option"
  sv_gnc_version :: string
  sv_shim_version :: string
  sv_cleared :: cleared_match
  sv_hash_order :: "split_table \<Rightarrow> split_table"

type_synonym 'w server_state = "Journal \<times> 'w engine_side"

text \<open>One call: what the worker's queue said to it, and what \<^verbatim>\<open>Ping\<close> sees.\<close>

record 'w call_context =
  cx_admission :: "exn option"
  cx_worker :: "('w server_state, response) EngineWorker"
  cx_start_time :: int64
  cx_now :: int64

type_synonym 'w answer = "(exn, Status \<times> response option) flow \<times> 'w server_state"

definition answer :: "('r \<Rightarrow> response) \<Rightarrow> (exn, Status \<times> 'r option) flow \<times> 's \<Rightarrow> (exn, Status \<times> response option) flow \<times> 's" where
  "answer R a = (case a of (fl, s) \<Rightarrow> (flow_map (\<lambda>(status, r). (status, map_option R r)) fl, s))"

text \<open>\<^verbatim>\<open>RunRpc\<close> with a lambda that only reads.\<close>

definition read_rpc :: "'w service_env \<Rightarrow> exn option \<Rightarrow> ('w engine_side \<Rightarrow> exn + 'r) \<Rightarrow> 'w server_state \<Rightarrow>
    (exn, Status \<times> 'r option) flow \<times> 'w server_state" where
  "read_rpc env admission fn =
     RunRpc (env_status_pb (sv_mut env)) admission (\<lambda>s. or_throw (fn (snd s)) s (\<lambda>r. (Ret r, s)))"

definition on_side :: "('w engine_side \<Rightarrow> 'a \<times> 'w engine_side) \<Rightarrow> 'w server_state \<Rightarrow> 'a \<times> 'w server_state" where
  "on_side f s = (case f (snd s) of (a, x) \<Rightarrow> (a, (fst s, x)))"

definition on_journal :: "(Journal \<Rightarrow> 'a \<times> Journal) \<Rightarrow> 'w server_state \<Rightarrow> 'a \<times> 'w server_state" where
  "on_journal f s = (case f (fst s) of (a, j) \<Rightarrow> (a, (j, snd s)))"

fun SessionServiceImpl :: "'w service_env \<Rightarrow> 'w call_context \<Rightarrow> session_rpc \<Rightarrow> 'w server_state \<Rightarrow> 'w answer" where
  "SessionServiceImpl env cx OpenBook_rpc s =
     answer R_BookInfo (on_side (OpenBook (env_status_pb (sv_mut env)) (cx_admission cx) (sv_eng env) (sv_api env)
       (sv_lock env) (sv_gnc_version env) (sv_shim_version env)) s)"
| "SessionServiceImpl env cx CloseBook_rpc s =
     answer (\<lambda>_. R_Empty) (on_side (CloseBook (env_status_pb (sv_mut env)) (cx_admission cx) (sv_api env) (sv_fail_at env)) s)"
| "SessionServiceImpl env cx GetBookInfo_rpc s =
     answer R_BookInfo (on_side (GetBookInfo (env_status_pb (sv_mut env)) (cx_admission cx) (sv_eng env) (sv_api env)
       (sv_gnc_version env) (sv_shim_version env)) s)"
| "SessionServiceImpl env cx Ping_rpc s =
     (case Ping (cx_worker cx) (fst (snd s)) (cx_start_time cx) (cx_now cx) of
        (status, r) \<Rightarrow> (Ret (status, Some (R_Ping r)), s))"
| "SessionServiceImpl env cx ListIndeterminateMutations_rpc s =
     answer R_Indeterminate (on_journal (ListIndeterminateMutations (env_status_pb (sv_mut env)) (cx_admission cx)
       (env_sqlite (sv_mut env)) (sv_order env)) s)"

fun AccountServiceImpl :: "'w service_env \<Rightarrow> 'w call_context \<Rightarrow> account_rpc \<Rightarrow> 'w server_state \<Rightarrow> 'w answer" where
  "AccountServiceImpl env cx ListAccounts_rpc s =
     answer R_AccountList (read_rpc env (cx_admission cx) (ListAccounts (sv_eng env) (sv_api env)) s)"
| "AccountServiceImpl env cx (GetAccount_rpc guid) s =
     answer R_Account (read_rpc env (cx_admission cx) (GetAccount (sv_eng env) (sv_api env) guid) s)"
| "AccountServiceImpl env cx (CreateAccount_rpc request) s =
     answer R_Account (CreateAccount (sv_mut env) (cx_admission cx) (rpb_account (sv_responses env))
       (qpb_account (sv_requests env)) (sv_eng env) (sv_api env) request s)"
| "AccountServiceImpl env cx (UpdateAccount_rpc request) s =
     answer R_Account (UpdateAccount (sv_mut env) (cx_admission cx) (rpb_account (sv_responses env))
       (qpb_account (sv_requests env)) (sv_eng env) (sv_api env) request s)"
| "AccountServiceImpl env cx (DeleteAccount_rpc request) s =
     answer (\<lambda>_. R_Empty) (DeleteAccount (sv_mut env) (cx_admission cx) (rpb_empty (sv_responses env))
       (qpb_delete_account (sv_requests env)) (sv_eng env) (sv_api env) request s)"
| "AccountServiceImpl env cx (GetReconcileInfo_rpc guid) s =
     answer R_ReconcileInfo (read_rpc env (cx_admission cx) (GetReconcileInfo (sv_eng env) (sv_api env) guid) s)"
| "AccountServiceImpl env cx (SetReconcileInfo_rpc request) s =
     answer R_ReconcileInfo (SetReconcileInfo (sv_mut env) (cx_admission cx) (rpb_reconcile (sv_responses env))
       (qpb_reconcile (sv_requests env)) (sv_eng env) (sv_api env) request s)"

fun TransactionServiceImpl :: "'w service_env \<Rightarrow> 'w call_context \<Rightarrow> transaction_rpc \<Rightarrow> 'w server_state \<Rightarrow> 'w answer" where
  "TransactionServiceImpl env cx (GetTransaction_rpc guid) s =
     answer R_Transaction (read_rpc env (cx_admission cx) (GetTransaction (sv_eng env) (sv_api env) guid) s)"
| "TransactionServiceImpl env cx (PostTransaction_rpc request) s =
     answer R_Transaction (PostTransaction (sv_mut env) (cx_admission cx) (rpb_transaction (sv_responses env))
       (qpb_transaction (sv_requests env)) (sv_eng env) (sv_api env) (sv_hash_order env) request s)"
| "TransactionServiceImpl env cx (UpdateTransaction_rpc request) s =
     answer R_Transaction (UpdateTransaction (sv_mut env) (cx_admission cx) (rpb_transaction (sv_responses env))
       (qpb_transaction (sv_requests env)) (sv_eng env) (sv_api env) (sv_hash_order env) request s)"
| "TransactionServiceImpl env cx (DeleteTransaction_rpc request) s =
     answer (\<lambda>_. R_Empty) (DeleteTransaction (sv_mut env) (cx_admission cx) (rpb_empty (sv_responses env))
       (qpb_delete_transaction (sv_requests env)) (sv_eng env) (sv_api env) request s)"
| "TransactionServiceImpl env cx (QuerySplits_rpc request) s =
     answer R_QuerySplits (read_rpc env (cx_admission cx) (QuerySplits (sv_eng env) (sv_api env) (sv_cleared env) request) s)"

fun CommodityServiceImpl :: "'w service_env \<Rightarrow> 'w call_context \<Rightarrow> commodity_rpc \<Rightarrow> 'w server_state \<Rightarrow> 'w answer" where
  "CommodityServiceImpl env cx ListCommodities_rpc s =
     answer R_CommodityList (read_rpc env (cx_admission cx) (ListCommodities (sv_eng env) (sv_api env)) s)"
| "CommodityServiceImpl env cx (GetPrices_rpc request) s =
     answer R_PriceList (read_rpc env (cx_admission cx) (GetPrices (sv_eng env) (sv_api env) request) s)"
| "CommodityServiceImpl env cx (AddPrice_rpc request) s =
     answer R_Price (AddPrice (sv_mut env) (cx_admission cx) (rpb_price (sv_responses env))
       (qpb_price (sv_requests env)) (sv_eng env) (sv_api env) request s)"

fun BalanceServiceImpl :: "'w service_env \<Rightarrow> 'w call_context \<Rightarrow> balance_rpc \<Rightarrow> 'w server_state \<Rightarrow> 'w answer" where
  "BalanceServiceImpl env cx (GetBalance_rpc request) s =
     answer R_Balance (read_rpc env (cx_admission cx) (GetBalance (sv_eng env) (sv_api env) request) s)"
| "BalanceServiceImpl env cx GetTrialBalance_rpc s =
     answer R_TrialBalance (read_rpc env (cx_admission cx) (GetTrialBalance (sv_eng env) (sv_api env)) s)"

text \<open>The server with the services registered: whatever RPC a client calls.\<close>

fun handle :: "'w service_env \<Rightarrow> 'w call_context \<Rightarrow> rpc \<Rightarrow> 'w server_state \<Rightarrow> 'w answer" where
  "handle env cx (SessionService r) s = SessionServiceImpl env cx r s"
| "handle env cx (AccountService r) s = AccountServiceImpl env cx r s"
| "handle env cx (TransactionService r) s = TransactionServiceImpl env cx r s"
| "handle env cx (CommodityService r) s = CommodityServiceImpl env cx r s"
| "handle env cx (BalanceService r) s = BalanceServiceImpl env cx r s"

section \<open>The contract of the RPCs\<close>

text \<open>The response type the contract gives each RPC.\<close>

fun response_type :: "rpc \<Rightarrow> response \<Rightarrow> bool" where
  "response_type (SessionService OpenBook_rpc) r \<longleftrightarrow> (\<exists>i. r = R_BookInfo i)"
| "response_type (SessionService CloseBook_rpc) r \<longleftrightarrow> r = R_Empty"
| "response_type (SessionService GetBookInfo_rpc) r \<longleftrightarrow> (\<exists>i. r = R_BookInfo i)"
| "response_type (SessionService Ping_rpc) r \<longleftrightarrow> (\<exists>p. r = R_Ping p)"
| "response_type (SessionService ListIndeterminateMutations_rpc) r \<longleftrightarrow> (\<exists>es. r = R_Indeterminate es)"
| "response_type (AccountService ListAccounts_rpc) r \<longleftrightarrow> (\<exists>as. r = R_AccountList as)"
| "response_type (AccountService (GetAccount_rpc _)) r \<longleftrightarrow> (\<exists>a. r = R_Account a)"
| "response_type (AccountService (CreateAccount_rpc _)) r \<longleftrightarrow> (\<exists>a. r = R_Account a)"
| "response_type (AccountService (UpdateAccount_rpc _)) r \<longleftrightarrow> (\<exists>a. r = R_Account a)"
| "response_type (AccountService (DeleteAccount_rpc _)) r \<longleftrightarrow> r = R_Empty"
| "response_type (AccountService (GetReconcileInfo_rpc _)) r \<longleftrightarrow> (\<exists>i. r = R_ReconcileInfo i)"
| "response_type (AccountService (SetReconcileInfo_rpc _)) r \<longleftrightarrow> (\<exists>i. r = R_ReconcileInfo i)"
| "response_type (TransactionService (GetTransaction_rpc _)) r \<longleftrightarrow> (\<exists>t. r = R_Transaction t)"
| "response_type (TransactionService (PostTransaction_rpc _)) r \<longleftrightarrow> (\<exists>t. r = R_Transaction t)"
| "response_type (TransactionService (UpdateTransaction_rpc _)) r \<longleftrightarrow> (\<exists>t. r = R_Transaction t)"
| "response_type (TransactionService (DeleteTransaction_rpc _)) r \<longleftrightarrow> r = R_Empty"
| "response_type (TransactionService (QuerySplits_rpc _)) r \<longleftrightarrow> (\<exists>q. r = R_QuerySplits q)"
| "response_type (CommodityService ListCommodities_rpc) r \<longleftrightarrow> (\<exists>cs. r = R_CommodityList cs)"
| "response_type (CommodityService (GetPrices_rpc _)) r \<longleftrightarrow> (\<exists>ps. r = R_PriceList ps)"
| "response_type (CommodityService (AddPrice_rpc _)) r \<longleftrightarrow> (\<exists>p. r = R_Price p)"
| "response_type (BalanceService (GetBalance_rpc _)) r \<longleftrightarrow> (\<exists>b. r = R_Balance b)"
| "response_type (BalanceService GetTrialBalance_rpc) r \<longleftrightarrow> (\<exists>es. r = R_TrialBalance es)"

text \<open>The mutating RPCs and the id in their \<^verbatim>\<open>MutationMeta\<close>.\<close>

fun mutation_id_of :: "rpc \<Rightarrow> string option" where
  "mutation_id_of (AccountService (CreateAccount_rpc q)) = Some (ar_meta_mutation_id q)"
| "mutation_id_of (AccountService (UpdateAccount_rpc q)) = Some (ar_meta_mutation_id q)"
| "mutation_id_of (AccountService (DeleteAccount_rpc q)) = Some (dr_meta_mutation_id q)"
| "mutation_id_of (AccountService (SetReconcileInfo_rpc q)) = Some (sr_meta_mutation_id q)"
| "mutation_id_of (TransactionService (PostTransaction_rpc q)) = Some (tr_meta_mutation_id q)"
| "mutation_id_of (TransactionService (UpdateTransaction_rpc q)) = Some (tr_meta_mutation_id q)"
| "mutation_id_of (TransactionService (DeleteTransaction_rpc q)) = Some (dr_meta_mutation_id q)"
| "mutation_id_of (CommodityService (AddPrice_rpc q)) = Some (ap_meta_mutation_id q)"
| "mutation_id_of _ = None"

section \<open>Every mutating RPC is a planned mutation\<close>

lemmas mutation_rpc_defs = CreateAccount_def UpdateAccount_def DeleteAccount_def SetReconcileInfo_def
  PostTransaction_def UpdateTransaction_def DeleteTransaction_def AddPrice_def

lemmas planned_handlers = create_account.planned_apply_axioms update_account.planned_apply_axioms
  delete_account.planned_apply_axioms set_reconcile_info.planned_apply_axioms post_transaction.planned_apply_axioms
  update_transaction.planned_apply_axioms delete_transaction.planned_apply_axioms add_price.planned_apply_axioms

text \<open>What holds of every planned mutation, once per response type, holds of every mutating RPC.\<close>

lemma mutation_handled:
  assumes "mutation_id_of rpc = Some mid"
    and "\<And>m req name apply_fn plan. planned_apply apply_fn plan \<Longrightarrow> m = mid \<Longrightarrow> P (answer R_Account
           (RunMutation (sv_mut env) (cx_admission cx) (rpb_account (sv_responses env)) m req name apply_fn s))"
    and "\<And>m req name apply_fn plan. planned_apply apply_fn plan \<Longrightarrow> m = mid \<Longrightarrow> P (answer R_ReconcileInfo
           (RunMutation (sv_mut env) (cx_admission cx) (rpb_reconcile (sv_responses env)) m req name apply_fn s))"
    and "\<And>m req name apply_fn plan. planned_apply apply_fn plan \<Longrightarrow> m = mid \<Longrightarrow> P (answer R_Transaction
           (RunMutation (sv_mut env) (cx_admission cx) (rpb_transaction (sv_responses env)) m req name apply_fn s))"
    and "\<And>m req name apply_fn plan. planned_apply apply_fn plan \<Longrightarrow> m = mid \<Longrightarrow> P (answer R_Price
           (RunMutation (sv_mut env) (cx_admission cx) (rpb_price (sv_responses env)) m req name apply_fn s))"
    and "\<And>m req name apply_fn plan. planned_apply apply_fn plan \<Longrightarrow> m = mid \<Longrightarrow> P (answer (\<lambda>_. R_Empty)
           (RunMutation (sv_mut env) (cx_admission cx) (rpb_empty (sv_responses env)) m req name apply_fn s))"
  shows "P (handle env cx rpc s)"
  using assms(1)
  by (cases rpc rule: mutation_id_of.cases)
     (simp_all add: mutation_rpc_defs; (rule assms(2-6), rule planned_handlers, simp))+

section \<open>Ends of a call\<close>

lemma answer_ends [simp]:
  "answer R (fl, s) = (flow_map (\<lambda>(status, r). (status, map_option R r)) fl, s)"
  by (simp add: answer_def)

lemma flow_map_Abort [simp]: "flow_map f fl = Abort \<longleftrightarrow> fl = Abort"
  by (cases fl) auto

text \<open>A call that ends well for its client: a status, and a response just when it is \<open>OK\<close>.\<close>

definition well_ended :: "(response \<Rightarrow> bool) \<Rightarrow> (exn, Status \<times> response option) flow \<Rightarrow> bool" where
  "well_ended T fl \<longleftrightarrow>
     (case fl of
        Ret (status, r) \<Rightarrow> (status = Status_OK \<longleftrightarrow> r \<noteq> None) \<and> (\<forall>x. r = Some x \<longrightarrow> T x)
      | Throw _ \<Rightarrow> False
      | Abort \<Rightarrow> True)"

lemma RunRpc_well_ended:
  assumes "\<And>r. T (R r)"
  shows "well_ended T (fst (answer R (RunRpc pb admission fn s)))"
proof (cases admission)
  case None
  obtain fl s' where "fn s = (fl, s')" by fastforce
  with None assms show ?thesis by (cases fl) (auto simp: RunRpc_def well_ended_def)
qed (simp add: RunRpc_def well_ended_def)

lemma RunRpc_refused: "RunRpc pb (Some e) fn s = (Ret (StatusFromException pb e, None), s)"
  by (simp add: RunRpc_def)

lemma on_side_answer: "answer R (on_side f s) = (fst (answer R (f (snd s))), (fst s, snd (f (snd s))))"
  by (cases "f (snd s)") (simp add: on_side_def)

lemma on_journal_answer: "answer R (on_journal f s) = (fst (answer R (f (fst s))), (snd (f (fst s)), snd s))"
  by (cases "f (fst s)") (simp add: on_journal_def)

lemma well_ended_Ret [simp]: "well_ended T (Ret (Status_OK, Some r)) \<longleftrightarrow> T r"
  by (simp add: well_ended_def)

lemma handle_well_ended: "well_ended (response_type rpc) (fst (handle env cx rpc s))"
  by (cases "(rpc, R_Empty)" rule: response_type.cases)
     (simp_all add: mutation_rpc_defs RunMutation_def read_rpc_def on_side_answer on_journal_answer OpenBook_def CloseBook_def
       GetBookInfo_def ListIndeterminateMutations_def RunRpc_well_ended Ping_def)

lemma read_rpc_state [simp]: "snd (answer R (read_rpc env admission fn s)) = s"
  by (cases admission; cases "fn (snd s)") (simp_all add: read_rpc_def RunRpc_def)

lemma read_rpc_ends [simp]: "fst (answer R (read_rpc env admission fn s)) \<noteq> Abort"
  by (cases admission; cases "fn (snd s)") (simp_all add: read_rpc_def RunRpc_def)

text \<open>Reads, and everything that is not admitted, leave the state alone.\<close>

lemma handle_reads:
  assumes "mutation_id_of rpc = None" and "rpc \<notin> {SessionService OpenBook_rpc, SessionService CloseBook_rpc}"
  shows "snd (handle env cx rpc s) = s"
  using assms
  by (cases "(rpc, R_Empty)" rule: response_type.cases)
     (auto simp: on_side_answer on_journal_answer GetBookInfo_def ListIndeterminateMutations_def RunRpc_def or_throw_def Ping_def
       split: option.splits sum.splits)

lemma Session_Open_ends: "fst (Session_Open api ge x) \<noteq> Abort"
  by (cases x) (simp add: Session_Open_def Let_def split: prod.splits)

lemma Session_Close_answers: "fst (Session_Close api fail_at x) \<noteq> Abort"
  by (cases x) (simp add: Session_Close_def Let_def split: prod.splits option.splits)

text \<open>Only a mutation can fail to answer.\<close>

lemma RunRpc_answers: "fst (fn s) \<noteq> Abort \<Longrightarrow> fst (answer R (RunRpc pb admission fn s)) \<noteq> Abort"
  by (cases admission; cases "fn s"; cases "fst (fn s)") (auto simp: RunRpc_def)

lemma or_throw_answers: "fst (or_throw r s (\<lambda>a. (Ret (f a), s))) \<noteq> Abort"
  by (cases r) simp_all

lemma open_answers:
  "fst (case Session_Open api ge x of
      (Ret _, x') \<Rightarrow> or_throw (FillBookInfo eng api gv sv x') x' (\<lambda>info. (Ret info, x'))
    | (Throw e, x') \<Rightarrow> (Throw e, x') | (Abort, x') \<Rightarrow> (Abort, x')) \<noteq> Abort"
  using Session_Open_ends [of api ge x] by (auto simp: or_throw_def split: prod.splits flow.splits sum.splits)

lemma handle_answers: "mutation_id_of rpc = None \<Longrightarrow> fst (handle env cx rpc s) \<noteq> Abort"
  by (cases "(rpc, R_Empty)" rule: response_type.cases)
     (simp_all add: on_side_answer on_journal_answer OpenBook_def CloseBook_def GetBookInfo_def
        ListIndeterminateMutations_def RunRpc_answers or_throw_answers open_answers Session_Close_answers Ping_def)

text \<open>A call the queue refuses touches nothing and gets the refusal's status.\<close>

lemma handle_refused:
  assumes "cx_admission cx = Some e" and "rpc \<noteq> SessionService Ping_rpc"
  shows "handle env cx rpc s = (Ret (StatusFromException (env_status_pb (sv_mut env)) e, None), s)"
  using assms
  by (cases "(rpc, R_Empty)" rule: response_type.cases)
     (simp_all add: mutation_rpc_defs RunMutation_def read_rpc_def on_side_def on_journal_def OpenBook_def CloseBook_def
       GetBookInfo_def ListIndeterminateMutations_def RunRpc_refused)

section \<open>What a call does to the journal\<close>

lemma RunMutation_writes:
  assumes "planned_apply apply_fn plan"
  shows "(journal_write (env_outcome_pb env))\<^sup>*\<^sup>* (fst s)
     (fst (snd (answer R (RunMutation env admission rpb mid req name apply_fn s))))"
proof (cases admission)
  case None
  obtain j x fl j' x' where s: "s = (j, x)" and run: "RunMutation_body env rpb mid req name apply_fn (j, x) = (fl, (j', x'))"
    by (metis prod.collapse)
  from planned_apply.body_writes [OF assms run] None s run show ?thesis
    by (cases fl) (simp_all add: RunMutation_def RunRpc_def)
qed (simp add: RunMutation_def RunRpc_def)

lemma handle_journal_writes:
  "(journal_write (env_outcome_pb (sv_mut env)))\<^sup>*\<^sup>* (fst s) (fst (snd (handle env cx rpc s)))"
proof (cases "mutation_id_of rpc")
  case (Some mid)
  then show ?thesis by (rule mutation_handled) (erule RunMutation_writes)+
next
  case None
  show ?thesis
  proof (cases "rpc \<in> {SessionService OpenBook_rpc, SessionService CloseBook_rpc}")
    case True
    then show ?thesis by (auto simp: on_side_answer)
  next
    case False
    with None handle_reads [of rpc env cx s] show ?thesis by simp
  qed
qed

section \<open>Properties\<close>

text \<open>
  C20. The contract of every RPC: no exception ever leaves a handler; a call that answers
  carries a response exactly when its status is \<open>OK\<close>, and then one of the type the contract
  declares for the RPC; only a mutation may fail to answer; a read changes neither journal,
  session nor book; and a call the queue refuses changes nothing and says so.
\<close>
theorem rpcs_well_typed:
  assumes "handle env cx rpc s = (fl, s')"
  shows "((\<exists>status r. fl = Ret (status, r) \<and> (status = Status_OK \<longleftrightarrow> r \<noteq> None) \<and> (\<forall>x. r = Some x \<longrightarrow> response_type rpc x)) \<or>
       (fl = Abort \<and> mutation_id_of rpc \<noteq> None)) \<and>
     (mutation_id_of rpc = None \<and> rpc \<notin> {SessionService OpenBook_rpc, SessionService CloseBook_rpc} \<longrightarrow> s' = s) \<and>
     (\<forall>e. cx_admission cx = Some e \<and> rpc \<noteq> SessionService Ping_rpc \<longrightarrow>
        fl = Ret (StatusFromException (env_status_pb (sv_mut env)) e, None) \<and> s' = s)"
proof (intro conjI impI allI)
  show "(\<exists>status r. fl = Ret (status, r) \<and> (status = Status_OK \<longleftrightarrow> r \<noteq> None) \<and> (\<forall>x. r = Some x \<longrightarrow> response_type rpc x)) \<or>
       (fl = Abort \<and> mutation_id_of rpc \<noteq> None)"
    using handle_well_ended [of rpc env cx s] handle_answers [of rpc env cx s] assms
    by (auto simp: well_ended_def split: flow.splits)
qed (use assms handle_reads [of rpc env cx s] handle_refused [of cx _ rpc env s] in auto)

end
