(* ===== verification/Command_Line.thy ===== *)
theory Command_Line
  imports Prelude
begin

text \<open>
  The command line of \<^verbatim>\<open>src/main.cpp\<close>, with the C and C++ library functions it uses on text:
  \<^verbatim>\<open>std::stoi\<close>, \<^verbatim>\<open>std::stoul\<close>, and \<^verbatim>\<open>getopt_long\<close> with GNU's permutation and abbreviation rules.
  Strings from \<^verbatim>\<open>argv\<close> hold no NUL, so \<^verbatim>\<open>c_str()\<close> is the whole string.
\<close>

section \<open>Numbers\<close>

definition isspace :: "char \<Rightarrow> bool" where
  "isspace c \<longleftrightarrow> (let n = of_char c :: nat in n = 32 \<or> (9 \<le> n \<and> n \<le> 13))"

definition isdigit :: "char \<Rightarrow> bool" where
  "isdigit c \<longleftrightarrow> (let n = of_char c :: nat in 48 \<le> n \<and> n \<le> 57)"

text \<open>White space, an optional sign, and the digits up to the first other character.\<close>

definition signed_digits :: "string \<Rightarrow> (bool \<times> nat) option" where
  "signed_digits s =
     (let t = dropWhile isspace s;
          neg = (t \<noteq> [] \<and> hd t = CHR ''-'');
          u = (if t \<noteq> [] \<and> hd t \<in> {CHR ''-'', CHR ''+''} then tl t else t);
          ds = takeWhile isdigit u
      in if ds = [] then None else Some (neg, digits_value ds))"

text \<open>\<open>None\<close>: \<^verbatim>\<open>std::invalid_argument\<close> or \<^verbatim>\<open>std::out_of_range\<close>.\<close>

definition stoi :: "string \<Rightarrow> int option" where
  "stoi s =
     (case signed_digits s of
        None \<Rightarrow> None
      | Some (neg, m) \<Rightarrow>
          (let n = (if neg then - int m else int m) in if - (2 ^ 31) \<le> n \<and> n < 2 ^ 31 then Some n else None))"

text \<open>\<^verbatim>\<open>strtoul\<close> takes a minus sign and negates modulo the width of the type.\<close>

definition stoul :: "string \<Rightarrow> 64 word option" where
  "stoul s =
     (case signed_digits s of
        None \<Rightarrow> None
      | Some (neg, m) \<Rightarrow>
          if 2 ^ 64 \<le> int m then None else Some (word_of_int (if neg then - int m else int m)))"

section \<open>getopt\_long\<close>

datatype has_arg = no_argument | required_argument

definition kLongOptions :: "(string \<times> has_arg \<times> char) list" where
  "kLongOptions =
     [(''book-uri'', required_argument, CHR ''b''),
      (''socket'', required_argument, CHR ''s''),
      (''journal'', required_argument, CHR ''j''),
      (''backup-dir'', required_argument, CHR ''B''),
      (''backup-keep-days'', required_argument, CHR ''K''),
      (''read-only'', no_argument, CHR ''r''),
      (''queue-depth'', required_argument, CHR ''q''),
      (''version'', no_argument, CHR ''v'')]"

text \<open>
  The option a name stands for: the one of that name, or else the only one that starts with
  it. All options here have different values, so two candidates are always ambiguous.
\<close>

definition long_option :: "string \<Rightarrow> (has_arg \<times> char) option" where
  "long_option name =
     (case map_of kLongOptions name of
        Some o1 \<Rightarrow> Some o1
      | None \<Rightarrow>
          (case filter (\<lambda>(n, _). prefix name n) kLongOptions of [(_, o1)] \<Rightarrow> Some o1 | _ \<Rightarrow> None))"

text \<open>
  The successive results of \<^verbatim>\<open>getopt_long(argc, argv, "", kLongOptions, nullptr)\<close> with their
  \<^verbatim>\<open>optarg\<close>, \<open>?\<close> for an error. No short option exists; an argument that is no option is
  passed over, and \<open>--\<close> ends the options.
\<close>

fun getopt_long :: "string list \<Rightarrow> (char \<times> string) list" where
  "getopt_long [] = []"
| "getopt_long (a # args) =
     (if a = ''--'' then []
      else if prefix ''--'' a then
        (let body = drop 2 a; name = takeWhile (\<lambda>c. c \<noteq> CHR ''='') body; rest = drop (length name) body in
         case long_option name of
           None \<Rightarrow> (CHR ''?'', []) # getopt_long args
         | Some (no_argument, c) \<Rightarrow> (if rest = [] then (c, []) else (CHR ''?'', [])) # getopt_long args
         | Some (required_argument, c) \<Rightarrow>
             if rest \<noteq> [] then (c, tl rest) # getopt_long args
             else (case args of [] \<Rightarrow> [(CHR ''?'', [])] | v # args' \<Rightarrow> (c, v) # getopt_long args'))
      else if prefix ''-'' a \<and> a \<noteq> ''-'' then (CHR ''?'', []) # getopt_long args
      else getopt_long args)"

section \<open>Options\<close>

record Options =
  opt_book_uri :: string
  socket_path :: string
  journal_path :: string
  backup_dir :: string
  backup_keep_days :: int
  opt_read_only :: bool
  opt_queue_depth :: "64 word"

definition Options_default :: Options where
  "Options_default = \<lparr>opt_book_uri = [], socket_path = [], journal_path = [], backup_dir = [], backup_keep_days = 14,
     opt_read_only = False, opt_queue_depth = 256\<rparr>"

definition book_path :: "Options \<Rightarrow> string" where
  "book_path o1 = (if starts_with (opt_book_uri o1) ''sqlite3://'' then drop (length ''sqlite3://'') (opt_book_uri o1) else [])"

text \<open>
  How a stretch of the program ends: it goes on with a value, in \<^verbatim>\<open>Fail\<close> with its reason and
  detail, in \<^verbatim>\<open>exit\<close> with what it printed and the code, in \<^verbatim>\<open>std::terminate\<close> or a fatal signal, or never.
\<close>

datatype 'a process_end = Going 'a | Failed string string | Exited string int | Terminated | Hung

definition DAICHOD_VERSION_line :: "string \<Rightarrow> string \<Rightarrow> string" where
  "DAICHOD_VERSION_line version gnucash = ''daichod '' @ version @ '' (gnucash '' @ gnucash @ '')'' @ [CHR 0x0A]"

definition usage_line :: string where
  "usage_line = ''daichod --book-uri <sqlite3://...> --socket </abs/path.sock> '' @ ''[--read-only] [--queue-depth N]''"

fun parse_events :: "string \<Rightarrow> (char \<times> string) list \<Rightarrow> Options \<Rightarrow> Options process_end" where
  "parse_events version [] o1 = Going o1"
| "parse_events version ((opt, optarg) # evs) o1 =
     (if opt = CHR ''b'' then parse_events version evs (o1\<lparr>opt_book_uri := optarg\<rparr>)
      else if opt = CHR ''s'' then parse_events version evs (o1\<lparr>socket_path := optarg\<rparr>)
      else if opt = CHR ''j'' then parse_events version evs (o1\<lparr>journal_path := optarg\<rparr>)
      else if opt = CHR ''B'' then parse_events version evs (o1\<lparr>backup_dir := optarg\<rparr>)
      else if opt = CHR ''K'' then
        (case stoi optarg of Some n \<Rightarrow> parse_events version evs (o1\<lparr>backup_keep_days := n\<rparr>) | None \<Rightarrow> Terminated)
      else if opt = CHR ''r'' then parse_events version evs (o1\<lparr>opt_read_only := True\<rparr>)
      else if opt = CHR ''q'' then
        (case stoul optarg of Some n \<Rightarrow> parse_events version evs (o1\<lparr>opt_queue_depth := n\<rparr>) | None \<Rightarrow> Terminated)
      else if opt = CHR ''v'' then Exited version 0
      else Failed ''usage'' usage_line)"

definition check_options :: "Options \<Rightarrow> Options process_end" where
  "check_options o1 =
     (if opt_book_uri o1 = [] \<or> socket_path o1 = [] then Failed ''usage'' ''--book-uri and --socket are required''
      else if hd (socket_path o1) \<noteq> CHR ''/'' then Failed ''usage'' ''--socket must be an absolute path''
      else if journal_path o1 = [] \<and> book_path o1 = [] then Failed ''usage'' ''--journal is required for non-sqlite3 books''
      else
        let o2 = (if journal_path o1 = [] then o1\<lparr>journal_path := book_path o1 @ ''.daichod-journal''\<rparr> else o1)
        in if backup_dir o2 \<noteq> [] \<and> book_path o2 = []
           then Failed ''usage'' (''--backup-dir requires a sqlite3 book; database backups are a '' @ ''deployment concern'')
           else Going o2)"

text \<open>\<open>args\<close>: the arguments after the program's name.\<close>

definition ParseOptions :: "string \<Rightarrow> string list \<Rightarrow> Options process_end" where
  "ParseOptions version args =
     (case parse_events version (getopt_long args) Options_default of Going o1 \<Rightarrow> check_options o1 | end1 \<Rightarrow> end1)"

section \<open>Lemmas\<close>

lemma parse_events_Going:
  "parse_events version evs a = Going b \<Longrightarrow> fst ` set evs \<subseteq> set ''bsjBKrq''"
  by (induction version evs a rule: parse_events.induct) (auto split: option.splits if_splits)

lemma book_path_some: "book_path a \<noteq> [] \<Longrightarrow> \<exists>p. p \<noteq> [] \<and> opt_book_uri a = ''sqlite3://'' @ p"
  unfolding book_path_def by (metis starts_withD)

lemma check_options_Going:
  "check_options a = Going o1 \<Longrightarrow> opt_book_uri o1 \<noteq> [] \<and> socket_path o1 \<noteq> [] \<and> hd (socket_path o1) = CHR ''/'' \<and>
     journal_path o1 \<noteq> [] \<and> (backup_dir o1 \<noteq> [] \<longrightarrow> book_path o1 \<noteq> [])"
  by (auto simp: check_options_def Let_def book_path_def split: if_splits)

text \<open>Written out in full with \<open>=\<close>, an option always comes through, whatever its value is.\<close>

lemma getopt_long_equals:
  assumes "(name, required_argument, c) \<in> set kLongOptions"
  shows "getopt_long ((''--'' @ name @ ''='' @ v) # args) = (c, v) # getopt_long args"
  using assms by (auto simp: kLongOptions_def long_option_def)

text \<open>With its value as the next argument, too, even when the value looks like an option.\<close>

lemma getopt_long_separate:
  assumes "(name, required_argument, c) \<in> set kLongOptions"
  shows "getopt_long ((''--'' @ name) # v # args) = (c, v) # getopt_long args"
  using assms by (auto simp: kLongOptions_def long_option_def)

section \<open>Properties\<close>

text \<open>
  Every configuration that is accepted is complete: a book URI, an absolute socket path, a
  journal path (by default next to a sqlite3 book), and backups only for a sqlite3 book; and
  nothing on the command line was unknown, ambiguous or asked for the version.
\<close>
theorem accepted_options_complete:
  assumes "ParseOptions version args = Going o1"
  shows "opt_book_uri o1 \<noteq> [] \<and> (\<exists>rest. socket_path o1 = CHR ''/'' # rest) \<and> journal_path o1 \<noteq> [] \<and>
    (backup_dir o1 \<noteq> [] \<longrightarrow> (\<exists>p. p \<noteq> [] \<and> opt_book_uri o1 = ''sqlite3://'' @ p)) \<and>
    fst ` set (getopt_long args) \<subseteq> set ''bsjBKrq''"
proof -
  from assms obtain a where a: "parse_events version (getopt_long args) Options_default = Going a" "check_options a = Going o1"
    by (auto simp: ParseOptions_def split: process_end.splits)
  from check_options_Going [OF a(2)] parse_events_Going [OF a(1)] book_path_some [of o1]
  show ?thesis by (metis list.collapse)
qed

theorem accepted_options_complete_witness:
  "\<exists>o1. ParseOptions ''v1'' [''--book=sqlite3:///b/my book.gnucash'', ''--socket'', ''/run/d.sock'', ''--queue'', '' 12x''] = Going o1 \<and>
     opt_queue_depth o1 = 12 \<and> journal_path o1 \<noteq> []"
proof -
  let ?args = "[''--book=sqlite3:///b/my book.gnucash'', ''--socket'', ''/run/d.sock'', ''--queue'', '' 12x'']"
  let ?o = "\<lparr>opt_book_uri = ''sqlite3:///b/my book.gnucash'', socket_path = ''/run/d.sock'',
     journal_path = ''/b/my book.gnucash.daichod-journal'', backup_dir = [], backup_keep_days = 14,
     opt_read_only = False, opt_queue_depth = 12\<rparr>"
  have run: "ParseOptions ''v1'' ?args = Going ?o" by code_simp
  then have "journal_path ?o \<noteq> []" using accepted_options_complete by blast
  then show ?thesis by (intro exI [of _ ?o] conjI run) simp_all
qed

end
