(* ===== verification/Backup.thy ===== *)
theory Backup
  imports Engine_Map Ordered_Map
begin

text \<open>
  \<^verbatim>\<open>src/util/backup.{h,cpp}\<close>: the daily snapshot. A file system is the list of its paths with
  what they hold; paths are strings as the program builds them. The members of
  \<^verbatim>\<open>std::filesystem\<close> the code uses are functions on it, and \<open>fs_env\<close> says which of them the
  operating system fails, with the text of the exception. The variants that take an
  \<^verbatim>\<open>error_code\<close> never throw: on failure they have no effect.
\<close>

section \<open>The file system\<close>

datatype fs_node = Dir | File bytes

type_synonym file_system = "(string \<times> fs_node) list"

datatype fs_op =
    Op_exists string | Op_remove_all string | Op_create_directories string
  | Op_copy_file string string | Op_rename string string
  | Op_open_directory string  \<comment> \<open>the constructor of \<^verbatim>\<open>fs::directory_iterator\<close>\<close>
  | Op_next_entry string nat  \<comment> \<open>its \<^verbatim>\<open>operator++\<close> past the given entry\<close>

record fs_env =
  fs_fault :: "fs_op \<Rightarrow> string option"  \<comment> \<open>\<^verbatim>\<open>filesystem_error::what()\<close>\<close>
  fs_today :: "int \<times> int \<times> int"  \<comment> \<open>\<^verbatim>\<open>localtime_r\<close>: year, month, day\<close>

definition path_join :: "string \<Rightarrow> string \<Rightarrow> string" where
  "path_join dir name = (if dir = [] then name else if last dir = CHR ''/'' then dir @ name else dir @ ''/'' @ name)"

definition path_filename :: "string \<Rightarrow> string" where
  "path_filename p = rev (takeWhile (\<lambda>c. c \<noteq> CHR ''/'') (rev p))"

definition beneath :: "string \<Rightarrow> string \<Rightarrow> bool" where
  "beneath dir p \<longleftrightarrow> p = dir \<or> starts_with p (path_join dir [])"

definition fs_exists :: "fs_env \<Rightarrow> string \<Rightarrow> file_system \<Rightarrow> bool" where
  "fs_exists fe p fs \<longleftrightarrow> fs_fault fe (Op_exists p) = None \<and> p \<in> fst ` set fs"

definition fs_remove_all :: "fs_env \<Rightarrow> string \<Rightarrow> file_system \<Rightarrow> file_system" where
  "fs_remove_all fe p fs =
     (if fs_fault fe (Op_remove_all p) \<noteq> None then fs else filter (\<lambda>(q, _). \<not> beneath p q) fs)"

text \<open>The directory and its missing ancestors, which are the prefixes that end before a slash.\<close>

definition path_ancestors :: "string \<Rightarrow> string list" where
  "path_ancestors p = [take i p. i \<leftarrow> [1..<length p], p ! i = CHR ''/'']"

text \<open>A throwing operation: the exception's text, if any, and the file system it leaves.\<close>

type_synonym fs_step = "file_system \<Rightarrow> string option \<times> file_system"

definition fs_seq :: "fs_step \<Rightarrow> fs_step \<Rightarrow> fs_step" where
  "fs_seq f g fs = (case f fs of (Some m, fs') \<Rightarrow> (Some m, fs') | (None, fs') \<Rightarrow> g fs')"

definition fs_create_directories :: "fs_env \<Rightarrow> string \<Rightarrow> fs_step" where
  "fs_create_directories fe p fs =
     (case fs_fault fe (Op_create_directories p) of
        Some m \<Rightarrow> (Some m, fs)
      | None \<Rightarrow> (None, fs @ map (\<lambda>q. (q, Dir)) (filter (\<lambda>q. q \<notin> fst ` set fs) (remdups (path_ancestors p @ [p])))))"

text \<open>\<^verbatim>\<open>fs::copy_file\<close> without options fails when the target exists or the source is no file.\<close>

definition fs_copy_file :: "fs_env \<Rightarrow> string \<Rightarrow> string \<Rightarrow> fs_step" where
  "fs_copy_file fe src dst fs =
     (case fs_fault fe (Op_copy_file src dst) of
        Some m \<Rightarrow> (Some m, fs)
      | None \<Rightarrow>
          (if dst \<in> fst ` set fs then (Some ''cannot copy file: File exists'', fs)
           else (case map_of fs src of
                   Some (File b) \<Rightarrow> (None, fs @ [(dst, File b)])
                 | _ \<Rightarrow> (Some ''cannot copy file: Invalid argument'', fs))))"

definition fs_rename :: "fs_env \<Rightarrow> string \<Rightarrow> string \<Rightarrow> fs_step" where
  "fs_rename fe old new fs =
     (case fs_fault fe (Op_rename old new) of
        Some m \<Rightarrow> (Some m, fs)
      | None \<Rightarrow> (None, map (\<lambda>(q, n). (if beneath old q then new @ drop (length old) q else q, n)) fs))"

text \<open>The directory's entries, in the order it is read.\<close>

definition fs_entries :: "string \<Rightarrow> file_system \<Rightarrow> (string \<times> fs_node) list" where
  "fs_entries dir fs = filter (\<lambda>(q, _). q = path_join dir (path_filename q) \<and> path_filename q \<noteq> []) fs"

section \<open>The snapshot\<close>

text \<open>\<^verbatim>\<open>%0<w>d\<close> of a non-negative number.\<close>

definition zero_padded :: "nat \<Rightarrow> int \<Rightarrow> string" where
  "zero_padded width i = (let s = to_string i in replicate (width - length s) (CHR ''0'') @ s)"

definition TodayStamp :: "fs_env \<Rightarrow> string" where
  "TodayStamp fe =
     (case fs_today fe of (y, m, d) \<Rightarrow> zero_padded 4 y @ ''-'' @ zero_padded 2 m @ ''-'' @ zero_padded 2 d)"

definition LooksLikeStamp :: "string \<Rightarrow> bool" where
  "LooksLikeStamp name \<longleftrightarrow> length name = 10 \<and> name ! 4 = CHR ''-'' \<and> name ! 7 = CHR ''-''"

definition kSuffixes :: "string list" where
  "kSuffixes = ['''', ''-wal'', ''-shm'', ''-journal'']"

fun copy_sidecars :: "fs_env \<Rightarrow> string \<Rightarrow> string \<Rightarrow> string list \<Rightarrow> fs_step" where
  "copy_sidecars fe path dest_dir [] fs = (None, fs)"
| "copy_sidecars fe path dest_dir (suf # sufs) fs =
     (let source = path @ suf in
      fs_seq (\<lambda>fs. if fs_exists fe source fs then fs_copy_file fe source (path_join dest_dir (path_filename source)) fs
                   else (None, fs))
        (copy_sidecars fe path dest_dir sufs) fs)"

definition CopyWithSidecars :: "fs_env \<Rightarrow> string \<Rightarrow> string \<Rightarrow> fs_step" where
  "CopyWithSidecars fe path dest_dir = copy_sidecars fe path dest_dir kSuffixes"

text \<open>The \<^verbatim>\<open>try\<close> block up to the rename, and with it.\<close>

definition assemble_snapshot :: "fs_env \<Rightarrow> string \<Rightarrow> string \<Rightarrow> string \<Rightarrow> fs_step" where
  "assemble_snapshot fe book_path journal_path tmp =
     fs_seq (fs_create_directories fe tmp)
       (fs_seq (CopyWithSidecars fe book_path tmp) (CopyWithSidecars fe journal_path tmp))"

definition take_snapshot :: "fs_env \<Rightarrow> string \<Rightarrow> string \<Rightarrow> string \<Rightarrow> string \<Rightarrow> fs_step" where
  "take_snapshot fe book_path journal_path tmp today =
     fs_seq (assemble_snapshot fe book_path journal_path tmp) (fs_rename fe tmp today)"

text \<open>The loop \<^verbatim>\<open>while (stamps.size() > static_cast<size_t>(keep_days))\<close> over the sorted stamps.\<close>

definition size_t :: "int \<Rightarrow> nat" where
  "size_t i = unat (word_of_int i :: 64 word)"

fun prune_loop :: "fs_env \<Rightarrow> nat \<Rightarrow> string list \<Rightarrow> file_system \<Rightarrow> file_system" where
  "prune_loop fe keep [] fs = fs"
| "prune_loop fe keep (p # stamps) fs =
     (if length (p # stamps) > keep then prune_loop fe keep stamps (fs_remove_all fe p fs) else fs)"

definition snapshot_dirs :: "string \<Rightarrow> file_system \<Rightarrow> string list" where
  "snapshot_dirs root fs =
     sort (map fst (filter (\<lambda>(q, n). n = Dir \<and> LooksLikeStamp (path_filename q)) (fs_entries root fs)))"

text \<open>
  The range-based \<^verbatim>\<open>for\<close> over \<^verbatim>\<open>fs::directory_iterator(root, ec)\<close>: only the constructor takes the
  \<^verbatim>\<open>error_code\<close> (a directory that cannot be opened reads as empty); the loop advances with the
  throwing \<^verbatim>\<open>operator++\<close>, and no \<^verbatim>\<open>try\<close> is around it.
\<close>

fun advance_fault :: "fs_env \<Rightarrow> string \<Rightarrow> nat \<Rightarrow> (string \<times> fs_node) list \<Rightarrow> string option" where
  "advance_fault fe root i [] = None"
| "advance_fault fe root i (entry # entries) =
     (case fs_fault fe (Op_next_entry root i) of
        Some m \<Rightarrow> Some m
      | None \<Rightarrow> advance_fault fe root (i + 1) entries)"

definition list_stamps :: "fs_env \<Rightarrow> string \<Rightarrow> file_system \<Rightarrow> string + string list" where
  "list_stamps fe root fs =
     (if fs_fault fe (Op_open_directory root) \<noteq> None then Inr []
      else (case advance_fault fe root 0 (fs_entries root fs) of
              Some m \<Rightarrow> Inl m
            | None \<Rightarrow> Inr (snapshot_dirs root fs)))"

definition SnapshotBeforeOpen ::
  "fs_env \<Rightarrow> string \<Rightarrow> string \<Rightarrow> string \<Rightarrow> int \<Rightarrow> file_system \<Rightarrow> (exn + bool) \<times> file_system" where
  "SnapshotBeforeOpen fe book_path journal_path backup_dir keep_days fs =
     (let stamp = TodayStamp fe;
          today = path_join backup_dir stamp
      in if fs_exists fe today fs then (Inr False, fs)
         else
           let tmp = path_join backup_dir (stamp @ ''.tmp'');
               fs0 = fs_remove_all fe tmp fs
           in case take_snapshot fe book_path journal_path tmp today fs0 of
                (Some m, fs1) \<Rightarrow>
                  (Inl (ExShim (shim_error ERROR_CODE_ENGINE_ERROR (''backup snapshot failed: '' @ c_str m) backup_dir)), fs1)
              | (None, fs1) \<Rightarrow>
                  (case list_stamps fe backup_dir fs1 of
                     Inl m \<Rightarrow> (Inl (ExOther m), fs1)
                   | Inr stamps \<Rightarrow> (Inr True, prune_loop fe (size_t keep_days) stamps fs1)))"

section \<open>A failed snapshot leaves no snapshot\<close>

definition outside :: "string \<Rightarrow> file_system \<Rightarrow> bool" where
  "outside dir fs \<longleftrightarrow> (\<forall>q \<in> fst ` set fs. \<not> beneath dir q)"

lemma outside_remove: "outside dir fs \<Longrightarrow> outside dir (fs_remove_all fe p fs)"
  by (auto simp: outside_def fs_remove_all_def)

lemma fs_seq_outside:
  assumes "\<And>fs. outside dir fs \<Longrightarrow> outside dir (snd (f fs))" and "\<And>fs. outside dir fs \<Longrightarrow> outside dir (snd (g fs))"
    and "outside dir fs"
  shows "outside dir (snd (fs_seq f g fs))"
  using assms(1) [OF assms(3)] assms(2) by (auto simp: fs_seq_def split: prod.splits option.splits)

lemma fs_copy_outside: "outside dir fs \<Longrightarrow> \<not> beneath dir dst \<Longrightarrow> outside dir (snd (fs_copy_file fe src dst fs))"
  by (auto simp: fs_copy_file_def outside_def split: option.splits fs_node.splits)

lemma copy_sidecars_outside:
  assumes "\<And>name. \<not> beneath dir (path_join tmp name)"
  shows "outside dir fs \<Longrightarrow> outside dir (snd (copy_sidecars fe path tmp sufs fs))"
proof (induction sufs arbitrary: fs)
  case (Cons suf sufs)
  have "outside dir fs \<Longrightarrow> outside dir (snd (if fs_exists fe src fs then fs_copy_file fe src (path_join tmp name) fs else (None, fs)))"
    for fs src name using fs_copy_outside [OF _ assms] by simp
  from fs_seq_outside [OF this Cons.IH Cons.prems] show ?case by (simp add: Let_def)
qed simp

lemma create_outside:
  assumes "\<And>q. q \<in> set (path_ancestors p @ [p]) \<Longrightarrow> \<not> beneath dir q"
  shows "outside dir fs \<Longrightarrow> outside dir (snd (fs_create_directories fe p fs))"
  using assms by (auto simp: fs_create_directories_def outside_def split: option.splits)

lemma ancestor_shorter:
  assumes "q \<in> set (path_ancestors (dir @ name))" and "CHR ''/'' \<notin> set name"
  shows "length q < length dir"
proof -
  from assms(1) obtain i where i: "1 \<le> i" "i < length dir + length name" "(dir @ name) ! i = CHR ''/''" "q = take i (dir @ name)"
    by (auto simp: path_ancestors_def)
  have "i < length dir"
  proof (rule ccontr)
    assume "\<not> i < length dir"
    with i have "name ! (i - length dir) = CHR ''/''" "i - length dir < length name" by (auto simp: nth_append)
    with assms(2) show False by (metis nth_mem)
  qed
  with i show ?thesis by simp
qed

lemma beneath_longer: "beneath dir q \<Longrightarrow> length dir \<le> length q"
  by (auto simp: beneath_def path_join_def starts_with_def prefix_def split: if_splits)

lemma tmp_not_beneath:
  assumes "today \<noteq> []" and "last today \<noteq> CHR ''/''"
  shows "\<not> beneath today (path_join (today @ ''.tmp'') name)" "\<not> beneath today (today @ ''.tmp'')"
  using assms by (auto simp: beneath_def path_join_def starts_with_def)

lemma to_string_no_slash: "CHR ''/'' \<notin> set (to_string i)"
proof -
  have "c \<in> set (nat_to_string n) \<Longrightarrow> c \<noteq> CHR ''/''" for c n
    using nat_to_string_digits [of c n] by auto
  then show ?thesis by (auto simp: to_string_def)
qed

lemma to_string_ne: "to_string i \<noteq> []" "last (to_string i) \<noteq> CHR ''/''"
proof -
  have "nat_to_string n \<noteq> []" for n by (subst nat_to_string.simps) simp
  then show "to_string i \<noteq> []" by (simp add: to_string_def)
  then show "last (to_string i) \<noteq> CHR ''/''" using to_string_no_slash [of i] by (metis last_in_set)
qed

lemma TodayStamp_shape: "CHR ''/'' \<notin> set (TodayStamp fe)" "TodayStamp fe \<noteq> []" "last (TodayStamp fe) \<noteq> CHR ''/''"
  using to_string_no_slash to_string_ne
  by (auto simp: TodayStamp_def zero_padded_def Let_def split: prod.splits)

section \<open>A snapshot that was taken\<close>

lemma advance_fault_Some: "advance_fault fe root i es = Some m \<Longrightarrow> \<exists>k. fs_fault fe (Op_next_entry root k) = Some m"
  by (induction fe root i es rule: advance_fault.induct) (auto split: option.splits)

lemma list_stamps_unread: "list_stamps fe root fs = Inl m \<Longrightarrow> \<exists>k. fs_fault fe (Op_next_entry root k) = Some m"
  using advance_fault_Some by (auto simp: list_stamps_def split: if_splits option.splits)

lemma fs_seq_None: "fs_seq f g fs = (None, fs') \<longleftrightarrow> (\<exists>fs1. f fs = (None, fs1) \<and> g fs1 = (None, fs'))"
  by (auto simp: fs_seq_def split: prod.splits option.splits)

lemma copy_sidecars_keeps: "copy_sidecars fe path dest sufs fs = (None, fs') \<Longrightarrow> fst ` set fs \<subseteq> fst ` set fs'"
proof (induction sufs arbitrary: fs)
  case (Cons suf sufs)
  have step: "fst ` set fs \<subseteq> fst ` set fs1"
    if "(if fs_exists fe src fs then fs_copy_file fe src dst fs else (None, fs)) = (None, fs1)" for src dst fs1
    using that by (auto simp: fs_copy_file_def split: if_splits option.splits fs_node.splits)
  from Cons.prems obtain fs1 where
    "(if fs_exists fe (path @ suf) fs then fs_copy_file fe (path @ suf) (path_join dest (path_filename (path @ suf))) fs
      else (None, fs)) = (None, fs1)" "copy_sidecars fe path dest sufs fs1 = (None, fs')"
    by (auto simp: fs_seq_None Let_def)
  with step Cons.IH show ?case by blast
qed simp

lemma taken_snapshot_there:
  assumes "take_snapshot fe book_path journal_path tmp today fs = (None, fs')"
  shows "today \<in> fst ` set fs'"
proof -
  from assms obtain fs1 fs2 fs3 where made: "fs_create_directories fe tmp fs = (None, fs1)"
    and copies: "CopyWithSidecars fe book_path tmp fs1 = (None, fs2)" "CopyWithSidecars fe journal_path tmp fs2 = (None, fs3)"
    and moved: "fs_rename fe tmp today fs3 = (None, fs')"
    by (auto simp: take_snapshot_def assemble_snapshot_def fs_seq_None)
  from made have fs1: "fs1 = fs @ map (\<lambda>q. (q, Dir)) (filter (\<lambda>q. q \<notin> fst ` set fs) (remdups (path_ancestors tmp @ [tmp])))"
    by (auto simp: fs_create_directories_def split: option.splits)
  have "tmp \<in> fst ` set fs1" unfolding fs1 by (cases "tmp \<in> fst ` set fs") (simp_all add: image_Un image_image)
  with copies [unfolded CopyWithSidecars_def, THEN copy_sidecars_keeps] have "tmp \<in> fst ` set fs3" by blast
  then obtain n where "(tmp, n) \<in> set fs3" by auto
  then have "(today, n) \<in> (\<lambda>(q, n). (if beneath tmp q then today @ drop (length tmp) q else q, n)) ` set fs3"
    by (intro image_eqI [of _ _ "(tmp, n)"]) (simp_all add: beneath_def)
  moreover from moved have "fs' = map (\<lambda>(q, n). (if beneath tmp q then today @ drop (length tmp) q else q, n)) fs3"
    by (auto simp: fs_rename_def split: option.splits)
  ultimately have "(today, n) \<in> set fs'" by (simp only: set_map)
  then show ?thesis by (rule image_eqI [rotated]) simp
qed

section \<open>Pruning\<close>

lemma prune_loop_eq:
  assumes "\<And>p. fs_fault fe (Op_remove_all p) = None"
  shows "prune_loop fe keep ps fs =
     filter (\<lambda>(q, _). \<forall>p \<in> set (take (length ps - keep) ps). \<not> beneath p q) fs"
proof (induction ps arbitrary: fs)
  case (Cons p ps)
  show ?case
  proof (cases "length (p # ps) > keep")
    case True
    then have t: "take (length (p # ps) - keep) (p # ps) = p # take (length ps - keep) ps" by (simp add: Suc_diff_le)
    have "prune_loop fe keep (p # ps) fs =
        filter (\<lambda>(q, _). \<forall>p \<in> set (take (length ps - keep) ps). \<not> beneath p q) (filter (\<lambda>(q, _). \<not> beneath p q) fs)"
      using True assms by (simp add: Cons.IH fs_remove_all_def)
    also have "\<dots> = filter (\<lambda>(q, _). \<forall>p' \<in> set (take (length (p # ps) - keep) (p # ps)). \<not> beneath p' q) fs"
      unfolding t filter_filter by (rule filter_cong [OF refl]) auto
    finally show ?thesis .
  next
    case False
    then have "length (p # ps) - keep = 0" by simp
    with False show ?thesis by (simp del: length_Cons)
  qed
qed simp

lemma filter_not_taken: "distinct ys \<Longrightarrow> filter (\<lambda>y. y \<notin> set (take k ys)) ys = drop k ys"
proof (induction ys arbitrary: k)
  case (Cons y ys)
  show ?case
  proof (cases k)
    case (Suc n)
    have "filter (\<lambda>z. z \<notin> set (take (Suc n) (y # ys))) ys = filter (\<lambda>z. z \<notin> set (take n ys)) ys"
      by (rule filter_cong [OF refl]) (use Cons.prems in auto)
    with Suc Cons show ?thesis by simp
  qed simp
qed simp

lemma snapshot_dir_names:
  assumes "q \<in> set (snapshot_dirs root fs)" shows "length q = length (path_join root []) + 10"
proof -
  from assms have "q = path_join root (path_filename q)" "length (path_filename q) = 10"
    by (auto simp: snapshot_dirs_def fs_entries_def LooksLikeStamp_def)
  moreover have "length (path_join root n) = length (path_join root []) + length n" for n by (simp add: path_join_def)
  ultimately show ?thesis by metis
qed

lemma snapshot_dirs_beneath:
  assumes "p \<in> set (snapshot_dirs root fs)" "q \<in> set (snapshot_dirs root fs)" shows "beneath p q \<longleftrightarrow> p = q"
proof
  assume b: "beneath p q"
  have eq: "length p = length q" "p \<noteq> []" using snapshot_dir_names [OF assms(1)] snapshot_dir_names [OF assms(2)] by auto
  have "last p \<noteq> CHR ''/''"
  proof -
    from assms(1) have "p = path_join root (path_filename p)" "path_filename p \<noteq> []"
      by (auto simp: snapshot_dirs_def fs_entries_def)
    moreover have "CHR ''/'' \<notin> set (path_filename p)" by (auto simp: path_filename_def dest: set_takeWhileD)
    ultimately have "last p = last (path_filename p)"
      by (metis append_Cons append_is_Nil_conv last_appendR path_join_def)
    then show ?thesis using \<open>path_filename p \<noteq> []\<close> \<open>CHR ''/'' \<notin> set (path_filename p)\<close> by (metis last_in_set)
  qed
  with b eq show "p = q" by (auto simp: beneath_def path_join_def starts_with_def dest!: prefix_length_le)
qed (simp add: beneath_def)

lemma snapshot_dirs_filter:
  "snapshot_dirs root (filter (\<lambda>(q, _). P q) fs) = filter P (snapshot_dirs root fs)"
proof -
  have "filter P (map fst xs) = map fst (filter (\<lambda>(q, _). P q) xs)" for xs :: file_system
    by (induction xs) auto
  then show ?thesis
    by (auto simp: snapshot_dirs_def fs_entries_def filter_sort conj_commute conj_left_commute split_def
        intro!: arg_cong [where f = sort] arg_cong [where f = "map fst"] filter_cong)
qed

section \<open>Properties\<close>

text \<open>
  C35. A snapshot that fails is never mistaken for one that was taken: whatever operation of
  the file system fails while it is assembled and put in place, and wherever, the failing run
  throws \<open>ENGINE_ERROR\<close> and leaves nothing at or beneath today's snapshot directory, so that the
  next start tries again. One other exception escapes: reading on in the backup directory while
  pruning may throw a \<^verbatim>\<open>filesystem_error\<close>; then today's snapshot is in place, complete, and nothing
  was pruned.
\<close>
theorem failed_snapshot_leaves_none:
  assumes "SnapshotBeforeOpen fe book_path journal_path dir keep_days fs = (Inl e, fs')"
    and "outside (path_join dir (TodayStamp fe)) fs"
  shows "(outside (path_join dir (TodayStamp fe)) fs' \<and> \<not> fs_exists fe (path_join dir (TodayStamp fe)) fs' \<and>
      (\<exists>m. e = ExShim (shim_error ERROR_CODE_ENGINE_ERROR m dir))) \<or>
    (path_join dir (TodayStamp fe) \<in> fst ` set fs' \<and>
      take_snapshot fe book_path journal_path (path_join dir (TodayStamp fe @ ''.tmp'')) (path_join dir (TodayStamp fe))
        (fs_remove_all fe (path_join dir (TodayStamp fe @ ''.tmp'')) fs) = (None, fs') \<and>
      (\<exists>i m. fs_fault fe (Op_next_entry dir i) = Some m \<and> e = ExOther m))"
proof -
  define today where "today = path_join dir (TodayStamp fe)"
  have ne: "today \<noteq> []" "last today \<noteq> CHR ''/''" using TodayStamp_shape [of fe] by (auto simp: today_def path_join_def)
  have tmp: "path_join dir (TodayStamp fe @ ''.tmp'') = today @ ''.tmp''" by (simp add: today_def path_join_def)
  from tmp_not_beneath [OF ne] have nb: "\<not> beneath today (path_join (today @ ''.tmp'') name)" "\<not> beneath today (today @ ''.tmp'')" for name
    by auto
  obtain root where root: "today = root @ TodayStamp fe" by (metis path_join_def today_def append_Nil append.assoc)
  have anc: "q \<in> set (path_ancestors (today @ ''.tmp'') @ [today @ ''.tmp'']) \<Longrightarrow> \<not> beneath today q" for q
    using ancestor_shorter [of q root "TodayStamp fe @ ''.tmp''"] TodayStamp_shape(1) [of fe] beneath_longer [of today q] nb(2)
    by (auto simp: root)
  have assemble: "outside today (snd (assemble_snapshot fe book_path journal_path (today @ ''.tmp'') fs))"
    if "outside today fs" for fs
    unfolding assemble_snapshot_def CopyWithSidecars_def
    by (intro fs_seq_outside create_outside [OF anc] copy_sidecars_outside [OF nb(1)] that)
  have rename: "fst (fs_rename fe a b fs) = Some m \<Longrightarrow> snd (fs_rename fe a b fs) = fs" for a b fs m
    by (auto simp: fs_rename_def split: option.splits)
  have "outside today (snd (take_snapshot fe book_path journal_path (today @ ''.tmp'') today fs0))"
    if "outside today fs0" "fst (take_snapshot fe book_path journal_path (today @ ''.tmp'') today fs0) = Some m" for fs0 m
    using assemble [OF that(1)] that(2) rename
    by (auto simp: take_snapshot_def fs_seq_def split: prod.splits option.splits)
  note snap = this
  let ?take = "take_snapshot fe book_path journal_path (today @ ''.tmp'') today (fs_remove_all fe (today @ ''.tmp'') fs)"
  from assms(1) consider
      (failed) m where "?take = (Some m, fs')"
        "e = ExShim (shim_error ERROR_CODE_ENGINE_ERROR (''backup snapshot failed: '' @ c_str m) dir)"
    | (unread) m where "?take = (None, fs')" "list_stamps fe dir fs' = Inl m" "e = ExOther m"
    unfolding SnapshotBeforeOpen_def Let_def today_def [symmetric] tmp
    by (auto split: if_splits prod.splits option.splits sum.splits)
  then show ?thesis
  proof cases
    case failed
    then have "outside today fs'"
      using snap [OF outside_remove [of today fs fe "today @ ''.tmp''"]] assms(2) by (simp add: today_def)
    moreover from this have "\<not> fs_exists fe today fs'" by (auto simp: fs_exists_def outside_def beneath_def)
    ultimately show ?thesis using failed(2) by (simp add: today_def)
  next
    case unread
    from list_stamps_unread [OF unread(2)] obtain i where "fs_fault fe (Op_next_entry dir i) = Some m" by blast
    with unread taken_snapshot_there [OF unread(1)] show ?thesis unfolding today_def [symmetric] tmp by blast
  qed
qed

text \<open>
  C36. Pruning keeps exactly the newest snapshots: on a file system whose paths are distinct and
  that lets directories be removed, the snapshot directories left after pruning to \<open>keep\<close> are
  the last \<open>keep\<close> in date order, and nothing outside the pruned ones is touched. (With
  \<^verbatim>\<open>--backup-keep-days 0\<close> that is none, the one just taken included.)
\<close>
theorem prune_keeps_newest:
  assumes "\<And>p. fs_fault fe (Op_remove_all p) = None" and "distinct (map fst fs)"
  shows "let dirs = snapshot_dirs root fs; fs' = prune_loop fe keep dirs fs;
             pruned = take (length dirs - keep) dirs
     in snapshot_dirs root fs' = drop (length dirs - keep) dirs \<and>
        length (snapshot_dirs root fs') = min keep (length dirs) \<and>
        set fs' = {(q, n) \<in> set fs. \<forall>p \<in> set pruned. \<not> beneath p q}"
proof -
  let ?dirs = "snapshot_dirs root fs" and ?fs = "prune_loop fe keep (snapshot_dirs root fs) fs"
  let ?pruned = "take (length ?dirs - keep) ?dirs"
  have eq: "?fs = filter (\<lambda>(q, _). \<forall>p \<in> set ?pruned. \<not> beneath p q) fs" by (rule prune_loop_eq [OF assms(1)])
  have "distinct ?dirs"
    using assms(2) by (simp add: snapshot_dirs_def fs_entries_def distinct_map_filter)
  moreover have "snapshot_dirs root ?fs = filter (\<lambda>q. q \<notin> set ?pruned) ?dirs"
    unfolding eq snapshot_dirs_filter
    by (rule filter_cong [OF refl]) (use snapshot_dirs_beneath in \<open>metis in_set_takeD\<close>)
  ultimately have "snapshot_dirs root ?fs = drop (length ?dirs - keep) ?dirs" by (simp add: filter_not_taken)
  then show ?thesis by (auto simp: Let_def eq)
qed

end
