(* ===== verification/Process_Locks.thy ===== *)
theory Process_Locks
  imports Command_Line Backup
begin

text \<open>
  The locks of \<^verbatim>\<open>src/main.cpp\<close>: which files a daemon locks, how it takes them, and any number of
  daemons that start, serve and end in any interleaving. The kernel's part is \<open>os_state\<close>: who
  holds an exclusive \<^verbatim>\<open>flock\<close> on which lock file (released when the process ends, however it
  ends), the pid files, the socket files, and each process's lines on standard error. Files are
  named by the paths the program builds.
\<close>

section \<open>The operating system\<close>

record os_state =
  flocks :: "string \<Rightarrow> nat option"  \<comment> \<open>the process that holds the lock\<close>
  pid_files :: "string \<Rightarrow> string option"
  socket_files :: "string list"
  stderr_of :: "nat \<Rightarrow> string list"

definition new_os :: os_state where
  "new_os = \<lparr>flocks = (\<lambda>_. None), pid_files = (\<lambda>_. None), socket_files = [], stderr_of = (\<lambda>_. [])\<rparr>"

text \<open>What the file system refuses, and whether the server can listen on a path.\<close>

record os_env =
  os_open_lock :: "string \<Rightarrow> bool"
  os_open_pid :: "string \<Rightarrow> bool"
  os_listen :: "string \<Rightarrow> bool"

definition log_line :: "nat \<Rightarrow> string \<Rightarrow> os_state \<Rightarrow> os_state" where
  "log_line pid line s = s\<lparr>stderr_of := (stderr_of s)(pid := stderr_of s pid @ [line])\<rparr>"

definition unlink_socket :: "string \<Rightarrow> os_state \<Rightarrow> os_state" where
  "unlink_socket path s = s\<lparr>socket_files := filter (\<lambda>p. p \<noteq> path) (socket_files s)\<rparr>"

text \<open>The end of a process.\<close>

definition release_flocks :: "nat \<Rightarrow> os_state \<Rightarrow> os_state" where
  "release_flocks pid s = s\<lparr>flocks := (\<lambda>p. if flocks s p = Some pid then None else flocks s p)\<rparr>"

section \<open>Failing\<close>

definition json_error :: "string \<Rightarrow> string \<Rightarrow> string" where
  "json_error reason detail =
     ''{'' @ [CHR 0x22] @ ''error'' @ [CHR 0x22] @ '':'' @ [CHR 0x22] @ c_str reason @ [CHR 0x22] @ '','' @
     [CHR 0x22] @ ''detail'' @ [CHR 0x22] @ '':'' @ [CHR 0x22] @ c_str detail @ [CHR 0x22] @ ''}''"

definition Fail :: "nat \<Rightarrow> string \<Rightarrow> string \<Rightarrow> os_state \<Rightarrow> 'a process_end \<times> os_state" where
  "Fail pid reason detail s = (Failed reason detail, log_line pid (json_error reason detail) s)"

section \<open>Which files are locked\<close>

definition kHexDigits :: string where "kHexDigits = ''0123456789abcdef''"

definition HexEncode :: "bytes \<Rightarrow> string" where
  "HexEncode data =
     concat (map (\<lambda>b. let n = of_char b :: nat in [kHexDigits ! (n div 16), kHexDigits ! (n mod 16)]) data)"

definition StripCredentials :: "string \<Rightarrow> string" where
  "StripCredentials uri =
     (case str_find uri ''://'' 0 of
        None \<Rightarrow> uri
      | Some scheme_end \<Rightarrow>
          (let authority_start = scheme_end + 3 in
           (case str_find uri ''@'' authority_start of
              None \<Rightarrow> uri
            | Some at_pos \<Rightarrow>
                (case str_find uri ''/'' authority_start of
                   Some slash_pos \<Rightarrow> if at_pos > slash_pos then uri else take authority_start uri @ drop (at_pos + 1) uri
                 | None \<Rightarrow> take authority_start uri @ drop (at_pos + 1) uri))))"

text \<open>
  \<^verbatim>\<open>std::filesystem::path::parent_path\<close>: without the last component and the separators before it,
  except those of the root directory, which is its own parent.
\<close>

definition parent_path :: "string \<Rightarrow> string" where
  "parent_path p =
     (if list_all (\<lambda>c. c = CHR ''/'') p then p
      else let dir = rev (dropWhile (\<lambda>c. c = CHR ''/'') (dropWhile (\<lambda>c. c \<noteq> CHR ''/'') (rev p)))
           in if dir = [] \<and> hd p = CHR ''/'' then ''/'' else dir)"

definition socket_lock_path :: "Options \<Rightarrow> string" where
  "socket_lock_path o1 = socket_path o1 @ ''.lock''"

definition book_lock_path :: "(bytes \<Rightarrow> bytes) \<Rightarrow> Options \<Rightarrow> string" where
  "book_lock_path sha256 o1 =
     (if book_path o1 \<noteq> [] then book_path o1 @ ''.daichod.lock''
      else path_join (parent_path (journal_path o1))
             (take 32 (HexEncode (sha256 (StripCredentials (opt_book_uri o1)))) @ ''.daichod.lock''))"

section \<open>Taking them\<close>

text \<open>
  \<^verbatim>\<open>flock\<close> with \<^verbatim>\<open>LOCK_NB\<close> on a newly opened file: refused when the lock is held through any other
  open file, one of the same process included.
\<close>

definition AcquireOneLock ::
  "os_env \<Rightarrow> nat \<Rightarrow> string \<Rightarrow> string \<Rightarrow> string \<Rightarrow> os_state \<Rightarrow> unit process_end \<times> os_state" where
  "AcquireOneLock os pid lock_path pid_path fail_reason s =
     (if \<not> os_open_lock os lock_path then Fail pid ''lock_open_failed'' lock_path s
      else if flocks s lock_path \<noteq> None then Fail pid fail_reason (''another daichod holds '' @ lock_path) s
      else
        let s1 = s\<lparr>flocks := (flocks s)(lock_path \<mapsto> pid)\<rparr>
        in if \<not> os_open_pid os pid_path then Fail pid ''pidfile_open_failed'' pid_path s1
           else (Going (), s1\<lparr>pid_files := (pid_files s1)(pid_path \<mapsto> nat_to_string pid @ [CHR 0x0A])\<rparr>))"

definition acquire_socket_lock :: "os_env \<Rightarrow> nat \<Rightarrow> Options \<Rightarrow> os_state \<Rightarrow> unit process_end \<times> os_state" where
  "acquire_socket_lock os pid o1 =
     AcquireOneLock os pid (socket_lock_path o1) (socket_path o1 @ ''.pid'') ''already_running''"

definition acquire_book_lock ::
  "os_env \<Rightarrow> (bytes \<Rightarrow> bytes) \<Rightarrow> nat \<Rightarrow> Options \<Rightarrow> os_state \<Rightarrow> unit process_end \<times> os_state" where
  "acquire_book_lock os sha256 pid o1 =
     (let p = book_lock_path sha256 o1 in AcquireOneLock os pid p (p @ ''.pid'') ''book_already_open'')"

definition AcquireLocks ::
  "os_env \<Rightarrow> (bytes \<Rightarrow> bytes) \<Rightarrow> nat \<Rightarrow> Options \<Rightarrow> os_state \<Rightarrow> unit process_end \<times> os_state" where
  "AcquireLocks os sha256 pid o1 s =
     (case acquire_socket_lock os pid o1 s of
        (Going _, s1) \<Rightarrow>
          (case acquire_book_lock os sha256 pid o1 s1 of
             (Going _, s2) \<Rightarrow> (Going (), unlink_socket (socket_path o1) s2)
           | stopped \<Rightarrow> stopped)
      | stopped \<Rightarrow> stopped)"

section \<open>Many daemons\<close>

text \<open>
  The daemons of one machine, each where it is in \<open>AcquireLocks\<close>: their steps interleave between
  the two locks, and a daemon may end at any moment.
\<close>

datatype phase = Starting | Has_socket_lock | Has_both_locks

record host =
  h_os :: os_state
  h_daemons :: "nat \<Rightarrow> (Options \<times> phase) option"

definition new_host :: host where
  "new_host = \<lparr>h_os = new_os, h_daemons = (\<lambda>_. None)\<rparr>"

definition daemon_at :: "host \<Rightarrow> nat \<Rightarrow> Options \<Rightarrow> phase \<Rightarrow> bool" where
  "daemon_at h pid o1 ph \<longleftrightarrow> h_daemons h pid = Some (o1, ph)"

inductive lock_step :: "os_env \<Rightarrow> (bytes \<Rightarrow> bytes) \<Rightarrow> host \<Rightarrow> host \<Rightarrow> bool" for os sha256 where
  launch: "h_daemons h pid = None \<Longrightarrow> lock_step os sha256 h (h\<lparr>h_daemons := (h_daemons h)(pid \<mapsto> (o1, Starting))\<rparr>)"
| lock_socket: "daemon_at h pid o1 Starting \<Longrightarrow> acquire_socket_lock os pid o1 (h_os h) = (Going (), s') \<Longrightarrow>
     lock_step os sha256 h \<lparr>h_os = s', h_daemons = (h_daemons h)(pid \<mapsto> (o1, Has_socket_lock))\<rparr>"
| lock_book: "daemon_at h pid o1 Has_socket_lock \<Longrightarrow> acquire_book_lock os sha256 pid o1 (h_os h) = (Going (), s') \<Longrightarrow>
     lock_step os sha256 h \<lparr>h_os = unlink_socket (socket_path o1) s', h_daemons = (h_daemons h)(pid \<mapsto> (o1, Has_both_locks))\<rparr>"
| socket_taken: "daemon_at h pid o1 Starting \<Longrightarrow> acquire_socket_lock os pid o1 (h_os h) = (Failed r m, s') \<Longrightarrow>
     lock_step os sha256 h \<lparr>h_os = release_flocks pid s', h_daemons = (h_daemons h)(pid := None)\<rparr>"
| book_taken: "daemon_at h pid o1 Has_socket_lock \<Longrightarrow> acquire_book_lock os sha256 pid o1 (h_os h) = (Failed r m, s') \<Longrightarrow>
     lock_step os sha256 h \<lparr>h_os = release_flocks pid s', h_daemons = (h_daemons h)(pid := None)\<rparr>"
| dies: "h_daemons h pid \<noteq> None \<Longrightarrow>
     lock_step os sha256 h \<lparr>h_os = release_flocks pid (h_os h), h_daemons = (h_daemons h)(pid := None)\<rparr>"

text \<open>A daemon past a lock is the one the kernel names as its holder.\<close>

definition locks_held :: "(bytes \<Rightarrow> bytes) \<Rightarrow> (string \<Rightarrow> nat option) \<Rightarrow> nat \<Rightarrow> Options \<Rightarrow> phase \<Rightarrow> bool" where
  "locks_held sha256 fl pid o1 ph \<longleftrightarrow>
     (ph \<noteq> Starting \<longrightarrow> fl (socket_lock_path o1) = Some pid) \<and>
     (ph = Has_both_locks \<longrightarrow> fl (book_lock_path sha256 o1) = Some pid)"

definition holds_its_locks :: "(bytes \<Rightarrow> bytes) \<Rightarrow> host \<Rightarrow> bool" where
  "holds_its_locks sha256 h \<longleftrightarrow>
     (\<forall>pid o1 ph. daemon_at h pid o1 ph \<longrightarrow> locks_held sha256 (flocks (h_os h)) pid o1 ph)"

text \<open>
  The book a URI addresses, independently of the locks: a file, or a database by what follows the
  credentials. In the authority of a URI the credentials are what comes before the \<^verbatim>\<open>@\<close>; a \<^verbatim>\<open>@\<close> or a \<^verbatim>\<open>/\<close>
  inside them has to be percent-encoded.
\<close>

datatype book_id = Book_file string | Book_database string

inductive addresses :: "string \<Rightarrow> book_id \<Rightarrow> bool" where
  by_file: "path \<noteq> [] \<Longrightarrow> addresses (''sqlite3://'' @ path) (Book_file path)"
| by_name: "CHR ''@'' \<notin> set (takeWhile (\<lambda>c. c \<noteq> CHR ''/'') rest) \<Longrightarrow> addresses (''postgres://'' @ rest) (Book_database rest)"
| with_credentials: "CHR ''@'' \<notin> set credentials \<Longrightarrow> CHR ''/'' \<notin> set credentials \<Longrightarrow>
     CHR ''@'' \<notin> set (takeWhile (\<lambda>c. c \<noteq> CHR ''/'') rest) \<Longrightarrow>
     addresses (''postgres://'' @ credentials @ ''@'' @ rest) (Book_database rest)"

text \<open>
  Two configurations for one book. A database has no file to put a lock beside: its lock is
  in the directory of the journal, so two daemons see each other only when their journals are in
  one directory.
\<close>

definition same_book :: "Options \<Rightarrow> Options \<Rightarrow> bool" where
  "same_book o1 o2 \<longleftrightarrow>
     (\<exists>b. addresses (opt_book_uri o1) b \<and> addresses (opt_book_uri o2) b \<and>
        (\<forall>rest. b = Book_database rest \<longrightarrow> parent_path (journal_path o1) = parent_path (journal_path o2)))"

section \<open>Lemmas\<close>

lemma StripCredentials_shape:
  assumes "CHR '':'' \<notin> set scheme" and "CHR ''@'' \<notin> set cred" "CHR ''/'' \<notin> set cred"
  shows "StripCredentials (scheme @ ''://'' @ cred @ ''@'' @ rest) = scheme @ ''://'' @ rest"
proof -
  let ?uri = "scheme @ ''://'' @ cred @ ''@'' @ rest"
  have s: "str_find ?uri ''://'' 0 = Some (length scheme)"
    using str_find_here [of "''://''" scheme "[]" "cred @ ''@'' @ rest"] assms(1) by simp
  have a: "str_find ?uri ''@'' (length scheme + 3) = Some (length scheme + 3 + length cred)"
    using str_find_here [of "''@''" cred "scheme @ ''://''" rest] assms(2) by (simp add: eval_nat_numeral)
  have sl: "slash > length scheme + 3 + length cred" if "str_find ?uri ''/'' (length scheme + 3) = Some slash" for slash
  proof -
    from str_find_Some_char [OF that] have b: "length scheme + 3 \<le> slash" "?uri ! slash = CHR ''/''" by auto
    have "?uri ! slash \<noteq> CHR ''/''" if "slash \<le> length scheme + 3 + length cred"
    proof -
      let ?i = "slash - (length scheme + 3)"
      have "?uri ! slash = (cred @ ''@'' @ rest) ! ?i"
        using b(1) nth_append [of "scheme @ ''://''" "cred @ ''@'' @ rest" slash] by (simp add: eval_nat_numeral)
      also have "\<dots> = (if ?i < length cred then cred ! ?i else CHR ''@'')"
        using that b(1) by (auto simp: nth_append)
      finally show ?thesis using assms(3) by (auto simp: in_set_conv_nth split: if_splits)
    qed
    with b show ?thesis by (meson not_le)
  qed
  have "take (length scheme + 3) ?uri @ drop (length scheme + 3 + length cred + 1) ?uri = scheme @ ''://'' @ rest"
    by (simp add: eval_nat_numeral)
  then show ?thesis unfolding StripCredentials_def s option.case Let_def a using sl by (auto split: option.splits)
qed

lemma slash_first:
  assumes "CHR ''@'' \<notin> set (takeWhile (\<lambda>c. c \<noteq> CHR ''/'') rest)" and "i < length rest" and "rest ! i = CHR ''@''"
  shows "CHR ''/'' \<in> set (take (Suc i) rest)"
proof (rule ccontr)
  assume "CHR ''/'' \<notin> set (take (Suc i) rest)"
  then have "takeWhile (\<lambda>c. c \<noteq> CHR ''/'') (take (Suc i) rest @ drop (Suc i) rest) =
      take (Suc i) rest @ takeWhile (\<lambda>c. c \<noteq> CHR ''/'') (drop (Suc i) rest)"
    by (intro takeWhile_append2) auto
  moreover have "CHR ''@'' \<in> set (take (Suc i) rest)" using assms(2,3) by (simp add: take_Suc_conv_app_nth)
  ultimately show False using assms(1) by simp
qed

lemma slash_before_at:
  assumes "CHR ''@'' \<notin> set (takeWhile (\<lambda>c. c \<noteq> CHR ''/'') rest)" and a: "str_find (pre @ rest) ''@'' (length pre) = Some at"
  shows "\<exists>slash. str_find (pre @ rest) ''/'' (length pre) = Some slash \<and> slash < at"
proof -
  define i where "i = at - length pre"
  from str_find_Some_char [OF a] have at: "at = length pre + i" "i < length rest" "rest ! i = CHR ''@''"
    by (auto simp: i_def nth_append)
  note before = slash_first [OF assms(1) at(2,3)]
  show ?thesis
  proof (cases "str_find (pre @ rest) ''/'' (length pre)")
    case None
    from str_find_None_char [OF this] before show ?thesis by (auto dest: in_set_takeD)
  next
    case (Some slash)
    from str_find_Some_char [OF Some] have sl: "length pre \<le> slash" "(pre @ rest) ! slash = CHR ''/''"
      "CHR ''/'' \<notin> set (take (slash - length pre) rest)"
      by auto
    have "slash < at"
    proof (rule ccontr)
      assume "\<not> slash < at"
      moreover have "slash \<noteq> at" using sl(2) at by (auto simp: nth_append)
      ultimately have "Suc i \<le> slash - length pre" using at(1) by simp
      then have "set (take (Suc i) rest) \<subseteq> set (take (slash - length pre) rest)" by (rule set_take_subset_set_take)
      with before sl(3) show False by blast
    qed
    with Some show ?thesis by blast
  qed
qed

lemma StripCredentials_plain:
  assumes "CHR ''@'' \<notin> set (takeWhile (\<lambda>c. c \<noteq> CHR ''/'') rest)"
  shows "StripCredentials (''postgres://'' @ rest) = ''postgres://'' @ rest"
proof -
  let ?uri = "''postgres://'' @ rest"
  have s: "str_find ?uri ''://'' 0 = Some 8"
    using str_find_here [of "''://''" "''postgres''" "[]" rest] by simp
  have len: "length ''postgres://'' = 8 + 3" by simp
  have no_credentials: "\<exists>slash. str_find ?uri ''/'' (8 + 3) = Some slash \<and> slash < at" if "str_find ?uri ''@'' (8 + 3) = Some at" for at
    by (rule slash_before_at [OF assms, of "''postgres://''", unfolded len, OF that])
  show ?thesis
    unfolding StripCredentials_def s option.case Let_def using no_credentials by (auto split: option.splits)
qed

lemma addressed_lock:
  assumes "addresses uri b"
  shows "case b of
      Book_file p \<Rightarrow> uri = ''sqlite3://'' @ p \<and> p \<noteq> []
    | Book_database rest \<Rightarrow> \<not> starts_with uri ''sqlite3://'' \<and> StripCredentials uri = ''postgres://'' @ rest"
  using assms
proof (cases rule: addresses.cases)
  case (with_credentials credentials rest)
  then show ?thesis using StripCredentials_shape [of "''postgres''" credentials rest] by (simp add: starts_with_def)
qed (use StripCredentials_plain in \<open>simp_all add: starts_with_def\<close>)

lemma same_book_lock: "same_book o1 o2 \<Longrightarrow> book_lock_path sha256 o1 = book_lock_path sha256 o2"
  by (auto simp: same_book_def book_lock_path_def book_path_def starts_with_def dest!: addressed_lock split: book_id.splits)

lemma AcquireOneLock_Going:
  "AcquireOneLock os pid l p r s = (Going u, s') \<Longrightarrow> flocks s l = None \<and> flocks s' = (flocks s)(l \<mapsto> pid)"
  by (auto simp: AcquireOneLock_def Fail_def Let_def split: if_splits)

lemma AcquireOneLock_Failed:
  "AcquireOneLock os pid l p r s = (Failed r' m, s') \<Longrightarrow>
     flocks s' = flocks s \<or> flocks s l = None \<and> flocks s' = (flocks s)(l \<mapsto> pid)"
  by (auto simp: AcquireOneLock_def Fail_def log_line_def Let_def split: if_splits)

lemma flocks_frames [simp]:
  "flocks (unlink_socket p s) = flocks s" "flocks (log_line pid t s) = flocks s"
  "flocks (release_flocks pid s) l = (if flocks s l = Some pid then None else flocks s l)"
  by (simp_all add: unlink_socket_def log_line_def release_flocks_def)

lemma AcquireLocks_Going:
  assumes "AcquireLocks os sha256 pid o1 s = (Going u, s')"
  shows "flocks s (socket_lock_path o1) = None \<and> flocks s (book_lock_path sha256 o1) = None \<and>
    flocks s' = (flocks s)(socket_lock_path o1 \<mapsto> pid, book_lock_path sha256 o1 \<mapsto> pid)"
proof -
  from assms obtain s1 s2 where 1: "acquire_socket_lock os pid o1 s = (Going (), s1)"
    and 2: "acquire_book_lock os sha256 pid o1 s1 = (Going (), s2)" "s' = unlink_socket (socket_path o1) s2"
    by (auto simp: AcquireLocks_def split: prod.splits process_end.splits)
  from AcquireOneLock_Going [OF 1 [unfolded acquire_socket_lock_def]]
    AcquireOneLock_Going [OF 2(1) [unfolded acquire_book_lock_def Let_def]] 2(2)
  show ?thesis by (auto split: if_splits)
qed

lemma advance_keeps_locks:
  assumes "holds_its_locks sha256 h" and "\<And>l q. flocks (h_os h) l = Some q \<Longrightarrow> flocks s' l = Some q"
    and "locks_held sha256 (flocks s') pid o1 ph"
  shows "holds_its_locks sha256 \<lparr>h_os = s', h_daemons = (h_daemons h)(pid \<mapsto> (o1, ph))\<rparr>"
  using assms by (auto simp: holds_its_locks_def daemon_at_def locks_held_def)

lemma ended_keeps_locks:
  assumes "holds_its_locks sha256 h"
    and "\<And>l q. q \<noteq> pid \<Longrightarrow> flocks (h_os h) l = Some q \<Longrightarrow> flocks s' l = Some q"
  shows "holds_its_locks sha256 \<lparr>h_os = release_flocks pid s', h_daemons = (h_daemons h)(pid := None)\<rparr>"
  using assms by (auto simp: holds_its_locks_def daemon_at_def locks_held_def split: if_splits)

lemma lock_step_keeps_locks: "lock_step os sha256 h h' \<Longrightarrow> holds_its_locks sha256 h \<Longrightarrow> holds_its_locks sha256 h'"
proof (induction rule: lock_step.induct)
  case (launch h pid o1)
  then show ?case by (auto simp: holds_its_locks_def daemon_at_def locks_held_def)
next
  case (lock_socket h pid o1 s')
  from AcquireOneLock_Going [OF lock_socket(2) [unfolded acquire_socket_lock_def]] show ?case
    by (intro advance_keeps_locks lock_socket(3)) (auto simp: locks_held_def)
next
  case (lock_book h pid o1 s')
  have "flocks (h_os h) (socket_lock_path o1) = Some pid"
    using lock_book(1,3) by (auto simp: holds_its_locks_def locks_held_def)
  with AcquireOneLock_Going [OF lock_book(2) [unfolded acquire_book_lock_def Let_def]] show ?case
    by (intro advance_keeps_locks lock_book(3)) (auto simp: locks_held_def)
next
  case (socket_taken h pid o1 r m s')
  from AcquireOneLock_Failed [OF socket_taken(2) [unfolded acquire_socket_lock_def]] show ?case
    by (intro ended_keeps_locks socket_taken(3)) auto
next
  case (book_taken h pid o1 r m s')
  from AcquireOneLock_Failed [OF book_taken(2) [unfolded acquire_book_lock_def Let_def]] show ?case
    by (intro ended_keeps_locks book_taken(3)) auto
next
  case (dies h pid)
  then show ?case by (intro ended_keeps_locks) auto
qed

lemma reachable_holds_locks: "(lock_step os sha256)\<^sup>*\<^sup>* new_host h \<Longrightarrow> holds_its_locks sha256 h"
proof (induction rule: rtranclp_induct)
  case base
  then show ?case by (simp add: new_host_def holds_its_locks_def daemon_at_def)
qed (rule lock_step_keeps_locks)

lemma past_locks:
  assumes "(lock_step os sha256)\<^sup>*\<^sup>* new_host h" and "daemon_at h p o1 Has_both_locks"
  shows "flocks (h_os h) (book_lock_path sha256 o1) = Some p" and "flocks (h_os h) (socket_lock_path o1) = Some p"
  using reachable_holds_locks [OF assms(1)] assms(2) by (auto simp: holds_its_locks_def locks_held_def)

section \<open>Properties\<close>

text \<open>
  C37. One book, one daemon: however many daemons are launched on a machine, in whatever order
  they take their locks, fail and die, never are two of them past \<open>AcquireLocks\<close> on the same
  book (the same sqlite3 path, or the same database under any credentials with the journals in
  one directory), nor on the same socket path; and a daemon that asks for the book while another
  one is past its locks is refused, with \<open>book_already_open\<close> when it can open the lock file. Two
  daemons on one database with their journals in different directories are not kept apart.
\<close>
theorem one_daemon_per_book:
  assumes "(lock_step os sha256)\<^sup>*\<^sup>* new_host h" and "daemon_at h p o1 Has_both_locks"
  shows "(daemon_at h q o2 Has_both_locks \<and> (same_book o1 o2 \<or> socket_path o1 = socket_path o2) \<longrightarrow> p = q) \<and>
    (same_book o1 o2 \<longrightarrow> (\<exists>r m s. acquire_book_lock os sha256 q o2 (h_os h) = (Failed r m, s) \<and>
       (os_open_lock os (book_lock_path sha256 o2) \<longrightarrow> r = ''book_already_open'')))"
proof -
  note p = past_locks [OF assms]
  have "\<exists>r m s. acquire_book_lock os sha256 q o2 (h_os h) = (Failed r m, s) \<and>
       (os_open_lock os (book_lock_path sha256 o2) \<longrightarrow> r = ''book_already_open'')" if "same_book o1 o2"
    using p(1) same_book_lock [OF that, of sha256] by (simp add: acquire_book_lock_def AcquireOneLock_def Fail_def Let_def)
  moreover have "p = q" if "daemon_at h q o2 Has_both_locks" "same_book o1 o2 \<or> socket_path o1 = socket_path o2"
    using p past_locks [OF assms(1) that(1)] that(2) same_book_lock [of o1 o2 sha256] by (auto simp: socket_lock_path_def)
  ultimately show ?thesis by blast
qed

end
