(* ===== verification/Daemon.thy ===== *)
theory Daemon
  imports Recovery Process_Locks Session
begin

text \<open>
  \<^verbatim>\<open>Run\<close> of \<^verbatim>\<open>src/main.cpp\<close>: the startup stages in their order, and the shutdown. A stage is a
  function on the \<open>machine\<close>, which it leaves changed even where it fails: standard error and the
  locks, the file system, the journal on disk, the engine's world, the signal mask. What the
  clients do while the daemon serves is a parameter; the services are in \<open>Services\<close>.
\<close>

section \<open>The machine\<close>

datatype signal = SIGTERM | SIGINT | Other_signal nat

record 'w machine =
  m_os :: os_state
  m_fs :: file_system
  m_journal :: "Journal option"
  m_world :: 'w
  m_blocked :: "signal list"
  m_pending :: "signal list"

record 'w run_env =
  re_pid :: nat
  re_version :: string
  re_os :: os_env
  re_fs :: fs_env
  re_open :: sqlite_open_env
  re_mut :: mutation_env
  re_order :: row_order
  re_pbs :: recovery_pb
  re_eng :: "'w engine"
  re_api :: "'w session_api"
  re_global :: "'w global_api"
  re_lock :: gnclock_env
  re_now :: "PendingEntry \<Rightarrow> int64"
  re_fail_at :: "string option"

type_synonym ('a, 'w) run = "'w machine \<Rightarrow> 'a process_end \<times> 'w machine"

text \<open>One stretch of the program after another.\<close>

definition proceed :: "('a, 'w) run \<Rightarrow> ('a \<Rightarrow> ('b, 'w) run) \<Rightarrow> ('b, 'w) run" where
  "proceed f k m =
     (case f m of
        (Going a, m') \<Rightarrow> k a m'
      | (Failed r d, m') \<Rightarrow> (Failed r d, m')
      | (Exited out c, m') \<Rightarrow> (Exited out c, m')
      | (Terminated, m') \<Rightarrow> (Terminated, m')
      | (Hung, m') \<Rightarrow> (Hung, m'))"

definition on_os :: "(os_state \<Rightarrow> 'a process_end \<times> os_state) \<Rightarrow> ('a, 'w) run" where
  "on_os f m = (case f (m_os m) of (e, s) \<Rightarrow> (e, m\<lparr>m_os := s\<rparr>))"

definition run_fail :: "'w run_env \<Rightarrow> string \<Rightarrow> string \<Rightarrow> ('a, 'w) run" where
  "run_fail re reason detail = on_os (Fail (re_pid re) reason detail)"

definition run_log :: "'w run_env \<Rightarrow> bool \<Rightarrow> string \<Rightarrow> (unit, 'w) run" where
  "run_log re b line = on_os (\<lambda>s. (Going (), if b then log_line (re_pid re) line s else s))"

text \<open>\<^verbatim>\<open>try { ... } catch (const std::exception& e) { Fail(reason, e.what()); }\<close>, and no \<^verbatim>\<open>try\<close>.\<close>

definition try_stage :: "'w run_env \<Rightarrow> string \<Rightarrow> ('w machine \<Rightarrow> (exn, 'a) flow \<times> 'w machine) \<Rightarrow> ('a, 'w) run" where
  "try_stage re reason f m =
     (case f m of
        (Ret a, m') \<Rightarrow> (Going a, m')
      | (Throw e, m') \<Rightarrow> run_fail re reason (what e) m'
      | (Abort, m') \<Rightarrow> (Terminated, m'))"

definition bare_stage :: "('w machine \<Rightarrow> (exn, 'a) flow \<times> 'w machine) \<Rightarrow> ('a, 'w) run" where
  "bare_stage f m = (case f m of (Ret a, m') \<Rightarrow> (Going a, m') | (_, m') \<Rightarrow> (Terminated, m'))"

text \<open>
  \<^verbatim>\<open>worker.Run\<close> from the only thread there is: the queue is empty whenever a stage is handed over,
  so it is refused exactly when the configured depth is zero.
\<close>

definition on_worker :: "Options \<Rightarrow> ('w machine \<Rightarrow> (exn, 'a) flow \<times> 'w machine) \<Rightarrow> 'w machine \<Rightarrow> (exn, 'a) flow \<times> 'w machine" where
  "on_worker o1 f m = (if opt_queue_depth o1 = 0 then (Throw QueueFullError, m) else f m)"

lemma on_worker_Enqueue:
  "on_worker o1 f m =
     (case Enqueue t (new_EngineWorker (unat (opt_queue_depth o1)) s) of Inl e \<Rightarrow> (Throw e, m) | Inr _ \<Rightarrow> f m)"
  by (simp add: Enqueue_def new_EngineWorker_def on_worker_def unat_eq_0)

text \<open>
  What is in the journal's file; an absent file is a journal without rows. The \<^verbatim>\<open>Journal\<close> object is
  a handle on that file, so a stage that uses it works on the machine's journal.
\<close>

definition disk_journal :: "'w machine \<Rightarrow> Journal" where
  "disk_journal m = (case m_journal m of Some j \<Rightarrow> j | None \<Rightarrow> empty_journal)"

section \<open>Startup\<close>

definition block_signals :: "(unit, 'w) run" where
  "block_signals m = (Going (), m\<lparr>m_blocked := [SIGTERM, SIGINT] @ m_blocked m\<rparr>)"

definition snapshot_stage :: "'w run_env \<Rightarrow> Options \<Rightarrow> (unit, 'w) run" where
  "snapshot_stage re o1 =
     (if backup_dir o1 = [] then (\<lambda>m. (Going (), m))
      else
        proceed
          (try_stage re ''backup_failed'' (\<lambda>m.
             case SnapshotBeforeOpen (re_fs re) (book_path o1) (journal_path o1) (backup_dir o1) (backup_keep_days o1) (m_fs m) of
               (Inr taken, fs) \<Rightarrow> (Ret taken, m\<lparr>m_fs := fs\<rparr>)
             | (Inl e, fs) \<Rightarrow> (Throw e, m\<lparr>m_fs := fs\<rparr>)))
          (\<lambda>taken. run_log re taken (''daichod: snapshotted book and journal to '' @ backup_dir o1)))"

definition new_session :: "Options \<Rightarrow> Session" where
  "new_session o1 = new_Session \<lparr>book_uri = opt_book_uri o1, read_only = opt_read_only o1\<rparr>"

definition journal_stage :: "'w run_env \<Rightarrow> Options \<Rightarrow> (unit, 'w) run" where
  "journal_stage re o1 =
     try_stage re ''journal_open_failed'' (on_worker o1 (\<lambda>m.
       or_throw (Journal_Open (re_open re) (journal_path o1) (m_journal m)) m (\<lambda>j. (Ret (), m\<lparr>m_journal := Some j\<rparr>))))"

definition book_stage :: "'w run_env \<Rightarrow> Options \<Rightarrow> (Session, 'w) run" where
  "book_stage re o1 =
     try_stage re ''book_open_failed'' (on_worker o1 (\<lambda>m.
       case Session_Open (re_api re) (re_lock re) (new_session o1, GlobalInit (re_global re) (m_world m)) of
         (fl, (s, w)) \<Rightarrow> (flow_map (\<lambda>_. s) fl, m\<lparr>m_world := w\<rparr>)))"

definition check_stage :: "'w run_env \<Rightarrow> Options \<Rightarrow> Session \<Rightarrow> (unit, 'w) run" where
  "check_stage re o1 s =
     try_stage re ''startup_check_failed'' (on_worker o1 (\<lambda>m.
       or_throw (RunStartupChecks (re_eng re) (re_api re) (s, m_world m)) m (\<lambda>u. (Ret u, m))))"

definition reconcile_stage :: "'w run_env \<Rightarrow> Options \<Rightarrow> Session \<Rightarrow> (unit, 'w) run" where
  "reconcile_stage re o1 s =
     proceed
       (try_stage re ''reconciliation_failed'' (on_worker o1 (\<lambda>m.
          or_throw (Session_book (re_api re) (s, m_world m)) m (\<lambda>book.
            case ReconcilePendingMutations (re_mut re) (re_order re) (re_pbs re) (re_eng re) (re_now re) book (m_world m) (disk_journal m) of
              (fl, j') \<Rightarrow> (fl, m\<lparr>m_journal := Some j'\<rparr>)))))
       (\<lambda>reconciled. run_log re (reconciled > 0)
          (''daichod: '' @ nat_to_string reconciled @ '' pending mutation(s) reconciled as applied''))"

definition indeterminate_stage :: "'w run_env \<Rightarrow> Options \<Rightarrow> (nat, 'w) run" where
  "indeterminate_stage re o1 =
     proceed
       (bare_stage (on_worker o1 (\<lambda>m.
          or_throw (ListIndeterminate (env_sqlite (re_mut re)) (re_order re) (disk_journal m)) m (\<lambda>es. (Ret (length es), m)))))
       (\<lambda>indeterminate_count.
          proceed (run_log re (indeterminate_count > 0)
                     (''daichod: '' @ nat_to_string indeterminate_count @ '' indeterminate mutation(s) await resolution''))
            (\<lambda>_ m. (Going indeterminate_count, m)))"

text \<open>\<^verbatim>\<open>BuildAndStart\<close> on \<^verbatim>\<open>unix:<path>\<close> creates the socket file.\<close>

definition listen_stage :: "'w run_env \<Rightarrow> Options \<Rightarrow> (unit, 'w) run" where
  "listen_stage re o1 =
     (if os_listen (re_os re) (socket_path o1)
      then proceed (on_os (\<lambda>s. (Going (), s\<lparr>socket_files := socket_path o1 # socket_files s\<rparr>)))
             (\<lambda>_. run_log re True (''daichod '' @ re_version re @ '' serving '' @ opt_book_uri o1 @ '' on '' @ socket_path o1))
      else run_fail re ''listen_failed'' (socket_path o1))"

text \<open>Up to \<^verbatim>\<open>server->Wait()\<close>: the session and the number of indeterminate mutations.\<close>

definition Run_startup :: "'w run_env \<Rightarrow> Options \<Rightarrow> (Session \<times> nat, 'w) run" where
  "Run_startup re o1 =
     proceed block_signals (\<lambda>_.
     proceed (on_os (AcquireLocks (re_os re) (env_sha256 (re_mut re)) (re_pid re) o1)) (\<lambda>_.
     proceed (snapshot_stage re o1) (\<lambda>_.
     proceed (journal_stage re o1) (\<lambda>_.
     proceed (book_stage re o1) (\<lambda>s.
     proceed (check_stage re o1 s) (\<lambda>_.
     proceed (reconcile_stage re o1 s) (\<lambda>_.
     proceed (indeterminate_stage re o1) (\<lambda>n.
     proceed (listen_stage re o1) (\<lambda>_ m. (Going (s, n), m))))))))))"

section \<open>Shutdown\<close>

text \<open>
  When \<^verbatim>\<open>Wait\<close> has returned the handlers have finished, so the close finds the queue empty, and
  draining runs nothing more.
\<close>

definition close_stage :: "'w run_env \<Rightarrow> Session \<Rightarrow> (int \<times> Session, 'w) run" where
  "close_stage re s m =
     (case Session_Close (re_api re) (re_fail_at re) (s, m_world m) of
        (Throw e, (s', w)) \<Rightarrow>
          proceed (run_log re True (json_error ''close_failed'' (what e))) (\<lambda>_ m'. (Going (1, s'), m')) (m\<lparr>m_world := w\<rparr>)
      | (_, (s', w)) \<Rightarrow> (Going (0, s'), m\<lparr>m_world := w\<rparr>))"

text \<open>A signal a process sends itself is kept pending when it is blocked, and otherwise ends it.\<close>

definition kill_self :: "signal \<Rightarrow> (unit, 'w) run" where
  "kill_self sig m =
     (if sig \<in> set (m_blocked m) then (Going (), m\<lparr>m_pending := sig # m_pending m\<rparr>) else (Terminated, m))"

text \<open>
  Joining the thread that waits in \<^verbatim>\<open>sigwait\<close>: it has returned already when the signal it waits
  for has come, and otherwise takes a pending one.
\<close>

definition join_signal_thread :: "bool \<Rightarrow> (unit, 'w) run" where
  "join_signal_thread received m =
     (if received then (Going (), m)
      else (case filter (\<lambda>sig. sig \<in> {SIGTERM, SIGINT}) (m_pending m) of
              [] \<Rightarrow> (Hung, m)
            | sig # _ \<Rightarrow> (Going (), m\<lparr>m_pending := remove1 sig (m_pending m)\<rparr>)))"

definition Run_shutdown :: "'w run_env \<Rightarrow> Options \<Rightarrow> bool \<Rightarrow> Session \<Rightarrow> (int, 'w) run" where
  "Run_shutdown re o1 received s =
     proceed (close_stage re s) (\<lambda>(exit_code, _).
     proceed (on_os (\<lambda>os. (Going (), unlink_socket (socket_path o1) os))) (\<lambda>_.
     proceed (kill_self SIGTERM) (\<lambda>_.
     proceed (join_signal_thread received) (\<lambda>_ m. (Going exit_code, m)))))"

text \<open>
  \<open>serve\<close> says how the serving period ends: whether it was a signal that ended it, and what the
  handlers made of the session and of the machine.
\<close>

definition Run ::
  "'w run_env \<Rightarrow> (Session \<Rightarrow> 'w machine \<Rightarrow> bool \<times> Session \<times> 'w machine) \<Rightarrow> Options \<Rightarrow> (int, 'w) run" where
  "Run re serve o1 =
     proceed (Run_startup re o1) (\<lambda>(s, _) m.
       case serve s m of (received, s', m') \<Rightarrow> Run_shutdown re o1 received s' m')"

definition daemon_main ::
  "'w run_env \<Rightarrow> (Session \<Rightarrow> 'w machine \<Rightarrow> bool \<times> Session \<times> 'w machine) \<Rightarrow> string \<Rightarrow> string list \<Rightarrow> (int, 'w) run" where
  "daemon_main re serve gnucash_version args =
     (case ParseOptions (DAICHOD_VERSION_line (re_version re) gnucash_version) args of
        Going o1 \<Rightarrow> Run re serve o1
      | Failed r d \<Rightarrow> run_fail re r d
      | Exited out c \<Rightarrow> (\<lambda>m. (Exited out c, m))
      | Terminated \<Rightarrow> (\<lambda>m. (Terminated, m))
      | Hung \<Rightarrow> (\<lambda>m. (Hung, m)))"

section \<open>Lemmas\<close>

lemma proceed_Going [simp]:
  "proceed f k m = (Going b, m') \<longleftrightarrow> (\<exists>a m1. f m = (Going a, m1) \<and> k a m1 = (Going b, m'))"
  by (auto simp: proceed_def split: prod.splits process_end.splits)

lemma on_os_Going [simp]: "on_os f m = (Going a, m') \<longleftrightarrow> (\<exists>s. f (m_os m) = (Going a, s) \<and> m' = m\<lparr>m_os := s\<rparr>)"
  by (auto simp: on_os_def split: prod.splits)

lemma run_ends [simp]:
  "run_fail re r d m \<noteq> (Going a, m')"
  "run_log re b l m = (Going (), m\<lparr>m_os := (if b then log_line (re_pid re) l (m_os m) else m_os m)\<rparr>)"
  by (simp_all add: run_fail_def Fail_def on_os_def run_log_def)

lemma try_stage_Going [simp]: "try_stage re r f m = (Going a, m') \<longleftrightarrow> f m = (Ret a, m')"
  by (auto simp: try_stage_def split: prod.splits flow.splits)

lemma bare_stage_Going [simp]: "bare_stage f m = (Going a, m') \<longleftrightarrow> f m = (Ret a, m')"
  by (auto simp: bare_stage_def split: prod.splits flow.splits)

lemma on_worker_Ret [simp]: "on_worker o1 f m = (Ret a, m') \<longleftrightarrow> opt_queue_depth o1 \<noteq> 0 \<and> f m = (Ret a, m')"
  by (simp add: on_worker_def)

lemma or_throw_Ret [simp]: "or_throw r s k = (Ret b, s') \<longleftrightarrow> (\<exists>a. r = Inr a \<and> k a = (Ret b, s'))"
  by (cases r) simp_all

lemma snapshot_stage_Going:
  "snapshot_stage re o1 m = (Going u, m') \<Longrightarrow> m_journal m' = m_journal m \<and> m_world m' = m_world m \<and>
     m_blocked m' = m_blocked m \<and> flocks (m_os m') = flocks (m_os m)"
  by (auto simp: snapshot_stage_def split: if_splits prod.splits sum.splits)

lemma run_log_flocks [simp]: "flocks (if b then log_line pid l s else s) = flocks s"
  by simp

lemma journal_stage_Going:
  "journal_stage re o1 m = (Going u, m') \<Longrightarrow> m' = m\<lparr>m_journal := Some (disk_journal m)\<rparr>"
  by (auto simp: journal_stage_def Journal_Open_def disk_journal_def split: option.splits sum.splits)

lemma book_stage_Going:
  assumes "book_stage re o1 m = (Going s, m')"
  shows "\<exists>w. Session_Open (re_api re) (re_lock re) (new_session o1, GlobalInit (re_global re) (m_world m)) = (Ret (), (s, w)) \<and>
     m' = m\<lparr>m_world := w\<rparr>"
proof -
  obtain fl s1 w where "Session_Open (re_api re) (re_lock re) (new_session o1, GlobalInit (re_global re) (m_world m)) = (fl, (s1, w))"
    by (metis prod_cases3)
  with assms show ?thesis by (auto simp: book_stage_def)
qed

lemma check_stage_Going:
  "check_stage re o1 s m = (Going u, m') \<Longrightarrow>
     RunStartupChecks (re_eng re) (re_api re) (s, m_world m) = Inr () \<and> m' = m"
  by (auto simp: check_stage_def)

lemma reconcile_stage_Going:
  assumes "reconcile_stage re o1 s m = (Going u, m')"
  shows "\<exists>book c j'. Session_book (re_api re) (s, m_world m) = Inr book \<and>
     ReconcilePendingMutations (re_mut re) (re_order re) (re_pbs re) (re_eng re) (re_now re) book (m_world m) (disk_journal m) = (Ret c, j') \<and>
     m_world m' = m_world m \<and> m_journal m' = Some j' \<and> m_blocked m' = m_blocked m \<and> flocks (m_os m') = flocks (m_os m)"
proof -
  from assms obtain book where book: "Session_book (re_api re) (s, m_world m) = Inr book"
    by (auto simp: reconcile_stage_def)
  obtain fl j1 where
    "ReconcilePendingMutations (re_mut re) (re_order re) (re_pbs re) (re_eng re) (re_now re) book (m_world m) (disk_journal m) = (fl, j1)"
    by fastforce
  with assms book show ?thesis by (auto simp: reconcile_stage_def)
qed

lemma indeterminate_stage_Going:
  assumes "indeterminate_stage re o1 m = (Going n, m')"
  shows "\<exists>es. ListIndeterminate (env_sqlite (re_mut re)) (re_order re) (disk_journal m) = Inr es \<and> n = length es \<and>
     m_world m' = m_world m \<and> m_journal m' = m_journal m \<and> m_blocked m' = m_blocked m \<and> flocks (m_os m') = flocks (m_os m)"
  using assms by (auto simp: indeterminate_stage_def)

lemma listen_stage_Going:
  "listen_stage re o1 m = (Going u, m') \<Longrightarrow> os_listen (re_os re) (socket_path o1) \<and>
     m_world m' = m_world m \<and> m_journal m' = m_journal m \<and> m_blocked m' = m_blocked m \<and> flocks (m_os m') = flocks (m_os m)"
  by (auto simp: listen_stage_def split: if_splits)

lemma disk_journal_Some [simp]: "m_journal m = Some j \<Longrightarrow> disk_journal m = j"
  by (simp add: disk_journal_def)

lemma Run_startupE:
  assumes "Run_startup re o1 m = (Going (s, n), m')"
  obtains w0 book c j' es os1 where
    "Session_Open (re_api re) (re_lock re) (new_session o1, GlobalInit (re_global re) (m_world m)) = (Ret (), (s, m_world m'))"
    and "RunStartupChecks (re_eng re) (re_api re) (s, m_world m') = Inr ()" and "Session_book (re_api re) (s, m_world m') = Inr book"
    and "ReconcilePendingMutations (re_mut re) (re_order re) (re_pbs re) (re_eng re) (re_now re) book (m_world m') (disk_journal m) = (Ret c, j')"
    and "ListIndeterminate (env_sqlite (re_mut re)) (re_order re) j' = Inr es" and "n = length es"
    and "m_journal m' = Some j'" and "m_blocked m' = [SIGTERM, SIGINT] @ m_blocked m"
    and "AcquireLocks (re_os re) (env_sha256 (re_mut re)) (re_pid re) o1 (m_os m) = (Going (), os1)"
    and "flocks (m_os m') = flocks os1"
proof -
  let ?m0 = "m\<lparr>m_blocked := [SIGTERM, SIGINT] @ m_blocked m\<rparr>"
  from assms obtain os1 m2 m3 m4 m5 m6 m7 where
    locks: "AcquireLocks (re_os re) (env_sha256 (re_mut re)) (re_pid re) o1 (m_os m) = (Going (), os1)"
    and snap: "snapshot_stage re o1 (?m0\<lparr>m_os := os1\<rparr>) = (Going (), m2)"
    and jour: "journal_stage re o1 m2 = (Going (), m3)"
    and book: "book_stage re o1 m3 = (Going s, m4)"
    and chk: "check_stage re o1 s m4 = (Going (), m5)"
    and rec: "reconcile_stage re o1 s m5 = (Going (), m6)"
    and ind: "indeterminate_stage re o1 m6 = (Going n, m7)"
    and lis: "listen_stage re o1 m7 = (Going (), m')"
    unfolding Run_startup_def by (auto simp: block_signals_def)
  note snap = snapshot_stage_Going [OF snap] and jour = journal_stage_Going [OF jour]
    and chk = check_stage_Going [OF chk] and lis = listen_stage_Going [OF lis]
  from book_stage_Going [OF book] obtain w where
    w: "Session_Open (re_api re) (re_lock re) (new_session o1, GlobalInit (re_global re) (m_world m3)) = (Ret (), (s, w))"
      "m4 = m3\<lparr>m_world := w\<rparr>" by blast
  have d: "disk_journal m5 = disk_journal m" using snap jour w(2) chk by (simp add: disk_journal_def)
  from reconcile_stage_Going [OF rec] obtain bk c j' where
    r: "Session_book (re_api re) (s, m_world m5) = Inr bk"
      "ReconcilePendingMutations (re_mut re) (re_order re) (re_pbs re) (re_eng re) (re_now re) bk (m_world m5) (disk_journal m) = (Ret c, j')"
      "m_world m6 = m_world m5" "m_journal m6 = Some j'" "m_blocked m6 = m_blocked m5" "flocks (m_os m6) = flocks (m_os m5)"
    unfolding d by blast
  from indeterminate_stage_Going [OF ind] r(4) obtain es where
    e: "ListIndeterminate (env_sqlite (re_mut re)) (re_order re) j' = Inr es" "n = length es"
      "m_world m7 = m_world m6" "m_journal m7 = m_journal m6" "m_blocked m7 = m_blocked m6" "flocks (m_os m7) = flocks (m_os m6)"
    by auto
  show thesis
    by (rule that [of bk c j' es os1]) (use locks snap jour chk lis w r e in simp_all)
qed

text \<open>
  How a stage of startup may end: it goes on, or \<open>Fail\<close> wrote its JSON line with one of the
  documented reasons, or it was terminated by an exception nobody catches, which then leaves a
  machine with \<open>dies\<close>.
\<close>

definition startup_reasons :: "string list" where
  "startup_reasons = [''lock_open_failed'', ''pidfile_open_failed'', ''already_running'', ''book_already_open'', ''backup_failed'',
     ''journal_open_failed'', ''book_open_failed'', ''startup_check_failed'', ''reconciliation_failed'', ''listen_failed'']"

definition ends_reported :: "'w run_env \<Rightarrow> ('w machine \<Rightarrow> bool) \<Rightarrow> ('a, 'w) run \<Rightarrow> bool" where
  "ends_reported re dies f \<longleftrightarrow>
     (\<forall>m e m'. f m = (e, m') \<longrightarrow>
        (case e of
           Going _ \<Rightarrow> True
         | Failed r d \<Rightarrow> r \<in> set startup_reasons \<and> (\<exists>lines. stderr_of (m_os m') (re_pid re) = lines @ [json_error r d])
         | Terminated \<Rightarrow> dies m'
         | _ \<Rightarrow> False))"

named_theorems reporting \<open>stages that report their failures\<close>

lemma proceed_reports [reporting]:
  "ends_reported re dies f \<Longrightarrow> (\<And>a. ends_reported re dies (k a)) \<Longrightarrow> ends_reported re dies (proceed f k)"
  unfolding ends_reported_def proceed_def by (fastforce split: prod.splits process_end.splits)

lemma proceed_stuck_reports:
  "ends_reported re dies f \<Longrightarrow> (\<And>m a m'. f m \<noteq> (Going a, m')) \<Longrightarrow> ends_reported re dies (proceed f k)"
  unfolding ends_reported_def proceed_def by (fastforce split: prod.splits process_end.splits)

lemma run_fail_reports [reporting]: "r \<in> set startup_reasons \<Longrightarrow> ends_reported re dies (run_fail re r d)"
  by (auto simp: ends_reported_def run_fail_def on_os_def Fail_def log_line_def)

lemma try_stage_reports [reporting]:
  "r \<in> set startup_reasons \<Longrightarrow> (\<And>m. fst (f m) \<noteq> Abort) \<Longrightarrow> ends_reported re dies (try_stage re r f)"
  by (auto simp: ends_reported_def try_stage_def run_fail_def on_os_def Fail_def log_line_def split: prod.splits flow.splits)
     (metis fst_conv)

lemma silent_stages_report [reporting]:
  "ends_reported re dies (\<lambda>m. (Going (a m), b m))" "ends_reported re dies (run_log re c l)"
  "ends_reported re dies (on_os (\<lambda>s. (Going (), g s)))"
  by (auto simp: ends_reported_def on_os_def run_log_def split: prod.splits flow.splits)

lemma AcquireOneLock_reports:
  "AcquireOneLock os pid l p r s = (Failed r' d, s') \<Longrightarrow>
     (\<exists>lines. stderr_of s' pid = lines @ [json_error r' d]) \<and> socket_files s' = socket_files s \<and>
     r' \<in> {''lock_open_failed'', ''pidfile_open_failed'', r}"
  by (auto simp: AcquireOneLock_def Fail_def log_line_def Let_def split: if_splits)

lemma AcquireLocks_reports:
  assumes "AcquireLocks os sha256 pid o1 s = (Failed r d, s')"
  shows "(\<exists>lines. stderr_of s' pid = lines @ [json_error r d]) \<and> socket_files s' = socket_files s \<and> r \<in> set startup_reasons"
proof (cases "acquire_socket_lock os pid o1 s = (Failed r d, s')")
  case True
  from AcquireOneLock_reports [OF this [unfolded acquire_socket_lock_def]] show ?thesis by (auto simp: startup_reasons_def)
next
  case False
  with assms obtain s1 where 1: "acquire_socket_lock os pid o1 s = (Going (), s1)"
    and 2: "acquire_book_lock os sha256 pid o1 s1 = (Failed r d, s')"
    by (auto simp: AcquireLocks_def split: prod.splits process_end.splits)
  have "socket_files s1 = socket_files s"
    using 1 by (auto simp: acquire_socket_lock_def AcquireOneLock_def Fail_def Let_def split: if_splits)
  with AcquireOneLock_reports [OF 2 [unfolded acquire_book_lock_def Let_def]] show ?thesis by (auto simp: startup_reasons_def)
qed

lemma AcquireOneLock_ends: "AcquireOneLock os pid l p r s = (e, s') \<Longrightarrow> e = Going () \<or> (\<exists>r d. e = Failed r d)"
  by (auto simp: AcquireOneLock_def Fail_def Let_def split: if_splits)

lemma AcquireLocks_ends:
  assumes "AcquireLocks os sha256 pid o1 s = (e, s')" shows "e = Going () \<or> (\<exists>r d. e = Failed r d)"
proof -
  obtain e1 s1 where 1: "acquire_socket_lock os pid o1 s = (e1, s1)" by fastforce
  obtain e2 s2 where 2: "acquire_book_lock os sha256 pid o1 s1 = (e2, s2)" by fastforce
  from AcquireOneLock_ends [OF 1 [unfolded acquire_socket_lock_def]] AcquireOneLock_ends [OF 2 [unfolded acquire_book_lock_def Let_def]]
    assms 1 2 show ?thesis by (auto simp: AcquireLocks_def)
qed

lemma locks_report [reporting]: "ends_reported re dies (on_os (AcquireLocks os sha256 (re_pid re) o1))"
proof -
  have "case e of Going _ \<Rightarrow> True
      | Failed r d \<Rightarrow> r \<in> set startup_reasons \<and> (\<exists>lines. stderr_of s' (re_pid re) = lines @ [json_error r d])
      | _ \<Rightarrow> False" if "AcquireLocks os sha256 (re_pid re) o1 s = (e, s')" for s e s'
    using AcquireLocks_ends [OF that] AcquireLocks_reports that by fastforce
  then show ?thesis by (fastforce simp: ends_reported_def on_os_def split: prod.splits process_end.splits)
qed

lemma on_worker_Abort: "(\<And>m. fst (f m) \<noteq> Abort) \<Longrightarrow> fst (on_worker o1 f m) \<noteq> Abort"
  by (simp add: on_worker_def)

lemma or_throw_Abort: "(\<And>a. fst (k a) \<noteq> Abort) \<Longrightarrow> fst (or_throw r s k) \<noteq> Abort"
  by (cases r) simp_all

lemma reconcile_never_aborts: "fst (ReconcilePendingMutations env order_by pbs eng now book w j) \<noteq> Abort"
proof -
  have "fst (reconcile_loop env v now es n j) \<noteq> Abort" for v es n j
    by (induction env v now es n j rule: reconcile_loop.induct) (auto split: sum.splits)
  then show ?thesis unfolding ReconcilePendingMutations_def by (intro or_throw_Abort)
qed

lemma Session_Open_never_aborts: "fst (Session_Open api ge x) \<noteq> Abort"
  using Session_Open_cases [of api ge "fst x" "snd x"] by (cases "Session_Open api ge x") fastforce

lemma stages_never_abort [simp]:
  "ReconcilePendingMutations env order_by pbs eng now book w j \<noteq> (Abort, j')" "Session_Open api ge x \<noteq> (Abort, x')"
  "flow_map g fl = Abort \<longleftrightarrow> fl = Abort"
  using reconcile_never_aborts [of env order_by pbs eng now book w j] Session_Open_never_aborts [of api ge x]
  by (auto, cases fl) simp_all

lemma reasons [simp]:
  "''backup_failed'' \<in> set startup_reasons" "''journal_open_failed'' \<in> set startup_reasons"
  "''book_open_failed'' \<in> set startup_reasons" "''startup_check_failed'' \<in> set startup_reasons"
  "''reconciliation_failed'' \<in> set startup_reasons" "''listen_failed'' \<in> set startup_reasons"
  by (simp_all add: startup_reasons_def)

lemma stages_report [reporting]:
  "ends_reported re dies block_signals" "ends_reported re dies (snapshot_stage re o1)" "ends_reported re dies (journal_stage re o1)"
  "ends_reported re dies (book_stage re o1)" "ends_reported re dies (check_stage re o1 s)"
  "ends_reported re dies (reconcile_stage re o1 s)" "ends_reported re dies (listen_stage re o1)"
  unfolding block_signals_def snapshot_stage_def journal_stage_def book_stage_def check_stage_def
    reconcile_stage_def listen_stage_def
  by (auto intro!: reporting on_worker_Abort or_throw_Abort split: prod.splits sum.splits)

lemma indeterminate_reports:
  "opt_queue_depth o1 \<noteq> 0 \<Longrightarrow> ends_reported re
     (\<lambda>m. \<exists>err. ListIndeterminate (env_sqlite (re_mut re)) (re_order re) (disk_journal m) = Inl err) (indeterminate_stage re o1)"
  unfolding indeterminate_stage_def
  by (intro reporting) (auto simp: ends_reported_def bare_stage_def on_worker_def or_throw_def split: prod.splits flow.splits sum.splits)

lemma Run_startup_reports:
  "ends_reported re (\<lambda>m. \<exists>err. ListIndeterminate (env_sqlite (re_mut re)) (re_order re) (disk_journal m) = Inl err) (Run_startup re o1)"
proof (cases "opt_queue_depth o1 = 0")
  case True
  then have "journal_stage re o1 m \<noteq> (Going a, m')" for m a m' by (simp add: journal_stage_def)
  then show ?thesis unfolding Run_startup_def by (intro reporting proceed_stuck_reports [where f = "journal_stage re o1"]) auto
next
  case False
  show ?thesis unfolding Run_startup_def by (auto intro!: reporting indeterminate_reports [OF False])
qed

lemma Session_Close_ends:
  obtains fl s' w' where "Session_Close api fail_at (s, w) = (fl, (s', w'))" and "session_ptr s' = None" and "fl \<noteq> Abort"
proof (cases "session_ptr s")
  case None
  then show thesis by (intro that [of "Ret ()" s w]) (simp_all add: Session_Close_def)
next
  case (Some q)
  obtain fl s' w' where c: "Session_Close api fail_at (s, w) = (fl, (s', w'))" by (metis prod_cases3)
  from Session_Close_some [OF Some c] c show thesis by (intro that [of fl s' w']) (auto simp: new_Session_def)
qed

lemma Run_shutdown_ends:
  assumes "SIGTERM \<in> set (m_blocked m)"
  obtains code m' fl s' w' where "Run_shutdown re o1 received s m = (Going code, m')"
    and "Session_Close (re_api re) (re_fail_at re) (s, m_world m) = (fl, (s', w'))" and "session_ptr s' = None"
    and "code = (if fl = Ret () then 0 else 1)" and "socket_path o1 \<notin> set (socket_files (m_os m'))" and "m_world m' = w'"
proof -
  obtain fl s' w' where c: "Session_Close (re_api re) (re_fail_at re) (s, m_world m) = (fl, (s', w'))"
    "session_ptr s' = None" "fl \<noteq> Abort" by (rule Session_Close_ends)
  obtain m1 where m1: "close_stage re s m = (Going (if fl = Ret () then 0 else 1, s'), m1)" "m_blocked m1 = m_blocked m" "m_world m1 = w'"
    using c(1,3) by (cases fl) (auto simp: close_stage_def proceed_def)
  let ?m2 = "m1\<lparr>m_os := unlink_socket (socket_path o1) (m_os m1), m_pending := SIGTERM # m_pending m1\<rparr>"
  have "\<exists>m3. join_signal_thread received ?m2 = (Going (), m3) \<and> m_os m3 = m_os ?m2 \<and> m_world m3 = w'"
    using m1(3) by (auto simp: join_signal_thread_def)
  then obtain m3 where m3: "join_signal_thread received ?m2 = (Going (), m3)" "m_os m3 = m_os ?m2" "m_world m3 = w'" by blast
  have "Run_shutdown re o1 received s m = (Going (if fl = Ret () then 0 else 1), m3)"
    using m1(1,2) m3(1) assms by (simp add: Run_shutdown_def proceed_def on_os_def kill_self_def)
  with c(1,2) m3(2,3) show thesis by (intro that) (auto simp: unlink_socket_def)
qed

text \<open>A machine with nothing against the daemon: its locks, its files, SQLite and its socket.\<close>

definition machine_ready :: "'w run_env \<Rightarrow> Options \<Rightarrow> 'w machine \<Rightarrow> bool" where
  "machine_ready re o1 m \<longleftrightarrow>
     flocks (m_os m) (socket_lock_path o1) = None \<and> flocks (m_os m) (book_lock_path (env_sha256 (re_mut re)) o1) = None \<and>
     (\<forall>p. os_open_lock (re_os re) p) \<and> (\<forall>p. os_open_pid (re_os re) p) \<and> os_listen (re_os re) (socket_path o1) \<and>
     open_errmsg (re_open re) = None \<and> (\<forall>sql. exec_errmsg (re_open re) sql = None) \<and>
     no_faults (env_sqlite (re_mut re)) \<and> sql_order_by (re_order re)"

lemma AcquireLocks_ready:
  assumes "flocks os (socket_lock_path o1) = None" and "flocks os (book_lock_path sha256 o1) = None"
    and "socket_lock_path o1 \<noteq> book_lock_path sha256 o1" and "\<forall>p. os_open_lock env p" and "\<forall>p. os_open_pid env p"
  obtains os1 where "AcquireLocks env sha256 pid o1 os = (Going (), os1)"
proof -
  have lock: "\<exists>s1. AcquireOneLock env pid path pid_path reason s = (Going (), s1) \<and> flocks s1 = (flocks s)(path \<mapsto> pid)"
    if "flocks s path = None" for path pid_path reason s
    using that assms(4,5) by (simp add: AcquireOneLock_def)
  from lock [OF assms(1)] obtain s1 where s1: "acquire_socket_lock env pid o1 os = (Going (), s1)"
      "flocks s1 = (flocks os)(socket_lock_path o1 \<mapsto> pid)" unfolding acquire_socket_lock_def by blast
  with assms(2,3) have "flocks s1 (book_lock_path sha256 o1) = None" by simp
  from lock [OF this] obtain s2 where "acquire_book_lock env sha256 pid o1 s1 = (Going (), s2)"
    unfolding acquire_book_lock_def Let_def by blast
  with s1(1) that show thesis by (simp add: AcquireLocks_def)
qed

lemma Journal_Open_ready:
  assumes "open_errmsg so = None" and "\<forall>sql. exec_errmsg so sql = None"
  shows "Journal_Open so path disk = Inr (case disk of Some j \<Rightarrow> j | None \<Rightarrow> empty_journal)"
  using assms by (simp add: Journal_Open_def journal_ddl_def Exec_def)

lemma reconciled_journal:
  assumes "journal_inv pb j" and "no_faults (env_sqlite env)" and "sql_order_by order_by"
  obtains c j' es where "ReconcilePendingMutations env order_by pbs eng now book w j = (Ret c, j')"
    and "ListIndeterminate (env_sqlite env) order_by j' = Inr es"
proof -
  have ok: "journal_ok j" using assms(1) by (simp add: journal_inv_def)
  from reconcile_effect [OF ok assms(2,3) journal_inv_no_nul [OF assms(1)], of pbs eng now book w] obtain c j' where
    j': "ReconcilePendingMutations env order_by pbs eng now book w j = (Ret c, j')" "journal_ok j'" "intent_of j' = intent_of j"
    by blast
  with ListIndeterminate_lists [OF j'(2) assms(2,3)] journal_inv_no_nul [OF assms(1)] that show thesis by auto
qed

lemma snapshot_stage_ready:
  assumes "backup_dir o1 = [] \<or> (\<exists>taken fs. SnapshotBeforeOpen (re_fs re) (book_path o1) (journal_path o1) (backup_dir o1)
             (backup_keep_days o1) (m_fs m) = (Inr taken, fs))"
  obtains m' where "snapshot_stage re o1 m = (Going (), m')"
  using assms that by (cases "backup_dir o1 = []") (auto simp: snapshot_stage_def)

lemma Run_startup_ready:
  assumes ready: "machine_ready re o1 m" and "socket_lock_path o1 \<noteq> book_lock_path (env_sha256 (re_mut re)) o1"
    and "opt_queue_depth o1 \<noteq> 0"
    and backup: "backup_dir o1 = [] \<or> (\<exists>taken fs. SnapshotBeforeOpen (re_fs re) (book_path o1) (journal_path o1) (backup_dir o1)
             (backup_keep_days o1) (m_fs m) = (Inr taken, fs))"
    and inv: "journal_inv pb (disk_journal m)"
    and open_ok: "Session_Open (re_api re) (re_lock re) (new_session o1, GlobalInit (re_global re) (m_world m)) = (Ret (), (s, w))"
    and chk: "RunStartupChecks (re_eng re) (re_api re) (s, w) = Inr ()"
  obtains n m' where "Run_startup re o1 m = (Going (s, n), m')" and "m_world m' = w"
proof -
  let ?m0 = "m\<lparr>m_blocked := [SIGTERM, SIGINT] @ m_blocked m\<rparr>"
  note r = ready [unfolded machine_ready_def]
  from AcquireLocks_ready [of "m_os m"] r assms(2) obtain os1 where
    locks: "AcquireLocks (re_os re) (env_sha256 (re_mut re)) (re_pid re) o1 (m_os m) = (Going (), os1)" by metis
  obtain m2 where snap: "snapshot_stage re o1 (?m0\<lparr>m_os := os1\<rparr>) = (Going (), m2)"
    using snapshot_stage_ready [of o1 re "?m0\<lparr>m_os := os1\<rparr>"] backup by auto
  note m2 = snapshot_stage_Going [OF snap]
  let ?m3 = "m2\<lparr>m_journal := Some (disk_journal m)\<rparr>"
  have jour: "journal_stage re o1 m2 = (Going (), ?m3)"
    using r m2 assms(3) by (simp add: journal_stage_def Journal_Open_ready disk_journal_def)
  let ?m4 = "?m3\<lparr>m_world := w\<rparr>"
  have book: "book_stage re o1 ?m3 = (Going s, ?m4)" using open_ok m2 assms(3) by (simp add: book_stage_def)
  have check: "check_stage re o1 s ?m4 = (Going (), ?m4)" using chk assms(3) by (simp add: check_stage_def)
  from chk obtain bk where bk: "Session_book (re_api re) (s, w) = Inr bk"
    by (cases "Session_book (re_api re) (s, w)") (auto simp: RunStartupChecks_def)
  from reconciled_journal [OF inv, of "re_mut re" "re_order re"] r obtain c j' es where
    j': "ReconcilePendingMutations (re_mut re) (re_order re) (re_pbs re) (re_eng re) (re_now re) bk w (disk_journal m) = (Ret c, j')"
      "ListIndeterminate (env_sqlite (re_mut re)) (re_order re) j' = Inr es" by metis
  obtain m6 where rec: "reconcile_stage re o1 s ?m4 = (Going (), m6)" and m6: "m_journal m6 = Some j'" "m_world m6 = w"
    using bk j'(1) assms(3) by (simp add: reconcile_stage_def)
  obtain n m7 where ind: "indeterminate_stage re o1 m6 = (Going n, m7)" and m7: "m_world m7 = w"
    using j'(2) m6 assms(3) by (simp add: indeterminate_stage_def)
  obtain m8 where lis: "listen_stage re o1 m7 = (Going (), m8)" and m8: "m_world m8 = w"
    using r m7 by (simp add: listen_stage_def)
  show thesis
  proof (rule that [OF _ m8])
    show "Run_startup re o1 m = (Going (s, n), m8)"
      unfolding Run_startup_def proceed_Going on_os_Going
      using locks snap jour book check rec ind lis by (simp add: block_signals_def)
  qed
qed

section \<open>Properties\<close>

text \<open>
  C21. The daemon serves only a checked and reconciled book: when startup reaches the serving
  state, it holds both locks, the book passed the startup checks, no mutation is left with a
  pending record and no outcome, every outcome recorded before the restart is still there,
  and the number it reports is that of the journaled mutations without an outcome.
\<close>
theorem serves_only_reconciled:
  assumes "Run_startup re o1 m = (Going (s, n), m')"
    and "journal_inv (env_outcome_pb (re_mut re)) (disk_journal m)" and "no_faults (env_sqlite (re_mut re))" and "sql_order_by (re_order re)"
  shows "flocks (m_os m') (socket_lock_path o1) = Some (re_pid re) \<and>
     flocks (m_os m') (book_lock_path (env_sha256 (re_mut re)) o1) = Some (re_pid re) \<and>
     RunStartupChecks (re_eng re) (re_api re) (s, m_world m') = Inr () \<and>
     (\<forall>mid. pending_entry (disk_journal m') mid = None) \<and>
     (\<forall>mid b. outcome_of (disk_journal m) mid = Some b \<longrightarrow> outcome_of (disk_journal m') mid = Some b) \<and>
     n = card {mid. intent_of (disk_journal m') mid \<noteq> None \<and> outcome_of (disk_journal m') mid = None}"
proof -
  let ?j = "disk_journal m" and ?sq = "env_sqlite (re_mut re)"
  from assms(1) obtain book c j' es os1 where chk: "RunStartupChecks (re_eng re) (re_api re) (s, m_world m') = Inr ()"
    and rec: "ReconcilePendingMutations (re_mut re) (re_order re) (re_pbs re) (re_eng re) (re_now re) book (m_world m') ?j = (Ret c, j')"
    and es: "ListIndeterminate ?sq (re_order re) j' = Inr es" "n = length es"
    and mj: "m_journal m' = Some j'"
    and locks: "AcquireLocks (re_os re) (env_sha256 (re_mut re)) (re_pid re) o1 (m_os m) = (Going (), os1)"
      "flocks (m_os m') = flocks os1"
    by (rule Run_startupE) blast
  have ok: "journal_ok ?j" using assms(2) by (simp add: journal_inv_def)
  from reconcile_effect [OF ok assms(3,4) journal_inv_no_nul [OF assms(2)], of "re_pbs re" "re_eng re" "re_now re" book "m_world m'"] rec
  have ok': "journal_ok j'" and int: "intent_of j' = intent_of ?j"
    and eff: "\<And>mid. case pending_entry ?j mid of
        None \<Rightarrow> pending_of j' mid = pending_of ?j mid \<and> outcome_of j' mid = outcome_of ?j mid
      | Some e \<Rightarrow>
          if WasApplied (re_pbs re) (re_eng re) book (m_world m') e = Some True
          then pending_of j' mid = pending_of ?j mid \<and> outcome_of j' mid = Some (SerializeOutcome (env_outcome_pb (re_mut re))
                 (ok_outcome (pe_rpc_name e) (pe_pending_response e)))
          else pending_of j' mid = None \<and> outcome_of j' mid = None" by auto
  have none: "pending_entry j' mid = None" for mid
    using eff [of mid] int by (auto simp: pending_entry_def split: option.splits if_splits)
  have keep: "outcome_of j' mid = Some b" if "outcome_of ?j mid = Some b" for mid b
    using eff [of mid] that by (auto simp: pending_entry_def split: option.splits)
  have "\<forall>mid. intent_of j' mid \<noteq> None \<longrightarrow> CHR 0x00 \<notin> set mid" using journal_inv_no_nul [OF assms(2)] int by simp
  from ListIndeterminate_lists [OF ok' assms(3,4) this] es
  have "distinct (map ie_mutation_id es)" "ie_mutation_id ` set es = {mid. intent_of j' mid \<noteq> None \<and> outcome_of j' mid = None}"
    by auto
  then have "n = card {mid. intent_of j' mid \<noteq> None \<and> outcome_of j' mid = None}"
    using es(2) by (metis distinct_card length_map set_map)
  with chk none keep mj AcquireLocks_Going [OF locks(1)] locks(2) show ?thesis by simp
qed

text \<open>
  C22. A startup that fails says so, with one exception: it either comes to serve; or the last line
  on standard error is the JSON object with one of the ten reasons of \<^verbatim>\<open>main.cpp\<close> and its detail; or,
  the exception, the journal refuses to list the indeterminate mutations, which no \<^verbatim>\<open>try\<close> encloses,
  and the process is terminated without a line. It never ends in an exit code of its own and
  never hangs, and a daemon that does not get its locks leaves every socket file, that of the
  running daemon included, in place.
\<close>
theorem failed_startup_reported:
  assumes "Run_startup re o1 m = (e, m')"
  shows "((\<exists>a. e = Going a) \<or>
      (\<exists>r d lines. e = Failed r d \<and> r \<in> set startup_reasons \<and> stderr_of (m_os m') (re_pid re) = lines @ [json_error r d]) \<or>
      (e = Terminated \<and> (\<exists>err. ListIndeterminate (env_sqlite (re_mut re)) (re_order re) (disk_journal m') = Inl err))) \<and>
    (\<forall>r d os'. AcquireLocks (re_os re) (env_sha256 (re_mut re)) (re_pid re) o1 (m_os m) = (Failed r d, os') \<longrightarrow>
       e = Failed r d \<and> socket_files (m_os m') = socket_files (m_os m))"
proof -
  have "e = Failed r d \<and> socket_files (m_os m') = socket_files (m_os m)"
    if "AcquireLocks (re_os re) (env_sha256 (re_mut re)) (re_pid re) o1 (m_os m) = (Failed r d, os')" for r d os'
    using assms AcquireLocks_reports [OF that] that
    by (auto simp: Run_startup_def proceed_def block_signals_def on_os_def)
  moreover note Run_startup_reports [of re o1, unfolded ends_reported_def, rule_format, OF assms]
  ultimately show ?thesis by (cases e) auto
qed

text \<open>
  C38. The exit code tells the supervisor the truth, and shutdown always comes to it: once the
  daemon serves, and whether a signal or something else ended the serving, \<^verbatim>\<open>Run\<close> returns (its
  own \<^verbatim>\<open>SIGTERM\<close> never kills it, the signal thread is always joined), with the session closed, the
  socket file gone, and code 0 exactly when closing threw nothing.
\<close>
theorem shutdown_exit_code:
  assumes "Run_startup re o1 m = (Going (s, n), m1)" and "serve s m1 = (received, s2, m2)"
    and "m_blocked m2 = m_blocked m1"
  shows "\<exists>code m3 fl s3. Run re serve o1 m = (Going code, m3) \<and>
     Session_Close (re_api re) (re_fail_at re) (s2, m_world m2) = (fl, (s3, m_world m3)) \<and> session_ptr s3 = None \<and>
     code = (if fl = Ret () then 0 else 1) \<and> socket_path o1 \<notin> set (socket_files (m_os m3))"
proof -
  have "SIGTERM \<in> set (m_blocked m2)" using assms(1,3) by (elim Run_startupE) simp
  from this obtain code m3 fl s3 w3 where "Run_shutdown re o1 received s2 m2 = (Going code, m3)"
    and "Session_Close (re_api re) (re_fail_at re) (s2, m_world m2) = (fl, (s3, w3))" "session_ptr s3 = None"
    and "code = (if fl = Ret () then 0 else 1)" "socket_path o1 \<notin> set (socket_files (m_os m3))" "m_world m3 = w3"
    by (rule Run_shutdown_ends)
  then show ?thesis using assms(1,2) by (auto simp: Run_def proceed_def)
qed

end
