(* ===== verification/Lifetime.thy ===== *)
theory Lifetime
  imports Services Daemon
begin

text \<open>
  The life of a daemon: it is down, starts (\<open>Run_startup\<close>), serves calls one after the other as
  the worker runs them (\<open>handle\<close>), dies in the middle of one or between two, shuts down, is
  started again; while it is down anything may happen to the machine except to the journal.
  The theorems are about all such lives, whatever faults, crash points and clocks occur on the
  way.
\<close>

section \<open>Lives\<close>

datatype 'w daemon = Down "'w machine" | Up Session "'w machine"

definition daemon_journal :: "'w daemon \<Rightarrow> Journal" where
  "daemon_journal d = (case d of Down m \<Rightarrow> disk_journal m | Up s m \<Rightarrow> disk_journal m)"

definition server_state :: "Session \<Rightarrow> 'w machine \<Rightarrow> 'w server_state" where
  "server_state s m = (disk_journal m, (s, m_world m))"

definition after_call :: "'w machine \<Rightarrow> 'w server_state \<Rightarrow> 'w machine" where
  "after_call m st = m\<lparr>m_journal := Some (fst st), m_world := snd (snd st)\<rparr>"

text \<open>
  One step of a life. All builds of the daemon share the format \<open>pb\<close> of recorded outcomes; every
  other part of the environment may be different each time.
\<close>

inductive life_step :: "outcome_pb \<Rightarrow> 'w daemon \<Rightarrow> 'w daemon \<Rightarrow> bool" for pb where
  starts: "env_outcome_pb (re_mut re) = pb \<Longrightarrow> Run_startup re o1 m = (Going (s, n), m') \<Longrightarrow>
     life_step pb (Down m) (Up s m')"
| fails_to_start: "env_outcome_pb (re_mut re) = pb \<Longrightarrow> Run_startup re o1 m = (e, m') \<Longrightarrow> \<forall>x. e \<noteq> Going x \<Longrightarrow>
     life_step pb (Down m) (Down m')"
| serves: "env_outcome_pb (sv_mut env) = pb \<Longrightarrow> handle env cx rpc (server_state s m) = (Ret a, st) \<Longrightarrow>
     life_step pb (Up s m) (Up (fst (snd st)) (after_call m st))"
| dies_in_call: "env_outcome_pb (sv_mut env) = pb \<Longrightarrow> handle env cx rpc (server_state s m) = (Abort, st) \<Longrightarrow>
     life_step pb (Up s m) (Down (after_call m st))"
| killed: "life_step pb (Up s m) (Down m)"
| shuts_down: "Run_shutdown re o1 received s m = (e, m') \<Longrightarrow> life_step pb (Up s m) (Down m')"
| elsewhere: "m_journal m' = m_journal m \<Longrightarrow> life_step pb (Down m) (Down m')"

section \<open>The journal is only ever written as the protocol allows\<close>

lemma reconcile_loop_writes:
  "reconcile_loop env verdict now es n j = (fl, j') \<Longrightarrow> (journal_write (env_outcome_pb env))\<^sup>*\<^sup>* j j'"
proof (induction es arbitrary: n j)
  case (Cons e es)
  show ?case
  proof (cases "verdict e = Some True")
    case True
    show ?thesis
    proof (cases "RecordOutcome (env_sqlite env) (env_outcome_pb env) (pe_mutation_id e)
                   (ok_outcome (pe_rpc_name e) (pe_pending_response e)) (now e) j")
      case (Inr j1)
      have "journal_write (env_outcome_pb env) j j1"
        by (rule journal_write.w_outcome [OF _ Inr]) (simp add: recordable_def ok_outcome_def)
      with Cons.IH [of "n + 1" j1] Cons.prems True Inr show ?thesis by (auto intro: converse_rtranclp_into_rtranclp)
    qed (use Cons.prems True in simp)
  next
    case False
    show ?thesis
    proof (cases "ClearPending (env_sqlite env) (pe_mutation_id e) j")
      case (Inr j1)
      from journal_write.w_clear [OF Inr] Cons.IH [of n j1] Cons.prems False Inr show ?thesis
        by (auto intro: converse_rtranclp_into_rtranclp)
    qed (use Cons.prems False in simp)
  qed
qed simp

lemma reconcile_writes:
  assumes "ReconcilePendingMutations env order_by pbs eng now book w j = (fl, j')"
  shows "(journal_write (env_outcome_pb env))\<^sup>*\<^sup>* j j'"
  using assms reconcile_loop_writes
  by (cases "ListPendingUnresolved (env_sqlite env) order_by j") (auto simp: ReconcilePendingMutations_def)

definition journals :: "outcome_pb \<Rightarrow> ('a, 'w) run \<Rightarrow> bool" where
  "journals pb f \<longleftrightarrow> (\<forall>m. (journal_write pb)\<^sup>*\<^sup>* (disk_journal m) (disk_journal (snd (f m))))"

named_theorems journaling \<open>stages that write the journal only as the protocol allows\<close>

lemma journalsI: "(\<And>m. disk_journal (snd (f m)) = disk_journal m) \<Longrightarrow> journals pb f"
  by (simp add: journals_def)

lemma proceed_journals [journaling]:
  assumes "journals pb f" and "\<And>a. journals pb (k a)"
  shows "journals pb (proceed f k)"
  unfolding journals_def
proof
  fix m
  obtain e m1 where f: "f m = (e, m1)" by fastforce
  with assms(1) have "(journal_write pb)\<^sup>*\<^sup>* (disk_journal m) (disk_journal m1)" unfolding journals_def by (metis snd_conv)
  with f assms(2) show "(journal_write pb)\<^sup>*\<^sup>* (disk_journal m) (disk_journal (snd (proceed f k m)))"
    by (cases e) (auto simp: proceed_def journals_def intro: rtranclp_trans)
qed

lemma machine_frames [simp]:
  "disk_journal (m\<lparr>m_os := os\<rparr>) = disk_journal m" "disk_journal (m\<lparr>m_fs := fs\<rparr>) = disk_journal m"
  "disk_journal (m\<lparr>m_world := w\<rparr>) = disk_journal m" "disk_journal (m\<lparr>m_blocked := sg\<rparr>) = disk_journal m"
  "disk_journal (m\<lparr>m_pending := sg\<rparr>) = disk_journal m" "disk_journal (m\<lparr>m_journal := Some j\<rparr>) = j"
  by (simp_all add: disk_journal_def)

lemma on_os_journal [simp]: "disk_journal (snd (on_os f m)) = disk_journal m"
  by (simp add: on_os_def split: prod.split)

lemma quiet_stages [journaling]:
  "journals pb (on_os g)" "journals pb (run_fail re r d)" "journals pb (run_log re b l)" "journals pb block_signals"
  "journals pb (kill_self sig)" "journals pb (join_signal_thread received)" "journals pb (\<lambda>m. (f m, m))"
  by (rule journalsI, simp add: run_fail_def run_log_def block_signals_def kill_self_def join_signal_thread_def split: list.split)+

lemma try_stage_journals [journaling]:
  assumes "\<And>m. (journal_write pb)\<^sup>*\<^sup>* (disk_journal m) (disk_journal (snd (f m)))"
  shows "journals pb (try_stage re r f)"
  unfolding journals_def
proof
  fix m
  obtain fl m1 where f: "f m = (fl, m1)" by fastforce
  from assms [of m] f show "(journal_write pb)\<^sup>*\<^sup>* (disk_journal m) (disk_journal (snd (try_stage re r f m)))"
    by (cases fl) (simp_all add: try_stage_def run_fail_def)
qed

lemma snapshot_stage_journals [journaling]: "journals pb (snapshot_stage re o1)"
  unfolding snapshot_stage_def by (auto intro!: journaling split: prod.split sum.split)

lemma journal_stage_journals [journaling]: "journals pb (journal_stage re o1)"
  unfolding journal_stage_def
proof (rule try_stage_journals)
  fix m
  show "(journal_write pb)\<^sup>*\<^sup>* (disk_journal m) (disk_journal (snd (on_worker o1 (\<lambda>m.
       or_throw (Journal_Open (re_open re) (journal_path o1) (m_journal m)) m (\<lambda>j. (Ret (), m\<lparr>m_journal := Some j\<rparr>))) m)))"
    by (cases "Journal_Open (re_open re) (journal_path o1) (m_journal m)")
       (auto simp: on_worker_def Journal_Open_def disk_journal_def split: option.splits sum.splits)
qed

lemma book_stage_journals [journaling]: "journals pb (book_stage re o1)"
  unfolding book_stage_def by (rule try_stage_journals) (simp add: on_worker_def split: prod.split)

lemma check_stage_journals [journaling]: "journals pb (check_stage re o1 s)"
  unfolding check_stage_def by (rule try_stage_journals) (simp add: on_worker_def or_throw_def split: sum.split)

lemma reconcile_stage_journals [journaling]:
  assumes "env_outcome_pb (re_mut re) = pb"
  shows "journals pb (reconcile_stage re o1 s)"
  unfolding reconcile_stage_def
proof (rule proceed_journals [OF try_stage_journals])
  fix m
  show "(journal_write pb)\<^sup>*\<^sup>* (disk_journal m) (disk_journal (snd (on_worker o1 (\<lambda>m.
          or_throw (Session_book (re_api re) (s, m_world m)) m (\<lambda>book.
            case ReconcilePendingMutations (re_mut re) (re_order re) (re_pbs re) (re_eng re) (re_now re) book (m_world m) (disk_journal m) of
              (fl, j') \<Rightarrow> (fl, m\<lparr>m_journal := Some j'\<rparr>))) m)))"
    using reconcile_writes [of "re_mut re" "re_order re" "re_pbs re" "re_eng re" "re_now re" _ "m_world m" "disk_journal m"] assms
    by (auto simp: on_worker_def or_throw_def split: sum.split prod.split)
qed (rule quiet_stages)

lemma indeterminate_stage_journals [journaling]: "journals pb (indeterminate_stage re o1)"
proof -
  have "journals pb (bare_stage (on_worker o1 (\<lambda>m.
          or_throw (ListIndeterminate (env_sqlite (re_mut re)) (re_order re) (disk_journal m)) m (\<lambda>es. (Ret (length es), m)))))"
    by (rule journalsI) (auto simp: bare_stage_def on_worker_def or_throw_def split: sum.split)
  then show ?thesis unfolding indeterminate_stage_def by (intro journaling)
qed

lemma listen_stage_journals [journaling]: "journals pb (listen_stage re o1)"
  unfolding listen_stage_def by (auto intro!: journaling)

lemma Run_startup_journals: "env_outcome_pb (re_mut re) = pb \<Longrightarrow> journals pb (Run_startup re o1)"
  unfolding Run_startup_def by (intro journaling)

lemma close_stage_journal [simp]: "disk_journal (snd (close_stage re s m)) = disk_journal m"
proof -
  obtain fl s' w where c: "Session_Close (re_api re) (re_fail_at re) (s, m_world m) = (fl, (s', w))" by (metis prod_cases3)
  show ?thesis unfolding close_stage_def c by (cases fl) (simp_all add: proceed_def)
qed

lemma close_stage_journals [journaling]: "journals pb (close_stage re s)"
  by (rule journalsI) simp

lemma Run_shutdown_journals: "journals pb (Run_shutdown re o1 received s)"
  unfolding Run_shutdown_def by (auto intro!: journaling)

lemma life_step_writes: "life_step pb d d' \<Longrightarrow> (journal_write pb)\<^sup>*\<^sup>* (daemon_journal d) (daemon_journal d')"
proof (induction rule: life_step.induct)
  case (starts re o1 m s n m')
  then show ?case using Run_startup_journals [OF starts(1), of o1] by (simp add: journals_def daemon_journal_def) (metis snd_conv)
next
  case (fails_to_start re o1 m e m')
  then show ?case using Run_startup_journals [OF fails_to_start(1), of o1] by (simp add: journals_def daemon_journal_def) (metis snd_conv)
next
  case (serves env cx rpc s m a st)
  then show ?case using handle_journal_writes [of env "server_state s m" cx rpc]
    by (simp add: daemon_journal_def after_call_def server_state_def)
next
  case (dies_in_call env cx rpc s m st)
  then show ?case using handle_journal_writes [of env "server_state s m" cx rpc]
    by (simp add: daemon_journal_def after_call_def server_state_def)
next
  case (shuts_down re o1 received s m e m')
  then show ?case using Run_shutdown_journals [of pb re o1 received s] by (simp add: journals_def daemon_journal_def) (metis snd_conv)
qed (simp_all add: daemon_journal_def disk_journal_def)

lemma life_writes: "(life_step pb)\<^sup>*\<^sup>* d d' \<Longrightarrow> (journal_write pb)\<^sup>*\<^sup>* (daemon_journal d) (daemon_journal d')"
  by (induction rule: rtranclp_induct) (auto dest: life_step_writes)

section \<open>What a recorded outcome says\<close>

definition responses_roundtrip :: "response_pb \<Rightarrow> bool" where
  "responses_roundtrip rs \<longleftrightarrow> message_pb_roundtrip (rpb_account rs) \<and> message_pb_roundtrip (rpb_reconcile rs) \<and>
     message_pb_roundtrip (rpb_transaction rs) \<and> message_pb_roundtrip (rpb_price rs) \<and> message_pb_roundtrip (rpb_empty rs)"

definition replays_as :: "outcome_pb \<Rightarrow> 'r message_pb \<Rightarrow> ('r \<Rightarrow> response) \<Rightarrow> bytes \<Rightarrow> response \<Rightarrow> bool" where
  "replays_as pb rpb R b r \<longleftrightarrow>
     (\<exists>oc a. ParseOutcome pb b = Some oc \<and> (\<forall>mid name. replay rpb mid name oc = Inr a) \<and> r = R a)"

text \<open>The bytes \<open>b\<close> replay to the response \<open>r\<close>.\<close>

definition recorded_response :: "outcome_pb \<Rightarrow> response_pb \<Rightarrow> bytes \<Rightarrow> response \<Rightarrow> bool" where
  "recorded_response pb rs b r \<longleftrightarrow>
     (case r of
        R_Account _ \<Rightarrow> replays_as pb (rpb_account rs) R_Account b r
      | R_ReconcileInfo _ \<Rightarrow> replays_as pb (rpb_reconcile rs) R_ReconcileInfo b r
      | R_Transaction _ \<Rightarrow> replays_as pb (rpb_transaction rs) R_Transaction b r
      | R_Price _ \<Rightarrow> replays_as pb (rpb_price rs) R_Price b r
      | R_Empty \<Rightarrow> replays_as pb (rpb_empty rs) (\<lambda>_. R_Empty) b r
      | _ \<Rightarrow> False)"

lemma replay_ignores_names:
  "replay rpb mid name oc = Inr a \<Longrightarrow> replay rpb mid' name' oc = Inr a"
  by (auto simp: replay_def split: if_splits option.splits)

lemma RunMutation_recorded:
  assumes "planned_apply apply_fn plan" and "outcome_pb_roundtrip (env_outcome_pb env)" and "message_pb_roundtrip rpb"
    and "journal_ok (fst s)"
    and "answer R (RunMutation env admission rpb mid req name apply_fn s) = (Ret (Status_OK, Some r), s')"
  shows "\<exists>b. outcome_of (fst s') mid = Some b \<and> replays_as (env_outcome_pb env) rpb R b r"
proof -
  obtain j x where s: "s = (j, x)" by (cases s)
  obtain fl j' x' where run: "RunMutation_body env rpb mid req name apply_fn (j, x) = (fl, (j', x'))" by (metis prod.collapse)
  with assms(5) s obtain a where a: "fl = Ret a" "r = R a" "s' = (j', x')"
    by (cases admission; cases fl) (auto simp: RunMutation_def RunRpc_def)
  from planned_apply.body_Ret_recorded [OF assms(1) run [unfolded a(1)] _ assms(2,3)] assms(4) s obtain b oc where
    "outcome_of j' mid = Some b" "ParseOutcome (env_outcome_pb env) b = Some oc" "replay rpb mid name oc = Inr a" by fastforce
  with a(2,3) replay_ignores_names show ?thesis unfolding replays_as_def by fastforce
qed

lemma answered_is_recorded:
  assumes "mutation_id_of rpc = Some mid" and "handle env cx rpc s = (Ret (Status_OK, Some r), s')"
    and "outcome_pb_roundtrip (env_outcome_pb (sv_mut env))" and "responses_roundtrip (sv_responses env)" and "journal_ok (fst s)"
  shows "\<exists>b. outcome_of (fst s') mid = Some b \<and> recorded_response (env_outcome_pb (sv_mut env)) (sv_responses env) b r"
proof -
  let ?P = "\<lambda>a. a = (Ret (Status_OK, Some r), s') \<longrightarrow>
     (\<exists>b. outcome_of (fst s') mid = Some b \<and> recorded_response (env_outcome_pb (sv_mut env)) (sv_responses env) b r)"
  note rt = assms(4) [unfolded responses_roundtrip_def]
  have "?P (handle env cx rpc s)"
    using assms(1)
    by (rule mutation_handled)
       (use rt in \<open>auto simp: recorded_response_def replays_as_def
          dest!: RunMutation_recorded [OF _ assms(3) _ assms(5)] split: response.split\<close>)
  with assms(2) show ?thesis by simp
qed

text \<open>A call without faults, crash points and a full queue.\<close>

definition healthy_call :: "'w service_env \<Rightarrow> 'w call_context \<Rightarrow> bool" where
  "healthy_call env cx \<longleftrightarrow> no_faults (env_sqlite (sv_mut env)) \<and> env_crash_at (sv_mut env) = None \<and> cx_admission cx = None"

lemma RunMutation_replays:
  assumes "ValidateMutationId mid = Inr ()" and "journal_ok (fst s)" and "outcome_of (fst s) mid = Some b"
    and "replays_as (env_outcome_pb (sv_mut env)) rpb R b r" and "healthy_call env cx"
  shows "answer R (RunMutation (sv_mut env) (cx_admission cx) rpb mid req name apply_fn s) = (Ret (Status_OK, Some r), s)"
proof -
  obtain j x where s: "s = (j, x)" by (cases s)
  from assms(4) obtain oc a where oc: "ParseOutcome (env_outcome_pb (sv_mut env)) b = Some oc" "replay rpb mid name oc = Inr a" "r = R a"
    by (auto simp: replays_as_def)
  from assms(5) have h: "no_faults (env_sqlite (sv_mut env))" "env_crash_at (sv_mut env) = None" "cx_admission cx = None"
    by (auto simp: healthy_call_def)
  from recorded_replays [OF assms(1) _ _ oc(1,2) h(1,2), of j req apply_fn x] assms(2,3) s oc(3) h(3) show ?thesis
    by (simp add: RunMutation_def RunRpc_def)
qed

lemma recorded_is_answered:
  assumes "mutation_id_of rpc = Some mid" and "response_type rpc r"
    and "recorded_response (env_outcome_pb (sv_mut env)) (sv_responses env) b r"
    and "ValidateMutationId mid = Inr ()" and "journal_ok (fst s)" and "outcome_of (fst s) mid = Some b" and "healthy_call env cx"
  shows "handle env cx rpc s = (Ret (Status_OK, Some r), s)"
  using assms
  by (cases rpc rule: mutation_id_of.cases)
     (auto simp: mutation_rpc_defs recorded_response_def intro!: RunMutation_replays)

lemma life_keeps:
  assumes "(life_step pb)\<^sup>*\<^sup>* d d'" and "outcome_pb_roundtrip pb" and "journal_inv pb (daemon_journal d)"
  shows "journal_inv pb (daemon_journal d')"
    and "outcome_of (daemon_journal d) mid = Some b \<Longrightarrow> outcome_of (daemon_journal d') mid = Some b"
  using journal_writes_inv [OF life_writes [OF assms(1)] assms(2,3)] journal_writes_keep [OF life_writes [OF assms(1)]] assms(3)
  by (auto simp: journal_inv_def)

section \<open>Properties\<close>

text \<open>
  C19. Through every life of the daemon, with any number of crashes, restarts, failed starts and
  faults, the journal keeps its invariant, and an outcome once recorded is never changed nor
  lost.
\<close>
theorem outcomes_are_forever:
  assumes "(life_step pb)\<^sup>*\<^sup>* d d'" and "outcome_pb_roundtrip pb" and "journal_inv pb (daemon_journal d)"
  shows "journal_inv pb (daemon_journal d') \<and>
    (\<forall>mid b. outcome_of (daemon_journal d) mid = Some b \<longrightarrow> outcome_of (daemon_journal d') mid = Some b)"
  using life_keeps [OF assms] by blast

text \<open>
  C1. Exactly once, for life: when a mutating RPC has answered \<open>OK\<close> with a response, then
  whatever happens afterwards (other calls, crashes in the middle of calls, kills, restarts with
  reconciliation, faults of SQLite) every call under its mutation id that asks for the same type
  of response, on any daemon serving later, is answered with that same response and changes
  neither journal, session nor book.
\<close>
theorem exactly_once_for_life:
  assumes "handle env cx rpc (server_state s m) = (Ret (Status_OK, Some r), st)" and "mutation_id_of rpc = Some mid"
    and "env_outcome_pb (sv_mut env) = pb" and "outcome_pb_roundtrip pb" and "responses_roundtrip (sv_responses env)"
    and "journal_inv pb (disk_journal m)"
    and "(life_step pb)\<^sup>*\<^sup>* (Up (fst (snd st)) (after_call m st)) (Up s2 m2)"
    and "mutation_id_of rpc2 = Some mid" and "response_type rpc2 r"
    and "env_outcome_pb (sv_mut env2) = pb" and "sv_responses env2 = sv_responses env" and "healthy_call env2 cx2"
  shows "handle env2 cx2 rpc2 (server_state s2 m2) = (Ret (Status_OK, Some r), server_state s2 m2)"
proof -
  have ok: "journal_ok (disk_journal m)" using assms(6) by (simp add: journal_inv_def)
  with answered_is_recorded [OF assms(2,1)] assms(3-5) obtain b where
    b: "outcome_of (fst st) mid = Some b" "recorded_response pb (sv_responses env) b r"
    by (auto simp: server_state_def)
  have "journal_inv pb (fst st)"
    using journal_writes_inv [OF handle_journal_writes [of env "server_state s m" cx rpc]] assms(1,3,4,6)
    by (simp add: server_state_def)
  with life_keeps [OF assms(7,4)] b(1) have inv: "journal_inv pb (disk_journal m2)" "outcome_of (disk_journal m2) mid = Some b"
    by (simp_all add: daemon_journal_def after_call_def)
  moreover from inv have "ValidateMutationId mid = Inr ()"
    using outcome_has_intent by (fastforce simp: journal_inv_def)
  ultimately show ?thesis
    using recorded_is_answered [OF assms(8,9), of env2 b "server_state s2 m2" cx2] assms(10-12) b(2)
    by (simp add: journal_inv_def server_state_def)
qed

text \<open>
  C4. No life wedges the daemon: whatever crashes, faults and failed starts it has gone through,
  once the machine is sound again (locks free, SQLite, backup and socket working) and the book
  opens and passes its checks, the next startup reaches the serving state, on that book and
  whatever the journal holds.
\<close>
theorem every_life_recovers:
  assumes "(life_step pb)\<^sup>*\<^sup>* d (Down m)" and "outcome_pb_roundtrip pb" and "journal_inv pb (daemon_journal d)"
    and "machine_ready re o1 m" and "socket_lock_path o1 \<noteq> book_lock_path (env_sha256 (re_mut re)) o1" and "opt_queue_depth o1 \<noteq> 0"
    and "backup_dir o1 = [] \<or> (\<exists>taken fs. SnapshotBeforeOpen (re_fs re) (book_path o1) (journal_path o1) (backup_dir o1)
           (backup_keep_days o1) (m_fs m) = (Inr taken, fs))"
    and "Session_Open (re_api re) (re_lock re) (new_session o1, GlobalInit (re_global re) (m_world m)) = (Ret (), (s, w))"
    and "RunStartupChecks (re_eng re) (re_api re) (s, w) = Inr ()"
  shows "\<exists>n m'. Run_startup re o1 m = (Going (s, n), m') \<and> m_world m' = w"
proof -
  have "journal_inv pb (disk_journal m)" using life_keeps(1) [OF assms(1-3)] by (simp add: daemon_journal_def)
  from Run_startup_ready [OF assms(4-7) this assms(8,9)] show ?thesis by blast
qed

end
