(* ===== verification/Concurrent_Calls.thy ===== *)
theory Concurrent_Calls
  imports Worker_Threads Lifetime
begin

text \<open>
  Many clients at once: the handlers of \<^verbatim>\<open>src/rpc\<close> on the threads of \<^verbatim>\<open>engine/worker.cpp\<close>. Every RPC but
  \<^verbatim>\<open>Ping\<close> reaches the engine through \<^verbatim>\<open>RunRpc\<close> (\<^verbatim>\<open>rpc/rpc_util.h\<close>), which hands the handler's lambda to
  \<^verbatim>\<open>EngineWorker::Run\<close> and waits. The threads are shown to refine the life of \<open>Lifetime\<close>, in which
  calls are served one after the other, so that what holds of every life holds of every
  interleaving.
\<close>

section \<open>Calls on the worker's queue\<close>

record 'w call =
  cl_env :: "'w service_env"
  cl_context :: "'w call_context"
  cl_rpc :: rpc

definition handled :: "'w call \<Rightarrow> 'w server_state \<Rightarrow> 'w answer" where
  "handled c = handle (cl_env c) (cl_context c) (cl_rpc c)"

text \<open>
  The task \<^verbatim>\<open>RunRpc\<close> enqueues. What the handler ends with is the value of the future; turning it
  into a status reads no state, so it makes no difference on which thread that happens.
\<close>

definition call_task :: "nat \<Rightarrow> 'w call \<Rightarrow> ('w server_state, (exn, Status \<times> response option) flow) task" where
  "call_task k c = \<lparr>ticket = k, packaged = (\<lambda>s. case handled c s of (fl, s') \<Rightarrow> (Inr fl, s'))\<rparr>"

definition on_queue :: "outcome_pb \<Rightarrow> 'w call \<Rightarrow> bool" where
  "on_queue pb c \<longleftrightarrow> env_outcome_pb (sv_mut (cl_env c)) = pb \<and> cx_admission (cl_context c) = None \<and>
     cl_rpc c \<noteq> SessionService Ping_rpc"

definition is_call :: "outcome_pb \<Rightarrow> ('w server_state, (exn, Status \<times> response option) flow) task \<Rightarrow> bool" where
  "is_call pb t \<longleftrightarrow> (\<exists>c. on_queue pb c \<and> t = call_task (ticket t) c)"

text \<open>A crash point or an endless loop in a task ends the process: nothing happens after it.\<close>

definition none_aborted :: "('w server_state, (exn, Status \<times> response option) flow) task list \<Rightarrow> 'w server_state \<Rightarrow> bool" where
  "none_aborted ts s \<longleftrightarrow> (\<forall>us t vs. ts = us @ t # vs \<longrightarrow> fst (packaged t (run_serial us s)) \<noteq> Inr Abort)"

lemma call_task_packaged [simp]:
  "packaged (call_task k c) s = (Inr (fst (handled c s)), snd (handled c s))" "ticket (call_task k c) = k"
  by (simp_all add: call_task_def split: prod.split)

section \<open>The life the tasks lead\<close>

fun serve_all :: "('w server_state, (exn, Status \<times> response option) flow) task list \<Rightarrow> Session \<times> 'w machine \<Rightarrow> Session \<times> 'w machine" where
  "serve_all [] d = d"
| "serve_all (t # ts) (s, m) =
     (let st = snd (packaged t (server_state s m)) in serve_all ts (fst (snd st), after_call m st))"

lemma server_state_after [simp]: "server_state (fst (snd st)) (after_call m st) = st"
  by (cases st) (simp add: server_state_def after_call_def)

lemma serve_all_state: "serve_all ts (s, m) = (s', m') \<Longrightarrow> server_state s' m' = run_serial ts (server_state s m)"
  by (induction ts arbitrary: s m) (auto simp: Let_def)

lemma serve_all_append: "serve_all (ts @ us) d = serve_all us (serve_all ts d)"
  by (induction ts d rule: serve_all.induct) (simp_all add: Let_def)

lemma handled_answers: "handled c s = (fl, s') \<Longrightarrow> fl = Abort \<or> (\<exists>a. fl = Ret a)"
  using handle_well_ended [of "cl_rpc c" "cl_env c" "cl_context c" s]
  by (cases fl) (auto simp: handled_def well_ended_def)

lemma none_aborted_Cons:
  "none_aborted (t # ts) s \<Longrightarrow> fst (packaged t s) \<noteq> Inr Abort \<and> none_aborted ts (snd (packaged t s))"
  unfolding none_aborted_def by (metis append_Cons append_Nil run_serial.simps)

lemma none_aborted_append: "none_aborted (ts @ us) s \<Longrightarrow> none_aborted ts s \<and> none_aborted us (run_serial ts s)"
  unfolding none_aborted_def by (metis append.assoc append_Cons run_serial_append)

lemma serve_all_life:
  assumes "\<forall>t \<in> set ts. is_call pb t" and "none_aborted ts (server_state s m)" and "serve_all ts (s, m) = (s', m')"
  shows "(life_step pb)\<^sup>*\<^sup>* (Up s m) (Up s' m')"
  using assms
proof (induction ts arbitrary: s m)
  case (Cons t ts)
  from Cons.prems(1) obtain c where c: "on_queue pb c" "t = call_task (ticket t) c" by (auto simp: is_call_def)
  obtain fl st where h: "handled c (server_state s m) = (fl, st)" by (cases "handled c (server_state s m)")
  have p: "packaged t (server_state s m) = (Inr fl, st)" using h c(2) by (metis call_task_packaged(1) fst_conv snd_conv)
  with none_aborted_Cons [OF Cons.prems(2)] handled_answers [OF h] obtain a where "fl = Ret a" "none_aborted ts st" by auto
  with life_step.serves [of "cl_env c" pb "cl_context c" "cl_rpc c" s m a st] c(1) h
  have "life_step pb (Up s m) (Up (fst (snd st)) (after_call m st))" by (simp add: handled_def on_queue_def)
  moreover have "(life_step pb)\<^sup>*\<^sup>* (Up (fst (snd st)) (after_call m st)) (Up s' m')"
    using Cons.IH [of "fst (snd st)" "after_call m st"] Cons.prems(1,3) \<open>none_aborted ts st\<close> p by (simp add: Let_def)
  ultimately show ?case by (rule converse_rtranclp_into_rtranclp)
qed simp

section \<open>What the tasks do to the journal\<close>

lemma tasks_write:
  assumes "\<forall>t \<in> set ts. is_call pb t"
  shows "(journal_write pb)\<^sup>*\<^sup>* (fst s) (fst (run_serial ts s))"
  using assms
proof (induction ts arbitrary: s)
  case (Cons t ts)
  from Cons.prems obtain c where c: "on_queue pb c" "t = call_task (ticket t) c" by (auto simp: is_call_def)
  have "snd (packaged t s) = snd (handled c s)" by (subst c(2)) simp
  with handle_journal_writes [of "cl_env c" s "cl_context c" "cl_rpc c"] c(1)
  have "(journal_write pb)\<^sup>*\<^sup>* (fst s) (fst (snd (packaged t s)))" by (simp add: handled_def on_queue_def)
  also have "(journal_write pb)\<^sup>*\<^sup>* (fst (snd (packaged t s))) (fst (run_serial ts (snd (packaged t s))))"
    using Cons by simp
  finally show ?case by simp
qed simp

lemma tasks_keep:
  assumes "\<forall>t \<in> set ts. is_call pb t" and "outcome_pb_roundtrip pb" and "journal_inv pb (fst s)"
  shows "journal_inv pb (fst (run_serial ts s))"
    and "outcome_of (fst s) mid = Some b \<Longrightarrow> outcome_of (fst (run_serial ts s)) mid = Some b"
  using journal_writes_inv [OF tasks_write [OF assms(1)] assms(2,3)] journal_writes_keep [OF tasks_write [OF assms(1)]] assms(3)
  by (auto simp: journal_inv_def)

section \<open>Idle threads serve a call\<close>

text \<open>Nobody inside, the engine thread asleep, room in the queue.\<close>

definition idle :: "('s, 'r) threads \<Rightarrow> bool" where
  "idle th \<longleftrightarrow> mutex th = None \<and> engine th = Asleep \<and> callers th = (\<lambda>_. Outside) \<and> pc (worker th) = Waiting \<and>
     queue (worker th) = [] \<and> \<not> stopping (worker th) \<and> 0 < max_depth (worker th)"

lemma new_threads_idle:
  fixes th :: "('s, 'r) threads"
  assumes "0 < depth" and th: "th = new_threads depth s"
  shows "thread_run th [Quiet, Quiet] (th\<lparr>engine := Asleep\<rparr>)" and "idle (th\<lparr>engine := Asleep\<rparr>)"
proof -
  let ?i = "th"
  let ?h = "?i\<lparr>engine := Holds_lock, mutex := Some Engine_thread\<rparr>"
  have 1: "thread_step ?i Quiet ?h" by (rule thread_step.lock_Loop) (simp_all add: th new_threads_def)
  have "thread_step ?h Quiet (?h\<lparr>engine := Asleep, mutex := None\<rparr>)"
    by (rule thread_step.sleep) (simp_all add: th new_threads_def new_EngineWorker_def wait_predicate_def)
  moreover have "?h\<lparr>engine := Asleep, mutex := None\<rparr> = ?i\<lparr>engine := Asleep\<rparr>" by (simp add: th new_threads_def)
  ultimately have 2: "thread_step ?h Quiet (?i\<lparr>engine := Asleep\<rparr>)" by simp
  have "thread_run ?i (([] @ [Quiet]) @ [Quiet]) (?i\<lparr>engine := Asleep\<rparr>)"
    by (intro thread_run.intros(2)) (rule thread_run.thread_nil 1 2)+
  then show "thread_run ?i [Quiet, Quiet] (?i\<lparr>engine := Asleep\<rparr>)" by simp
  show "idle (?i\<lparr>engine := Asleep\<rparr>)" using assms(1) by (simp add: idle_def th new_threads_def new_EngineWorker_def)
qed

lemma call_served:
  assumes idle: "idle th" and fresh: "ticket t \<notin> tickets th"
  obtains es th' where "thread_run th es th'" and "idle th'" and "accepted (sections es) = [t]"
    and "Returns i t (fst (packaged t (engine_state (worker th)))) \<in> set es"
    and "tickets th' = insert (ticket t) (tickets th)" and "engine_state (worker th') = snd (packaged t (engine_state (worker th)))"
proof -
  let ?w = "worker th" and ?r = "packaged t (engine_state (worker th))"
  note idle = idle [unfolded idle_def]
  define t1 where "t1 = goes i (Locking t) (th\<lparr>tickets := insert (ticket t) (tickets th)\<rparr>)"
  define t2 where "t2 = goes i (Enqueueing t) (t1\<lparr>mutex := Some (Caller i)\<rparr>)"
  define t3 where "t3 = goes i (Notifying t) (t2\<lparr>worker := ?w\<lparr>queue := [t]\<rparr>, mutex := None\<rparr>)"
  define t4 where "t4 = goes i (Getting t) (notify_one t3)"
  define t5 where "t5 = t4\<lparr>engine := Holds_lock, mutex := Some Engine_thread\<rparr>"
  define t6 where "t6 = t5\<lparr>worker := ?w\<lparr>queue := [], pc := Running t\<rparr>, engine := Calling, mutex := None\<rparr>"
  define w7 where "w7 = ?w\<lparr>queue := [], pc := Waiting, engine_state := snd ?r, futures := (futures ?w)(ticket t \<mapsto> fst ?r)\<rparr>"
  define t7 where "t7 = t6\<lparr>worker := w7, engine := Wants_lock\<rparr>"
  define t8 where "t8 = goes i Outside t7"
  define t9 where "t9 = t8\<lparr>engine := Holds_lock, mutex := Some Engine_thread\<rparr>"
  define ta where "ta = t9\<lparr>engine := Asleep, mutex := None\<rparr>"
  have 1: "thread_step th (Calls i) t1" unfolding t1_def using idle fresh by (intro thread_step.calls_Run) auto
  have 2: "thread_step t1 Quiet t2" unfolding t2_def using idle by (intro thread_step.lock_Enqueue) (auto simp: t1_def)
  have 3: "thread_step t2 (Section (Accepted t)) t3"
    unfolding t3_def using idle by (intro thread_step.push) (auto simp: t2_def t1_def Enqueue_def)
  have 4: "thread_step t3 Quiet t4" unfolding t4_def by (intro thread_step.notify) (simp add: t3_def)
  have 5: "thread_step t4 Quiet t5"
    unfolding t5_def using idle by (intro thread_step.lock_Loop) (simp_all add: t4_def t3_def t2_def t1_def)
  have 6: "thread_step t5 (Section (Started t)) t6"
    unfolding t6_def using idle
    by (intro thread_step.pop) (simp_all add: t5_def t4_def t3_def wait_predicate_def Loop_take_def)
  have 7: "thread_step t6 (Section (Finished t)) t7"
    unfolding t7_def by (intro thread_step.call_task) (simp_all add: t6_def w7_def Loop_call_Running)
  have 8: "thread_step t7 (Returns i t (fst ?r)) t8"
    unfolding t8_def by (intro thread_step.get) (simp_all add: t7_def t6_def t5_def t4_def w7_def)
  have 9: "thread_step t8 Quiet t9" unfolding t9_def by (intro thread_step.lock_Loop) (simp_all add: t8_def t7_def t6_def)
  have a: "thread_step t9 Quiet ta"
    unfolding ta_def using idle
    by (intro thread_step.sleep) (simp_all add: t9_def t8_def t7_def w7_def wait_predicate_def)
  let ?es = "((((((((([] @ [Calls i]) @ [Quiet]) @ [Section (Accepted t)]) @ [Quiet]) @ [Quiet]) @ [Section (Started t)]) @
     [Section (Finished t)]) @ [Returns i t (fst ?r)]) @ [Quiet]) @ [Quiet]"
  have run: "thread_run th ?es ta"
    by (intro thread_run.intros(2)) (rule thread_run.thread_nil 1 2 3 4 5 6 7 8 9 a)+
  note defs = ta_def t9_def t8_def t7_def t6_def t5_def t4_def t3_def t2_def t1_def w7_def
  show thesis
  proof (rule that [OF run])
    show "idle ta" using idle by (simp add: idle_def defs fun_eq_iff)
  qed (simp_all add: defs)
qed

section \<open>Properties\<close>

text \<open>
  C3. The server with all its threads refines the life in which calls are served one at a time:
  whatever the clients, the engine thread and the drain do, the journal, session and book are
  those of a life of the daemon; every answer a client gets is the one its call gives at a moment
  of that life; and when a call ends the process, the life ends with the daemon down.
\<close>
theorem threads_serve_life:
  assumes run: "thread_run (new_threads depth (server_state s m)) es th"
    and calls: "\<forall>t \<in> set (accepted (sections es)). is_call pb t"
    and alive: "none_aborted (finished (sections es)) (server_state s m)"
  shows "\<exists>s' m'. (life_step pb)\<^sup>*\<^sup>* (Up s m) (Up s' m') \<and> engine_state (worker th) = server_state s' m' \<and>
     (\<forall>i t res. Returns i t res \<in> set es \<longrightarrow>
        (\<exists>s1 m1 c. (life_step pb)\<^sup>*\<^sup>* (Up s m) (Up s1 m1) \<and> (life_step pb)\<^sup>*\<^sup>* (Up s1 m1) (Up s' m') \<and>
           t = call_task (ticket t) c \<and> res = Inr (fst (handled c (server_state s1 m1))))) \<and>
     (\<forall>t. pc (worker th) = Running t \<and> fst (packaged t (server_state s' m')) = Inr Abort \<longrightarrow>
        life_step pb (Up s' m') (Down (after_call m' (snd (packaged t (server_state s' m'))))))"
proof -
  let ?s0 = "server_state s m" and ?fin = "finished (sections es)"
  obtain s' m' where all: "serve_all ?fin (s, m) = (s', m')" by fastforce
  have inv: "worker_inv ?s0 depth (sections es) (worker th)"
    using worker_run_inv [of _ "sections es" "worker th" depth ?s0] run_reached [OF run refl] by (simp add: reached_def)
  then have acc: "accepted (sections es) = ?fin @ in_flight (worker th) @ queue (worker th)"
    unfolding worker_inv_def by (metis append.assoc)
  with calls have fin: "\<forall>t \<in> set ?fin. is_call pb t" by simp
  have state: "engine_state (worker th) = server_state s' m'"
    using inv serve_all_state [OF all] by (simp add: worker_inv_def)
  have answers: "\<exists>s1 m1 c. (life_step pb)\<^sup>*\<^sup>* (Up s m) (Up s1 m1) \<and> (life_step pb)\<^sup>*\<^sup>* (Up s1 m1) (Up s' m') \<and>
      t = call_task (ticket t) c \<and> res = Inr (fst (handled c (server_state s1 m1)))" if "Returns i t res \<in> set es" for i t res
  proof -
    from returns_results [OF run refl] that obtain ts us where
      split: "?fin = ts @ t # us" and res: "res = fst (packaged t (run_serial ts ?s0))" by blast
    obtain s1 m1 where d: "serve_all ts (s, m) = (s1, m1)" by fastforce
    note st = serve_all_state [OF d]
    have parts: "none_aborted ts ?s0" "none_aborted (t # us) (server_state s1 m1)"
      using none_aborted_append [of ts "t # us" ?s0] alive split st by simp_all
    from fin split obtain c where c: "t = call_task (ticket t) c" by (auto simp: is_call_def)
    have "res = Inr (fst (handled c (server_state s1 m1)))" unfolding res st by (subst c) simp
    moreover have "(life_step pb)\<^sup>*\<^sup>* (Up s m) (Up s1 m1)" using fin split by (intro serve_all_life [OF _ parts(1) d]) simp
    moreover have "(life_step pb)\<^sup>*\<^sup>* (Up s1 m1) (Up s' m')"
      using fin split all d by (intro serve_all_life [OF _ parts(2)]) (simp_all add: serve_all_append)
    ultimately show ?thesis using c by blast
  qed
  have dies: "life_step pb (Up s' m') (Down (after_call m' (snd (packaged t (server_state s' m')))))"
    if t: "pc (worker th) = Running t" "fst (packaged t (server_state s' m')) = Inr Abort" for t
  proof -
    from acc calls t(1) obtain c where c: "on_queue pb c" "t = call_task (ticket t) c" by (auto simp: is_call_def)
    have p: "packaged t x = (Inr (fst (handled c x)), snd (handled c x))" for x by (subst c(2)) simp
    have "handled c (server_state s' m') = (Abort, snd (packaged t (server_state s' m')))" using t(2) by (simp add: p prod_eq_iff)
    from life_step.dies_in_call [OF _ this [unfolded handled_def]] c(1) show ?thesis by (simp add: on_queue_def)
  qed
  from serve_all_life [OF fin alive all] state answers dies show ?thesis by blast
qed

text \<open>
  C2. Exactly once under concurrency: of two calls under one mutation id, sent by any clients at
  any time, the one admitted first decides; once it has answered \<open>OK\<close> with a response, the other,
  however the threads interleave, gets the same response and changes neither journal, session
  nor book.
\<close>
theorem concurrent_exactly_once:
  assumes run: "thread_run (new_threads depth s0) es th"
    and calls: "\<forall>t \<in> set (accepted (sections es)). is_call pb t"
    and order: "accepted (sections es) = ts @ call_task k1 c1 # us @ call_task k2 c2 # vs"
    and answers: "Returns i (call_task k1 c1) (Inr (Ret (Status_OK, Some r))) \<in> set es" "Returns j (call_task k2 c2) res \<in> set es"
    and id: "mutation_id_of (cl_rpc c1) = Some mid" "mutation_id_of (cl_rpc c2) = Some mid" "response_type (cl_rpc c2) r"
    and env: "env_outcome_pb (sv_mut (cl_env c1)) = pb" "env_outcome_pb (sv_mut (cl_env c2)) = pb" "outcome_pb_roundtrip pb"
      "responses_roundtrip (sv_responses (cl_env c1))" "sv_responses (cl_env c2) = sv_responses (cl_env c1)"
      "healthy_call (cl_env c2) (cl_context c2)"
    and journal: "journal_inv pb (fst s0)"
  shows "res = Inr (Ret (Status_OK, Some r)) \<and>
     run_serial (ts @ call_task k1 c1 # us @ [call_task k2 c2]) s0 = run_serial (ts @ call_task k1 c1 # us) s0"
proof -
  let ?t1 = "call_task k1 c1" and ?t2 = "call_task k2 c2"
  have inv: "worker_inv s0 depth (sections es) (worker th)"
    using worker_run_inv [of _ "sections es" "worker th" depth s0] run_reached [OF run refl] by (simp add: reached_def)
  then have acc: "accepted (sections es) = finished (sections es) @ in_flight (worker th) @ queue (worker th)"
    unfolding worker_inv_def by (metis append.assoc)
  have dist: "distinct (map ticket (accepted (sections es)))"
    using returns_results [OF run refl] by (simp add: tickets_inv_def)
  have at: "res' = fst (packaged t (run_serial ps s0))"
    if "Returns i' t res' \<in> set es" "accepted (sections es) = ps @ t # qs" for i' t res' ps qs
  proof -
    from returns_results [OF run refl] that(1) obtain ps' qs' where
      f: "finished (sections es) = ps' @ t # qs'" "res' = fst (packaged t (run_serial ps' s0))" by blast
    then have "ps' @ t # (qs' @ in_flight (worker th) @ queue (worker th)) = ps @ t # qs" using acc that(2) by simp
    moreover have "distinct (ps' @ t # (qs' @ in_flight (worker th) @ queue (worker th)))"
      using dist acc f(1) unfolding distinct_map by simp
    ultimately have "ps' = ps" by (subst (asm) append_Cons_eq_iff) auto
    with f(2) show ?thesis by simp
  qed
  define s1 where "s1 = run_serial ts s0"
  define s2 where "s2 = run_serial us (snd (handled c1 s1))"
  have ok1: "handled c1 s1 = (Ret (Status_OK, Some r), snd (handled c1 s1))"
    using at [OF answers(1) order] by (simp add: s1_def prod_eq_iff)
  have res: "res = Inr (fst (handled c2 s2))"
    using at [OF answers(2), of "ts @ ?t1 # us" vs] order by (simp add: s2_def s1_def)
  have j1: "journal_inv pb (fst s1)"
    unfolding s1_def using tasks_keep(1) [OF _ env(3) journal, of ts] calls order by simp
  have "journal_ok (fst s1)" using j1 by (simp add: journal_inv_def)
  with answered_is_recorded [OF id(1) ok1 [unfolded handled_def]] env obtain b where
    b: "outcome_of (fst (snd (handled c1 s1))) mid = Some b" "recorded_response pb (sv_responses (cl_env c1)) b r"
    by (auto simp: handled_def)
  have "journal_inv pb (fst (snd (handled c1 s1)))"
    using tasks_keep(1) [OF _ env(3) j1, of "[?t1]"] calls order by simp
  from tasks_keep [OF _ env(3) this, of us] b(1) calls order
  have j2: "journal_inv pb (fst s2)" "outcome_of (fst s2) mid = Some b" by (simp_all add: s2_def)
  then have "ValidateMutationId mid = Inr ()" using outcome_has_intent by (fastforce simp: journal_inv_def)
  with recorded_is_answered [OF id(2,3), of "cl_env c2" b s2 "cl_context c2"] env b(2) j2
  have "handled c2 s2 = (Ret (Status_OK, Some r), s2)" by (simp add: handled_def journal_inv_def)
  with res show ?thesis by (simp add: s2_def s1_def)
qed

end
