(* ===== verification/Reference_Messages.thy ===== *)
theory Reference_Messages
  imports Recovery
begin

text \<open>
  The reference wire format extended to the contract's messages, by combinators on codecs: a
  pair of a writer and a reader of one item. Like \<open>Reference_Wire\<close> it is an instance of what
  the model assumes of protobuf, for the witnesses.
\<close>

section \<open>Codecs\<close>

type_synonym 'a codec = "('a \<Rightarrow> bytes) \<times> 'a reader"

definition codec_ok :: "'a codec \<Rightarrow> bool" where
  "codec_ok c \<longleftrightarrow> (\<forall>a rest. snd c (fst c a @ rest) = Some (a, rest))"

definition as_pb :: "'a codec \<Rightarrow> 'a message_pb" where
  "as_pb c = \<lparr>SerializeAsString = fst c, ParseFromString = (\<lambda>bs. map_option fst (snd c bs))\<rparr>"

definition pair_codec :: "'a codec \<Rightarrow> 'b codec \<Rightarrow> ('a \<times> 'b) codec" where
  "pair_codec c d =
     (\<lambda>p. fst c (fst p) @ fst d (snd p),
      \<lambda>bs. case snd c bs of None \<Rightarrow> None | Some (a, r) \<Rightarrow>
            (case snd d r of None \<Rightarrow> None | Some (b, r') \<Rightarrow> Some ((a, b), r')))"

definition iso_codec :: "('a \<Rightarrow> 'b) \<Rightarrow> ('b \<Rightarrow> 'a) \<Rightarrow> 'b codec \<Rightarrow> 'a codec" where
  "iso_codec f g c = (fst c \<circ> f, \<lambda>bs. map_option (\<lambda>(b, r). (g b, r)) (snd c bs))"

definition option_codec :: "'a codec \<Rightarrow> 'a option codec" where
  "option_codec c = (put_option (fst c), get_option (snd c))"

fun get_many :: "'a reader \<Rightarrow> nat \<Rightarrow> 'a list reader" where
  "get_many g 0 bs = Some ([], bs)"
| "get_many g (Suc n) bs =
     (case g bs of None \<Rightarrow> None | Some (a, r) \<Rightarrow>
     (case get_many g n r of None \<Rightarrow> None | Some (as, r') \<Rightarrow> Some (a # as, r')))"

definition list_codec :: "'a codec \<Rightarrow> 'a list codec" where
  "list_codec c =
     (\<lambda>as. put_nat (length as) @ concat (map (fst c) as),
      \<lambda>bs. case get_nat bs of None \<Rightarrow> None | Some (n, r) \<Rightarrow> get_many (snd c) n r)"

definition string_codec :: "string codec" where "string_codec = (put_string, get_string)"
definition int_codec :: "int codec" where "int_codec = (put_int, get_int)"
definition nat_codec :: "nat codec" where "nat_codec = (put_nat, get_nat)"
definition bool_codec :: "bool codec" where "bool_codec = (put_bool, get_bool)"
definition unit_codec :: "unit codec" where "unit_codec = (\<lambda>_. [], \<lambda>bs. Some ((), bs))"

lemma codec_ok_intros [simp, intro]:
  "codec_ok string_codec" "codec_ok int_codec" "codec_ok nat_codec" "codec_ok bool_codec" "codec_ok unit_codec"
  "codec_ok c \<Longrightarrow> codec_ok d \<Longrightarrow> codec_ok (pair_codec c d)"
  "codec_ok c \<Longrightarrow> codec_ok (option_codec c)"
  by (auto simp: codec_ok_def string_codec_def int_codec_def nat_codec_def bool_codec_def unit_codec_def
      pair_codec_def option_codec_def)

lemma codec_ok_iso: "codec_ok c \<Longrightarrow> (\<And>a. g (f a) = a) \<Longrightarrow> codec_ok (iso_codec f g c)"
  by (simp add: codec_ok_def iso_codec_def)

lemma codec_ok_list [simp, intro]: "codec_ok c \<Longrightarrow> codec_ok (list_codec c)"
proof -
  assume c: "codec_ok c"
  have "get_many (snd c) (length as) (concat (map (fst c) as) @ rest) = Some (as, rest)" for as rest
    using c by (induction as) (simp_all add: codec_ok_def)
  then show ?thesis by (simp add: codec_ok_def list_codec_def)
qed

lemma as_pb_roundtrip: "codec_ok c \<Longrightarrow> message_pb_roundtrip (as_pb c)"
  unfolding codec_ok_def message_pb_roundtrip_def as_pb_def by (metis (no_types, lifting) append_Nil2 fst_conv
      message_pb.select_convs option.simps(9))

section \<open>Enumerations\<close>

text \<open>The named values by their position, any other value after them.\<close>

definition account_types :: "AccountType list" where
  "account_types =
     [ACCOUNT_TYPE_UNSPECIFIED, ACCOUNT_TYPE_ASSET, ACCOUNT_TYPE_BANK, ACCOUNT_TYPE_CASH, ACCOUNT_TYPE_CREDIT,
      ACCOUNT_TYPE_LIABILITY, ACCOUNT_TYPE_EQUITY, ACCOUNT_TYPE_INCOME, ACCOUNT_TYPE_EXPENSE, ACCOUNT_TYPE_STOCK,
      ACCOUNT_TYPE_MUTUAL, ACCOUNT_TYPE_RECEIVABLE, ACCOUNT_TYPE_PAYABLE, ACCOUNT_TYPE_TRADING, ACCOUNT_TYPE_ROOT]"

definition reconcile_states :: "ReconcileState list" where
  "reconcile_states =
     [RECONCILE_STATE_UNSPECIFIED, RECONCILE_STATE_NOT_RECONCILED, RECONCILE_STATE_CLEARED,
      RECONCILE_STATE_RECONCILED, RECONCILE_STATE_FROZEN, RECONCILE_STATE_VOIDED]"

definition enum_codec :: "'a list \<Rightarrow> ('a \<Rightarrow> int) \<Rightarrow> (int \<Rightarrow> 'a) \<Rightarrow> 'a codec" where
  "enum_codec names value other =
     iso_codec (\<lambda>a. (length (takeWhile (\<lambda>b. b \<noteq> a) names), value a))
       (\<lambda>(n, i). if n < length names then names ! n else other i) (pair_codec nat_codec int_codec)"

lemma codec_ok_enum: "(\<And>a. a \<notin> set names \<Longrightarrow> other (value a) = a) \<Longrightarrow> codec_ok (enum_codec names value other)"
  unfolding enum_codec_def
proof (rule codec_ok_iso)
  fix a assume other: "\<And>a. a \<notin> set names \<Longrightarrow> other (value a) = a"
  let ?n = "length (takeWhile (\<lambda>b. b \<noteq> a) names)"
  have "?n < length names \<Longrightarrow> names ! ?n = a" using nth_length_takeWhile [of "\<lambda>b. b \<noteq> a" names] by simp
  moreover have "\<not> ?n < length names \<Longrightarrow> a \<notin> set names"
    using nth_length_takeWhile [of "\<lambda>b. b \<noteq> a" names] by (induction names) (auto split: if_splits)
  ultimately show "(case (?n, value a) of (n, i) \<Rightarrow> if n < length names then names ! n else other i) = a"
    using other by (auto split: if_splits)
qed auto

definition account_type_codec :: "AccountType codec" where
  "account_type_codec = enum_codec account_types (\<lambda>t. case t of AccountType_other i \<Rightarrow> i | _ \<Rightarrow> 0) AccountType_other"

definition reconcile_state_codec :: "ReconcileState codec" where
  "reconcile_state_codec = enum_codec reconcile_states (\<lambda>t. case t of ReconcileState_other i \<Rightarrow> i | _ \<Rightarrow> 0) ReconcileState_other"

lemma codec_ok_enums [simp, intro]: "codec_ok account_type_codec" "codec_ok reconcile_state_codec"
  unfolding account_type_codec_def reconcile_state_codec_def
  by (rule codec_ok_enum, simp add: account_types_def reconcile_states_def split: AccountType.splits ReconcileState.splits)+

section \<open>Messages\<close>

definition numeric_codec :: "Numeric codec" where
  "numeric_codec = iso_codec (\<lambda>m. (nu_num m, nu_denom m)) (\<lambda>(n, d). \<lparr>nu_num = n, nu_denom = d\<rparr>)
     (pair_codec int_codec int_codec)"

definition date_codec :: "Date codec" where
  "date_codec = iso_codec (\<lambda>m. (da_year m, da_month m, da_day m)) (\<lambda>(y, mo, d). \<lparr>da_year = y, da_month = mo, da_day = d\<rparr>)
     (pair_codec int_codec (pair_codec int_codec int_codec))"

definition commodity_id_codec :: "CommodityId codec" where
  "commodity_id_codec = iso_codec (\<lambda>m. (ci_space m, ci_mnemonic m)) (\<lambda>(s, m). \<lparr>ci_space = s, ci_mnemonic = m\<rparr>)
     (pair_codec string_codec string_codec)"

definition account_codec :: "AccountMsg codec" where
  "account_codec =
     iso_codec (\<lambda>m. (am_guid m, am_parent_guid m, am_name m, am_type m, am_commodity m, am_code m, am_description m,
                      am_placeholder m, am_hidden m))
       (\<lambda>(g, p, n, t, c, k, d, pl, h). \<lparr>am_guid = g, am_parent_guid = p, am_name = n, am_type = t, am_commodity = c,
          am_code = k, am_description = d, am_placeholder = pl, am_hidden = h\<rparr>)
       (pair_codec string_codec (pair_codec string_codec (pair_codec string_codec (pair_codec account_type_codec
         (pair_codec (option_codec commodity_id_codec) (pair_codec string_codec (pair_codec string_codec
         (pair_codec bool_codec bool_codec))))))))"

definition split_codec :: "SplitMsg codec" where
  "split_codec =
     iso_codec (\<lambda>m. (sm_guid m, sm_account_guid m, sm_value m, sm_quantity m, sm_memo m, sm_action m, sm_reconcile_state m))
       (\<lambda>(g, a, v, q, me, ac, r). \<lparr>sm_guid = g, sm_account_guid = a, sm_value = v, sm_quantity = q, sm_memo = me,
          sm_action = ac, sm_reconcile_state = r\<rparr>)
       (pair_codec string_codec (pair_codec string_codec (pair_codec (option_codec numeric_codec)
         (pair_codec (option_codec numeric_codec) (pair_codec string_codec (pair_codec string_codec reconcile_state_codec))))))"

definition transaction_codec :: "TransactionMsg codec" where
  "transaction_codec =
     iso_codec (\<lambda>m. (tm_guid m, tm_currency m, tm_post_date m, tm_enter_time_utc m, tm_num m, tm_description m, tm_splits m))
       (\<lambda>(g, c, p, e, n, d, s). \<lparr>tm_guid = g, tm_currency = c, tm_post_date = p, tm_enter_time_utc = e, tm_num = n,
          tm_description = d, tm_splits = s\<rparr>)
       (pair_codec string_codec (pair_codec (option_codec commodity_id_codec) (pair_codec (option_codec date_codec)
         (pair_codec int_codec (pair_codec string_codec (pair_codec string_codec (list_codec split_codec)))))))"

definition price_codec :: "PriceMsg codec" where
  "price_codec =
     iso_codec (\<lambda>m. (pm_guid m, pm_commodity m, pm_currency m, pm_date m, pm_value m, pm_source m))
       (\<lambda>(g, c, u, d, v, s). \<lparr>pm_guid = g, pm_commodity = c, pm_currency = u, pm_date = d, pm_value = v, pm_source = s\<rparr>)
       (pair_codec string_codec (pair_codec (option_codec commodity_id_codec) (pair_codec (option_codec commodity_id_codec)
         (pair_codec (option_codec date_codec) (pair_codec (option_codec numeric_codec) string_codec)))))"

definition reconcile_info_codec :: "ReconcileInfo codec" where
  "reconcile_info_codec =
     iso_codec (\<lambda>m. (ri_account_guid m, ri_last_date m, ri_reconciled_balance m))
       (\<lambda>(g, d, b). \<lparr>ri_account_guid = g, ri_last_date = d, ri_reconciled_balance = b\<rparr>)
       (pair_codec string_codec (pair_codec (option_codec date_codec) (option_codec numeric_codec)))"

definition delete_codec :: "DeleteRequest codec" where
  "delete_codec =
     iso_codec (\<lambda>m. (dr_meta_mutation_id m, dr_guid m)) (\<lambda>(i, g). \<lparr>dr_meta_mutation_id = i, dr_guid = g\<rparr>)
       (pair_codec string_codec string_codec)"

definition account_request_codec :: "AccountRequest codec" where
  "account_request_codec =
     iso_codec (\<lambda>m. (ar_meta_mutation_id m, ar_account m)) (\<lambda>(i, a). \<lparr>ar_meta_mutation_id = i, ar_account = a\<rparr>)
       (pair_codec string_codec account_codec)"

definition transaction_request_codec :: "TransactionRequest codec" where
  "transaction_request_codec =
     iso_codec (\<lambda>m. (tr_meta_mutation_id m, tr_transaction m)) (\<lambda>(i, t). \<lparr>tr_meta_mutation_id = i, tr_transaction = t\<rparr>)
       (pair_codec string_codec transaction_codec)"

lemma codec_ok_values [simp, intro]:
  "codec_ok numeric_codec" "codec_ok date_codec" "codec_ok commodity_id_codec"
  unfolding numeric_codec_def date_codec_def commodity_id_codec_def
  by (rule codec_ok_iso; auto)+

lemma codec_ok_split [simp, intro]: "codec_ok split_codec"
  unfolding split_codec_def by (rule codec_ok_iso; auto)

lemma codec_ok_messages [simp, intro]:
  "codec_ok account_codec" "codec_ok transaction_codec" "codec_ok price_codec" "codec_ok reconcile_info_codec"
  "codec_ok delete_codec"
  unfolding account_codec_def transaction_codec_def price_codec_def reconcile_info_codec_def delete_codec_def
  by (rule codec_ok_iso; auto)+

lemma codec_ok_requests [simp, intro]: "codec_ok account_request_codec" "codec_ok transaction_request_codec"
  unfolding account_request_codec_def transaction_request_codec_def by (rule codec_ok_iso; auto)+

definition ref_pbs :: recovery_pb where
  "ref_pbs = \<lparr>pb_account = as_pb account_codec, pb_reconcile_info = as_pb reconcile_info_codec,
     pb_transaction = as_pb transaction_codec, pb_price = as_pb price_codec,
     pb_delete_account = as_pb delete_codec, pb_delete_transaction = as_pb delete_codec\<rparr>"

lemma ref_pbs_roundtrip [simp]:
  "message_pb_roundtrip (pb_account ref_pbs)" "message_pb_roundtrip (pb_reconcile_info ref_pbs)"
  "message_pb_roundtrip (pb_transaction ref_pbs)" "message_pb_roundtrip (pb_price ref_pbs)"
  "message_pb_roundtrip (pb_delete_account ref_pbs)" "message_pb_roundtrip (pb_delete_transaction ref_pbs)"
  by (simp_all add: ref_pbs_def as_pb_roundtrip)

end
