(* ===== verification/Reference_Engine.thy ===== *)
theory Reference_Engine
  imports Session
begin

text \<open>
  A small engine the properties are instantiated with: a store of objects keyed by their GUIDs,
  once in memory and once on disk, the level of every open edit, and commits that copy an object
  to the disk. It shows that what the properties assume of libgnucash can hold; it is no model of
  libgnucash.
\<close>

section \<open>Worlds\<close>

record ref_store =
  st_accounts :: "GncGUID \<Rightarrow> account_view option"
  st_trans :: "GncGUID \<Rightarrow> trans_view option"
  st_splits :: "GncGUID \<Rightarrow> split_view option"
  st_prices :: "GncGUID \<Rightarrow> price_view option"

record ref_world =
  rw_mem :: ref_store
  rw_disk :: ref_store
  rw_edits :: "edit_target \<Rightarrow> nat"
  rw_next :: nat

definition key :: "nat \<Rightarrow> GncGUID" where "key p = word_of_nat p"

definition new_account :: account_view where
  "new_account = \<lparr>account_guid = 0, gnc_account_get_parent = None, xaccAccountGetName = None,
     xaccAccountGetType = ACCT_TYPE_ASSET, xaccAccountGetCommodity = None, xaccAccountGetCode = None,
     xaccAccountGetDescription = None, xaccAccountGetPlaceholder = False, xaccAccountGetHidden = False,
     xaccAccountGetReconcileLastDate = None, xaccAccountGetReconciledBalance = gnc_numeric_zero,
     xaccAccountGetSplitList = [], gnc_account_n_children = 0\<rparr>"

definition new_trans :: trans_view where
  "new_trans = \<lparr>trans_guid = 0, xaccTransGetCurrency = None, xaccTransGetDatePostedGDate = g_date_set_dmy 1 0 1,
     xaccTransGetDateEntered = 0, xaccTransGetNum = None, xaccTransGetDescription = None,
     xaccTransGetSplitList = [], xaccTransGetImbalanceValue = gnc_numeric_zero\<rparr>"

definition new_split :: split_view where
  "new_split = \<lparr>split_guid = 0, xaccSplitGetParent = 0, xaccSplitGetAccount = 0, xaccSplitGetValue = gnc_numeric_zero,
     xaccSplitGetAmount = gnc_numeric_zero, xaccSplitGetMemo = None, xaccSplitGetAction = None,
     xaccSplitGetReconcile = NREC, split_destroying = False\<rparr>"

definition new_price :: price_view where
  "new_price = \<lparr>price_guid = 0, gnc_price_get_commodity = 0, gnc_price_get_currency = 0, gnc_price_get_time64 = 0,
     gnc_price_get_value = gnc_numeric_zero, gnc_price_get_source_string = None\<rparr>"

text \<open>An object as its pointer shows it: its GUID is always the one the pointer stands for.\<close>

definition ref_account :: "Account \<Rightarrow> ref_world \<Rightarrow> account_view" where
  "ref_account a w =
     (case st_accounts (rw_mem w) (key a) of Some v \<Rightarrow> v | None \<Rightarrow> new_account)\<lparr>account_guid := key a\<rparr>"

definition ref_trans :: "Transaction \<Rightarrow> ref_world \<Rightarrow> trans_view" where
  "ref_trans t w = (case st_trans (rw_mem w) (key t) of Some v \<Rightarrow> v | None \<Rightarrow> new_trans)\<lparr>trans_guid := key t\<rparr>"

definition ref_split :: "Split \<Rightarrow> ref_world \<Rightarrow> split_view" where
  "ref_split s w = (case st_splits (rw_mem w) (key s) of Some v \<Rightarrow> v | None \<Rightarrow> new_split)\<lparr>split_guid := key s\<rparr>"

definition ref_price :: "GNCPrice \<Rightarrow> ref_world \<Rightarrow> price_view" where
  "ref_price p w = (case st_prices (rw_mem w) (key p) of Some v \<Rightarrow> v | None \<Rightarrow> new_price)\<lparr>price_guid := key p\<rparr>"

definition set_mem_account :: "Account \<Rightarrow> account_view option \<Rightarrow> ref_world \<Rightarrow> ref_world" where
  "set_mem_account a v w = w\<lparr>rw_mem := (rw_mem w)\<lparr>st_accounts := (st_accounts (rw_mem w))(key a := v)\<rparr>\<rparr>"

definition set_mem_trans :: "Transaction \<Rightarrow> trans_view option \<Rightarrow> ref_world \<Rightarrow> ref_world" where
  "set_mem_trans t v w = w\<lparr>rw_mem := (rw_mem w)\<lparr>st_trans := (st_trans (rw_mem w))(key t := v)\<rparr>\<rparr>"

definition set_mem_split :: "Split \<Rightarrow> split_view option \<Rightarrow> ref_world \<Rightarrow> ref_world" where
  "set_mem_split s v w = w\<lparr>rw_mem := (rw_mem w)\<lparr>st_splits := (st_splits (rw_mem w))(key s := v)\<rparr>\<rparr>"

definition set_mem_price :: "GNCPrice \<Rightarrow> price_view option \<Rightarrow> ref_world \<Rightarrow> ref_world" where
  "set_mem_price p v w = w\<lparr>rw_mem := (rw_mem w)\<lparr>st_prices := (st_prices (rw_mem w))(key p := v)\<rparr>\<rparr>"

definition open_edit :: "edit_target \<Rightarrow> ref_world \<Rightarrow> ref_world" where
  "open_edit t w = w\<lparr>rw_edits := (rw_edits w)(t := rw_edits w t + 1)\<rparr>"

definition close_edit :: "edit_target \<Rightarrow> ref_world \<Rightarrow> ref_world" where
  "close_edit t w = w\<lparr>rw_edits := (rw_edits w)(t := rw_edits w t - 1)\<rparr>"

section \<open>Commits\<close>

text \<open>Of nested edits of an account or a price only the outermost commit is written.\<close>

definition commit_account :: "Account \<Rightarrow> ref_world \<Rightarrow> ref_world" where
  "commit_account a w =
     close_edit (Edit_Account a)
       (if rw_edits w (Edit_Account a) \<le> 1
        then w\<lparr>rw_disk := (rw_disk w)\<lparr>st_accounts := (st_accounts (rw_disk w))(key a := Some (ref_account a w))\<rparr>\<rparr>
        else w)"

definition destroy_account :: "Account \<Rightarrow> ref_world \<Rightarrow> ref_world" where
  "destroy_account a w =
     close_edit (Edit_Account a) (set_mem_account a None
       (w\<lparr>rw_disk := (rw_disk w)\<lparr>st_accounts := (st_accounts (rw_disk w))(key a := None)\<rparr>\<rparr>))"

text \<open>A committed transaction loses its destroyed splits; its other splits are written with it.\<close>

definition live_splits :: "Transaction \<Rightarrow> ref_world \<Rightarrow> Split list" where
  "live_splits t w = filter (\<lambda>s. \<not> split_destroying (ref_split s w)) (xaccTransGetSplitList (ref_trans t w))"

definition save_trans :: "Transaction \<Rightarrow> ref_world \<Rightarrow> ref_world" where
  "save_trans t w =
     (let v = (ref_trans t w)\<lparr>xaccTransGetSplitList := live_splits t w\<rparr>;
          w1 = set_mem_trans t (Some v) w
      in close_edit (Edit_Trans t)
           (w1\<lparr>rw_disk := (rw_disk w)\<lparr>st_trans := (st_trans (rw_disk w))(key t := Some v),
              st_splits := (\<lambda>k. if k \<in> key ` set (live_splits t w)
                                 then Some (ref_split (unat k) w) else st_splits (rw_disk w) k)\<rparr>\<rparr>))"

text \<open>The commit of a destroyed transaction deletes it.\<close>

definition commit_trans :: "Transaction \<Rightarrow> ref_world \<Rightarrow> ref_world" where
  "commit_trans t w =
     (if st_trans (rw_mem w) (key t) = None
      then close_edit (Edit_Trans t) (w\<lparr>rw_disk := (rw_disk w)\<lparr>st_trans := (st_trans (rw_disk w))(key t := None)\<rparr>\<rparr>)
      else save_trans t w)"

definition commit_price :: "GNCPrice \<Rightarrow> ref_world \<Rightarrow> ref_world" where
  "commit_price p w =
     close_edit (Edit_Price p)
       (if rw_edits w (Edit_Price p) \<le> 1
        then w\<lparr>rw_disk := (rw_disk w)\<lparr>st_prices := (st_prices (rw_disk w))(key p := Some (ref_price p w))\<rparr>\<rparr>
        else w)"

section \<open>Calls\<close>

fun ref_do :: "engine_call \<Rightarrow> ref_world \<Rightarrow> ref_world" where
  "ref_do (xaccAccountBeginEdit a) w = open_edit (Edit_Account a) w"
| "ref_do (xaccAccountSetName a s) w = set_mem_account a (Some ((ref_account a w)\<lparr>xaccAccountGetName := Some s\<rparr>)) w"
| "ref_do (xaccAccountSetType a t) w = set_mem_account a (Some ((ref_account a w)\<lparr>xaccAccountGetType := t\<rparr>)) w"
| "ref_do (xaccAccountSetCommodity a c) w = set_mem_account a (Some ((ref_account a w)\<lparr>xaccAccountGetCommodity := Some c\<rparr>)) w"
| "ref_do (xaccAccountSetCode a s) w = set_mem_account a (Some ((ref_account a w)\<lparr>xaccAccountGetCode := Some s\<rparr>)) w"
| "ref_do (xaccAccountSetDescription a s) w = set_mem_account a (Some ((ref_account a w)\<lparr>xaccAccountGetDescription := Some s\<rparr>)) w"
| "ref_do (xaccAccountSetPlaceholder a b) w = set_mem_account a (Some ((ref_account a w)\<lparr>xaccAccountGetPlaceholder := b\<rparr>)) w"
| "ref_do (xaccAccountSetHidden a b) w = set_mem_account a (Some ((ref_account a w)\<lparr>xaccAccountGetHidden := b\<rparr>)) w"
| "ref_do (gnc_account_append_child p a) w = set_mem_account a (Some ((ref_account a w)\<lparr>gnc_account_get_parent := Some p\<rparr>)) w"
| "ref_do (xaccAccountSetReconcileLastDate a t) w = set_mem_account a (Some ((ref_account a w)\<lparr>xaccAccountGetReconcileLastDate := Some t\<rparr>)) w"
| "ref_do (xaccAccountCommitEdit a) w = commit_account a w"
| "ref_do (xaccAccountDestroy a) w = destroy_account a w"
| "ref_do (xaccTransBeginEdit t) w = open_edit (Edit_Trans t) w"
| "ref_do (xaccTransSetCurrency t c) w = set_mem_trans t (Some ((ref_trans t w)\<lparr>xaccTransGetCurrency := Some c\<rparr>)) w"
| "ref_do (xaccTransSetDatePostedGDate t d) w = set_mem_trans t (Some ((ref_trans t w)\<lparr>xaccTransGetDatePostedGDate := d\<rparr>)) w"
| "ref_do (xaccTransSetDateEnteredSecs t n) w = set_mem_trans t (Some ((ref_trans t w)\<lparr>xaccTransGetDateEntered := n\<rparr>)) w"
| "ref_do (xaccTransSetNum t s) w = set_mem_trans t (Some ((ref_trans t w)\<lparr>xaccTransGetNum := Some s\<rparr>)) w"
| "ref_do (xaccTransSetDescription t s) w = set_mem_trans t (Some ((ref_trans t w)\<lparr>xaccTransGetDescription := Some s\<rparr>)) w"
| "ref_do (xaccTransDestroy t) w = set_mem_trans t None w"
| "ref_do (xaccTransCommitEdit t) w = commit_trans t w"
| "ref_do (xaccSplitDestroy s) w = set_mem_split s (Some ((ref_split s w)\<lparr>split_destroying := True\<rparr>)) w"
| "ref_do (xaccSplitSetParent s t) w =
     set_mem_trans t (Some ((ref_trans t w)\<lparr>xaccTransGetSplitList := xaccTransGetSplitList (ref_trans t w) @ [s]\<rparr>))
       (set_mem_split s (Some ((ref_split s w)\<lparr>xaccSplitGetParent := t\<rparr>)) w)"
| "ref_do (xaccSplitSetAccount s a) w = set_mem_split s (Some ((ref_split s w)\<lparr>xaccSplitGetAccount := a\<rparr>)) w"
| "ref_do (xaccSplitSetValue s v) w = set_mem_split s (Some ((ref_split s w)\<lparr>xaccSplitGetValue := v\<rparr>)) w"
| "ref_do (xaccSplitSetAmount s v) w = set_mem_split s (Some ((ref_split s w)\<lparr>xaccSplitGetAmount := v\<rparr>)) w"
| "ref_do (xaccSplitSetMemo s m) w = set_mem_split s (Some ((ref_split s w)\<lparr>xaccSplitGetMemo := Some m\<rparr>)) w"
| "ref_do (xaccSplitSetAction s m) w = set_mem_split s (Some ((ref_split s w)\<lparr>xaccSplitGetAction := Some m\<rparr>)) w"
| "ref_do (xaccSplitSetReconcile s c) w = set_mem_split s (Some ((ref_split s w)\<lparr>xaccSplitGetReconcile := c\<rparr>)) w"
| "ref_do (gnc_price_begin_edit p) w = open_edit (Edit_Price p) w"
| "ref_do (gnc_price_set_commodity p c) w = set_mem_price p (Some ((ref_price p w)\<lparr>gnc_price_get_commodity := c\<rparr>)) w"
| "ref_do (gnc_price_set_currency p c) w = set_mem_price p (Some ((ref_price p w)\<lparr>gnc_price_get_currency := c\<rparr>)) w"
| "ref_do (gnc_price_set_time64 p t) w = set_mem_price p (Some ((ref_price p w)\<lparr>gnc_price_get_time64 := t\<rparr>)) w"
| "ref_do (gnc_price_set_value p v) w = set_mem_price p (Some ((ref_price p w)\<lparr>gnc_price_get_value := v\<rparr>)) w"
| "ref_do (gnc_price_set_source_string p s) w = set_mem_price p (Some ((ref_price p w)\<lparr>gnc_price_get_source_string := Some s\<rparr>)) w"
| "ref_do (gnc_price_commit_edit p) w = commit_price p w"
| "ref_do (gnc_pricedb_add_price p) w = w"
| "ref_do (gnc_price_unref p) w = w"

definition bump :: "ref_world \<Rightarrow> ref_world" where "bump w = w\<lparr>rw_next := rw_next w + 1\<rparr>"

definition euro :: commodity_view where
  "euro = \<lparr>gnc_commodity_get_namespace = ''CURRENCY'', gnc_commodity_get_mnemonic = ''EUR'',
     gnc_commodity_get_fullname = Some ''Euro'', gnc_commodity_get_fraction = 100, gnc_commodity_is_currency = True\<rparr>"

definition ref_engine :: "ref_world engine" where
  "ref_engine =
     \<lparr>lib = ref_lib, account_at = ref_account, split_at = ref_split, trans_at = ref_trans,
      commodity_at = (\<lambda>_ _. euro), price_at = ref_price,
      xaccAccountLookup = (\<lambda>g b w. map_option (\<lambda>_. unat g) (st_accounts (rw_mem w) g)),
      xaccTransLookup = (\<lambda>g b w. map_option (\<lambda>_. unat g) (st_trans (rw_mem w) g)),
      gnc_price_lookup = (\<lambda>g b w. map_option (\<lambda>_. unat g) (st_prices (rw_mem w) g)),
      gnc_commodity_table_lookup = (\<lambda>b ns mn w. if ns = ''CURRENCY'' \<and> mn = ''EUR'' then Some 0 else None),
      gnc_book_get_root_account = (\<lambda>b w. 0),
      xaccMallocAccount = (\<lambda>b w. (rw_next w, set_mem_account (rw_next w) (Some new_account) (bump w))),
      xaccMallocTransaction = (\<lambda>b w. (rw_next w, set_mem_trans (rw_next w) (Some new_trans) (bump w))),
      xaccMallocSplit = (\<lambda>b w. (rw_next w, set_mem_split (rw_next w) (Some new_split) (bump w))),
      gnc_price_create = (\<lambda>b w. (rw_next w, set_mem_price (rw_next w) (Some new_price) (bump w))),
      eng_do = ref_do, edit_level = (\<lambda>t w. rw_edits w t), gnc_time = (\<lambda>w. 1000),
      qof_query_run = (\<lambda>b ts w. live_splits 9 w),
      gnc_account_get_descendants_sorted = (\<lambda>a w. []),
      gnc_commodity_table_get_namespaces = (\<lambda>b w. [''CURRENCY'']),
      gnc_commodity_table_get_commodities = (\<lambda>b ns w. [0]),
      gnc_pricedb_get_prices = (\<lambda>b c q w. []),
      xaccAccountGetBalanceAsOfDateInCurrency = (\<lambda>a t c ch w. gnc_numeric_zero),
      qof_book_is_readonly = (\<lambda>b w. False)\<rparr>"

text \<open>After a kill only the disk is left.\<close>

definition ref_reopened :: "ref_world \<Rightarrow> ref_world" where
  "ref_reopened w = \<lparr>rw_mem = rw_disk w, rw_disk = rw_disk w, rw_edits = (\<lambda>_. 0), rw_next = 0\<rparr>"

definition ref_api :: "ref_world session_api" where
  "ref_api =
     \<lparr>qof_session_new = (\<lambda>w. (1, w)), qof_session_begin = (\<lambda>s u m w. w), qof_session_get_error = (\<lambda>s w. ERR_BACKEND_NO_ERR),
      qof_session_get_error_message = (\<lambda>s w. None), qof_session_load = (\<lambda>s w. ref_reopened w), qof_session_save = (\<lambda>s w. w),
      qof_session_end = (\<lambda>s w. w), qof_session_destroy = (\<lambda>s w. w), qof_session_get_book = (\<lambda>s w. 5),
      backend_error_int = (\<lambda>e. 0)\<rparr>"

section \<open>A book with a root and one child\<close>

definition ref_disk :: ref_store where
  "ref_disk =
     \<lparr>st_accounts = [0 \<mapsto> new_account\<lparr>xaccAccountGetType := ACCT_TYPE_ROOT\<rparr>,
                     1 \<mapsto> new_account\<lparr>xaccAccountGetName := Some ''Cash'', gnc_account_get_parent := Some 0,
                                      xaccAccountGetCommodity := Some 0\<rparr>],
      st_trans = Map.empty, st_splits = Map.empty, st_prices = Map.empty\<rparr>"

definition ref_book :: ref_world where
  "ref_book = \<lparr>rw_mem = ref_disk, rw_disk = ref_disk, rw_edits = (\<lambda>_. 0), rw_next = 7\<rparr>"

definition ref_session :: Session where
  "ref_session = \<lparr>config = \<lparr>book_uri = ''sqlite3:///b'', read_only = False\<rparr>, session_ptr = Some 1, open_flag = True\<rparr>"

lemmas ref_store_defs = set_mem_account_def set_mem_trans_def set_mem_split_def set_mem_price_def open_edit_def close_edit_def bump_def

lemma ref_engine_sel [simp]:
  "lib ref_engine = ref_lib" "account_at ref_engine = ref_account" "split_at ref_engine = ref_split"
  "trans_at ref_engine = ref_trans" "commodity_at ref_engine = (\<lambda>_ _. euro)" "price_at ref_engine = ref_price"
  "eng_do ref_engine = ref_do" "edit_level ref_engine = (\<lambda>t w. rw_edits w t)"
  "xaccAccountLookup ref_engine = (\<lambda>g b w. map_option (\<lambda>_. unat g) (st_accounts (rw_mem w) g))"
  "xaccTransLookup ref_engine = (\<lambda>g b w. map_option (\<lambda>_. unat g) (st_trans (rw_mem w) g))"
  "xaccMallocAccount ref_engine = (\<lambda>b w. (rw_next w, set_mem_account (rw_next w) (Some new_account) (bump w)))"
  "xaccMallocTransaction ref_engine = (\<lambda>b w. (rw_next w, set_mem_trans (rw_next w) (Some new_trans) (bump w)))"
  "xaccMallocSplit ref_engine = (\<lambda>b w. (rw_next w, set_mem_split (rw_next w) (Some new_split) (bump w)))"
  "gnc_commodity_table_lookup ref_engine = (\<lambda>b ns mn w. if ns = ''CURRENCY'' \<and> mn = ''EUR'' then Some 0 else None)"
  "gnc_book_get_root_account ref_engine = (\<lambda>b w. 0)" "qof_query_run ref_engine = (\<lambda>b ts w. live_splits 9 w)"
  "gnc_time ref_engine = (\<lambda>w. 1000)"
  by (simp_all add: ref_engine_def)

lemma key_unat [simp]: "key (unat g) = g"
  by (simp add: key_def)

lemma ref_guids [simp]:
  "account_guid (ref_account a w) = key a" "trans_guid (ref_trans t w) = key t" "split_guid (ref_split s w) = key s"
  by (simp_all add: ref_account_def ref_trans_def ref_split_def)

end
