(* ===== verification/Crash_Recovery.thy ===== *)
theory Crash_Recovery
  imports Reference_Messages Reference_Engine Commodity_Service
begin

text \<open>
  The mutating RPCs against a crash: what the daemon relies on of the engine's edits and of its
  database, that each handler then offers what startup reconciliation needs
  (\<open>recoverable_apply\<close>), and what a client sees who retries after the restart. \<open>reopened w\<close> is
  the engine a restarted daemon loads from the database that a process killed in \<open>w\<close> left.
\<close>

section \<open>What a book shows\<close>

definition book_account :: "'w engine \<Rightarrow> QofBook \<Rightarrow> string \<Rightarrow> 'w \<Rightarrow> AccountMsg option" where
  "book_account eng book guid w =
     (case string_to_guid (lib eng) (c_str guid) of
        None \<Rightarrow> None
      | Some g \<Rightarrow> map_option (\<lambda>a. AccountToProto eng a w) (xaccAccountLookup eng g book w))"

definition book_reconcile_info :: "'w engine \<Rightarrow> QofBook \<Rightarrow> string \<Rightarrow> 'w \<Rightarrow> ReconcileInfo option" where
  "book_reconcile_info eng book guid w =
     (case string_to_guid (lib eng) (c_str guid) of
        None \<Rightarrow> None
      | Some g \<Rightarrow> map_option (\<lambda>a. ReconcileInfoToProto eng a w) (xaccAccountLookup eng g book w))"

definition book_transaction :: "'w engine \<Rightarrow> QofBook \<Rightarrow> string \<Rightarrow> 'w \<Rightarrow> TransactionMsg option" where
  "book_transaction eng book guid w =
     (case string_to_guid (lib eng) (c_str guid) of
        None \<Rightarrow> None
      | Some g \<Rightarrow> map_option (\<lambda>t. TransactionToProto eng t w) (xaccTransLookup eng g book w))"

section \<open>What is assumed of the engine\<close>

text \<open>An account's edit stays in memory until its commit, and allocation writes nothing.\<close>

definition private_account_edits :: "'w engine \<Rightarrow> ('w \<Rightarrow> 'w) \<Rightarrow> bool" where
  "private_account_edits eng reopened \<longleftrightarrow>
     (\<forall>a. private_edits eng reopened (Edit_Account a)) \<and> (\<forall>b. quiet_alloc eng reopened (xaccMallocAccount eng b))"

text \<open>
  The outermost commit of an account's edit is durable when nothing else is being edited: the
  reopened book has the account as it was in memory. An inner commit promises nothing, and
  neither does one while other objects, such as the account's parent or its transactions, have
  changes in memory that are not in the database.
\<close>

definition durable_account_commits :: "'w engine \<Rightarrow> QofBook \<Rightarrow> ('w \<Rightarrow> 'w) \<Rightarrow> bool" where
  "durable_account_commits eng book reopened \<longleftrightarrow>
     (\<forall>a w. only_edit eng (Edit_Account a) w \<longrightarrow>
        (let w' = reopened (eng_do eng (xaccAccountCommitEdit a) w) in
         \<exists>b. xaccAccountLookup eng (account_guid (account_at eng a w)) book w' = Some b \<and>
             AccountToProto eng b w' = AccountToProto eng a w \<and>
             ReconcileInfoToProto eng b w' = ReconcileInfoToProto eng a w))"

text \<open>A destroyed account is gone from the database; \<open>book\<close> is the book in memory, \<open>book'\<close> the reopened one.\<close>

definition durable_account_deletes :: "'w engine \<Rightarrow> QofBook \<Rightarrow> QofBook \<Rightarrow> ('w \<Rightarrow> 'w) \<Rightarrow> bool" where
  "durable_account_deletes eng book book' reopened \<longleftrightarrow>
     (\<forall>g a w. xaccAccountLookup eng g book w = Some a \<longrightarrow>
        xaccAccountLookup eng g book' (reopened (eng_seq eng [xaccAccountBeginEdit a, xaccAccountDestroy a] w)) = None)"

text \<open>
  A transaction's edit that led from \<open>w\<close> to \<open>w1\<close> is atomic: nothing of it is in the database
  before the commit, all of it after, with the splits in the order in which the response lists
  them. The commit of an engine transaction also scrubs it and sorts its splits, so this is asked
  only of the edit at hand, which has the splits of an accepted plan.
\<close>

definition atomic_trans_edit :: "'w engine \<Rightarrow> QofBook \<Rightarrow> ('w \<Rightarrow> 'w) \<Rightarrow> Transaction \<Rightarrow> 'w \<Rightarrow> 'w \<Rightarrow> bool" where
  "atomic_trans_edit eng book reopened t w w1 \<longleftrightarrow>
     reopened w1 = reopened w \<and>
     (let w' = reopened (eng_do eng (xaccTransCommitEdit t) w1) in
      \<exists>u. xaccTransLookup eng (trans_guid (trans_at eng t w1)) book w' = Some u \<and>
          TransactionToProto eng u w' = TransactionToProto eng t w1)"

section \<open>The verdicts of recovery on each RPC\<close>

lemma edit_plan_Ret:
  "edit_plan checks edit x = Ret (r, x1, x2) \<longleftrightarrow> (\<exists>c. checks x = Ret c \<and> edit c x = (r, x1, x2))"
  by (cases "checks x") (auto simp: edit_plan_def)

lemmas parse_back = message_pb_roundtrip_def [THEN iffD1, rule_format]

lemma GuidExists_account: "GuidExists eng book guid GNC_ID_ACCOUNT w \<longleftrightarrow> book_account eng book guid w \<noteq> None"
  by (simp add: GuidExists_def book_account_def split: option.split)

lemma GuidExists_trans: "GuidExists eng book guid GNC_ID_TRANS w \<longleftrightarrow> book_transaction eng book guid w \<noteq> None"
  by (simp add: GuidExists_def book_transaction_def split: option.split)

lemma serialize_inj: "message_pb_roundtrip pb \<Longrightarrow> SerializeAsString pb a = SerializeAsString pb b \<longleftrightarrow> a = b"
  by (metis message_pb_roundtrip_def option.inject)

abbreviation "entry_of mid rpc request pending \<equiv>
  \<lparr>pe_mutation_id = mid, pe_rpc_name = c_str rpc, pe_request_payload = request, pe_pending_response = pending\<rparr>"

lemma create_account_verdict:
  assumes "message_pb_roundtrip (pb_account pbs)"
  shows "WasApplied pbs eng book w (entry_of mid ''daicho.shim.v1.AccountService/CreateAccount'' request
      (SerializeAsString (pb_account pbs) r)) = Some (book_account eng book (am_guid r) w \<noteq> None)"
  using parse_back [OF assms] by (simp add: WasApplied_def ends_with_def c_str_def GuidExists_account)

lemma update_account_verdict:
  assumes "message_pb_roundtrip (pb_account pbs)"
  shows "WasApplied pbs eng book w (entry_of mid ''daicho.shim.v1.AccountService/UpdateAccount'' request
      (SerializeAsString (pb_account pbs) r)) = Some True \<longleftrightarrow> book_account eng book (am_guid r) w = Some r"
  using parse_back [OF assms] serialize_inj [OF assms]
  by (simp add: WasApplied_def ends_with_def c_str_def book_account_def split: option.split)

lemma set_reconcile_info_verdict:
  assumes "message_pb_roundtrip (pb_reconcile_info pbs)"
  shows "WasApplied pbs eng book w (entry_of mid ''daicho.shim.v1.AccountService/SetReconcileInfo'' request
      (SerializeAsString (pb_reconcile_info pbs) r)) = Some True \<longleftrightarrow> book_reconcile_info eng book (ri_account_guid r) w = Some r"
  using parse_back [OF assms] serialize_inj [OF assms]
  by (simp add: WasApplied_def ends_with_def c_str_def book_reconcile_info_def split: option.split)

lemma delete_account_verdict:
  assumes "ParseFromString (pb_delete_account pbs) request = Some req"
  shows "WasApplied pbs eng book w (entry_of mid ''daicho.shim.v1.AccountService/DeleteAccount'' request pending) =
    Some (book_account eng book (dr_guid req) w = None)"
  using assms by (simp add: WasApplied_def ends_with_def c_str_def GuidExists_account)

lemma post_transaction_verdict:
  assumes "message_pb_roundtrip (pb_transaction pbs)"
  shows "WasApplied pbs eng book w (entry_of mid ''daicho.shim.v1.TransactionService/PostTransaction'' request
      (SerializeAsString (pb_transaction pbs) r)) = Some (book_transaction eng book (tm_guid r) w \<noteq> None)"
  using parse_back [OF assms] by (simp add: WasApplied_def ends_with_def c_str_def GuidExists_trans)

lemma update_transaction_verdict:
  assumes "message_pb_roundtrip (pb_transaction pbs)"
  shows "WasApplied pbs eng book w (entry_of mid ''daicho.shim.v1.TransactionService/UpdateTransaction'' request
      (SerializeAsString (pb_transaction pbs) r)) = Some True \<longleftrightarrow> book_transaction eng book (tm_guid r) w = Some r"
  using parse_back [OF assms] serialize_inj [OF assms]
  by (simp add: WasApplied_def ends_with_def c_str_def book_transaction_def split: option.split)

section \<open>The account handlers recover\<close>

lemma commit_shown:
  assumes "durable_account_commits eng book reopened" and "guid_text (lib eng)" and "only_edit eng (Edit_Account a) w"
  shows "book_account eng book (am_guid (AccountToProto eng a w)) (reopened (eng_do eng (xaccAccountCommitEdit a) w)) =
      Some (AccountToProto eng a w)"
    and "book_reconcile_info eng book (ri_account_guid (ReconcileInfoToProto eng a w))
        (reopened (eng_do eng (xaccAccountCommitEdit a) w)) = Some (ReconcileInfoToProto eng a w)"
proof -
  from assms(1,3) obtain b where b:
    "xaccAccountLookup eng (account_guid (account_at eng a w)) book (reopened (eng_do eng (xaccAccountCommitEdit a) w)) = Some b"
    "AccountToProto eng b (reopened (eng_do eng (xaccAccountCommitEdit a) w)) = AccountToProto eng a w"
    "ReconcileInfoToProto eng b (reopened (eng_do eng (xaccAccountCommitEdit a) w)) = ReconcileInfoToProto eng a w"
    unfolding durable_account_commits_def Let_def by blast
  have "am_guid (AccountToProto eng a w) = GuidToString (lib eng) (account_guid (account_at eng a w))"
    "ri_account_guid (ReconcileInfoToProto eng a w) = GuidToString (lib eng) (account_guid (account_at eng a w))"
    by (simp_all add: AccountToProto_def ReconcileInfoToProto_def Let_def)
  with b assms(2) show "book_account eng book (am_guid (AccountToProto eng a w)) (reopened (eng_do eng (xaccAccountCommitEdit a) w)) =
      Some (AccountToProto eng a w)"
    "book_reconcile_info eng book (ri_account_guid (ReconcileInfoToProto eng a w))
        (reopened (eng_do eng (xaccAccountCommitEdit a) w)) = Some (ReconcileInfoToProto eng a w)"
    by (simp_all add: book_account_def book_reconcile_info_def guid_text_def GuidToString_def)
qed

text \<open>Each edit of an account opens it, stays inside it, and commits it.\<close>

definition account_edit_shape ::
  "'w engine \<Rightarrow> 'r \<times> 'w engine_side \<times> 'w engine_side \<Rightarrow> (Account \<Rightarrow> 'w \<Rightarrow> 'r) \<Rightarrow> 'w \<Rightarrow> bool" where
  "account_edit_shape eng planned response w \<longleftrightarrow>
     (\<exists>a cs. (\<forall>c \<in> set cs. in_edit (Edit_Account a) c) \<and>
        (let w1 = eng_seq eng (xaccAccountBeginEdit a # cs) w in
         fst planned = response a w1 \<and> snd (fst (snd planned)) = w1 \<and>
         snd (snd (snd planned)) = eng_do eng (xaccAccountCommitEdit a) w1))"

lemma CreateAccount_edit_shape:
  "account_edit_shape eng (CreateAccount_edit eng spec (book, parent, type, commodity) x) (AccountToProto eng)
     (snd (xaccMallocAccount eng book (snd x)))"
proof -
  obtain a w0 where m: "xaccMallocAccount eng book (snd x) = (a, w0)" by fastforce
  show ?thesis unfolding account_edit_shape_def
    by (rule exI [of _ a], rule exI [of _ "account_setters a spec type commodity @ [gnc_account_append_child parent a]"])
      (simp add: CreateAccount_edit_def Let_def m account_setters_def)
qed

lemma UpdateAccount_edit_shape:
  "account_edit_shape eng (UpdateAccount_edit eng spec (account, type, commodity, new_parent) x) (AccountToProto eng) (snd x)"
proof -
  let ?cs = "account_setters account spec type commodity"
  let ?w0 = "eng_seq eng (xaccAccountBeginEdit account # ?cs) (snd x)"
  let ?move = "if Some new_parent \<noteq> gnc_account_get_parent (account_at eng account ?w0)
     then [gnc_account_append_child new_parent account] else []"
  have "eng_seq eng (xaccAccountBeginEdit account # ?cs @ ?move) (snd x) = eng_seq eng ?move ?w0"
    by (simp add: eng_seq_append)
  then show ?thesis unfolding account_edit_shape_def
    by (intro exI [of _ account] exI [of _ "?cs @ ?move"]) (simp add: UpdateAccount_edit_def Let_def account_setters_def)
qed

lemma SetReconcileInfo_edit_shape:
  "account_edit_shape eng (SetReconcileInfo_edit eng (account, stamp) x) (ReconcileInfoToProto eng) (snd x)"
  unfolding account_edit_shape_def
  by (intro exI [of _ account] exI [of _ "[xaccAccountSetReconcileLastDate account stamp]"])
     (simp add: SetReconcileInfo_edit_def Let_def)

lemma shaped_edit:
  assumes "account_edit_shape eng (r, x1, x2) response w" and "private_account_edits eng reopened" and "idle eng w"
  obtains a where "r = response a (snd x1)" and "only_edit eng (Edit_Account a) (snd x1)" and "reopened (snd x1) = reopened w"
    and "snd x2 = eng_do eng (xaccAccountCommitEdit a) (snd x1)"
proof -
  from assms(1) obtain a cs where cs: "\<forall>c \<in> set cs. in_edit (Edit_Account a) c"
    and w1: "snd x1 = eng_seq eng (begin_edit (Edit_Account a) # cs) w" "r = response a (snd x1)"
      "snd x2 = eng_do eng (xaccAccountCommitEdit a) (snd x1)"
    unfolding account_edit_shape_def Let_def by auto
  have "private_edits eng reopened (Edit_Account a)" using assms(2) by (simp add: private_account_edits_def)
  from private_edit [OF this cs assms(3)] w1 show thesis by (intro that [of a]) simp_all
qed

lemma shaped_account_plan:
  assumes "account_edit_shape eng (r, x1, x2) (AccountToProto eng) w" and "private_account_edits eng reopened"
    and "durable_account_commits eng book reopened" and "guid_text (lib eng)" and "idle eng w"
  shows "reopened (snd x1) = reopened w" and "book_account eng book (am_guid r) (reopened (snd x2)) = Some r"
proof -
  from shaped_edit [OF assms(1,2,5)] obtain a where "r = AccountToProto eng a (snd x1)" "only_edit eng (Edit_Account a) (snd x1)"
    "reopened (snd x1) = reopened w" "snd x2 = eng_do eng (xaccAccountCommitEdit a) (snd x1)" .
  with commit_shown(1) [OF assms(3,4)] show "reopened (snd x1) = reopened w"
    "book_account eng book (am_guid r) (reopened (snd x2)) = Some r" by auto
qed

lemma CreateAccount_plan:
  assumes "edit_plan (CreateAccount_checks eng api spec) (CreateAccount_edit eng spec) x = Ret (r, x1, x2)"
    and "private_account_edits eng reopened" and "durable_account_commits eng book reopened" and "guid_text (lib eng)"
    and "idle eng (snd x)"
  shows "reopened (snd x1) = reopened (snd x)" and "book_account eng book (am_guid r) (reopened (snd x2)) = Some r"
proof -
  from assms(1) obtain b p t c where e: "CreateAccount_edit eng spec (b, p, t, c) x = (r, x1, x2)"
    by (auto simp: edit_plan_Ret)
  have "reopened (snd (xaccMallocAccount eng b (snd x))) = reopened (snd x)" and i: "idle eng (snd (xaccMallocAccount eng b (snd x)))"
    using assms(2,5) by (simp_all add: private_account_edits_def quiet_alloc_def)
  with shaped_account_plan [OF CreateAccount_edit_shape [of eng spec b p t c x, unfolded e] assms(2-4) i]
  show "reopened (snd x1) = reopened (snd x)" "book_account eng book (am_guid r) (reopened (snd x2)) = Some r" by simp_all
qed

lemma UpdateAccount_plan:
  assumes "edit_plan (UpdateAccount_checks eng api spec) (UpdateAccount_edit eng spec) x = Ret (r, x1, x2)"
    and "private_account_edits eng reopened" and "durable_account_commits eng book reopened" and "guid_text (lib eng)"
    and "idle eng (snd x)"
  shows "reopened (snd x1) = reopened (snd x)" and "book_account eng book (am_guid r) (reopened (snd x2)) = Some r"
proof -
  from assms(1) obtain a t c p where e: "UpdateAccount_edit eng spec (a, t, c, p) x = (r, x1, x2)"
    by (auto simp: edit_plan_Ret)
  from shaped_account_plan [OF UpdateAccount_edit_shape [of eng spec a t c p x, unfolded e] assms(2-5)]
  show "reopened (snd x1) = reopened (snd x)" "book_account eng book (am_guid r) (reopened (snd x2)) = Some r" by simp_all
qed

lemma SetReconcileInfo_plan:
  assumes "edit_plan (SetReconcileInfo_checks eng api request) (SetReconcileInfo_edit eng) x = Ret (r, x1, x2)"
    and "private_account_edits eng reopened" and "durable_account_commits eng book reopened" and "guid_text (lib eng)"
    and "idle eng (snd x)"
  shows "reopened (snd x1) = reopened (snd x)"
    and "book_reconcile_info eng book (ri_account_guid r) (reopened (snd x2)) = Some r"
proof -
  from assms(1) obtain a s where e: "SetReconcileInfo_edit eng (a, s) x = (r, x1, x2)" by (auto simp: edit_plan_Ret)
  from shaped_edit [OF SetReconcileInfo_edit_shape [of eng a s x, unfolded e] assms(2,5)]
  obtain a where "r = ReconcileInfoToProto eng a (snd x1)" "only_edit eng (Edit_Account a) (snd x1)"
    "reopened (snd x1) = reopened (snd x)" "snd x2 = eng_do eng (xaccAccountCommitEdit a) (snd x1)" .
  with commit_shown(2) [OF assms(3,4)] show "reopened (snd x1) = reopened (snd x)"
    "book_reconcile_info eng book (ri_account_guid r) (reopened (snd x2)) = Some r" by auto
qed

lemma DeleteAccount_plan:
  assumes "edit_plan (DeleteAccount_checks eng api guid) (DeleteAccount_edit eng) x = Ret (r, x1, x2)"
    and "Session_book api x = Inr book" and "durable_account_deletes eng book book' reopened"
  shows "x1 = x" and "book_account eng book' guid (reopened (snd x2)) = None"
proof -
  from assms(1,2) obtain a where a: "FindAccount eng book guid ''guid'' (snd x) = Inr a" "DeleteAccount_edit eng a x = (r, x1, x2)"
    by (auto simp: edit_plan_Ret DeleteAccount_checks_def attempt_eq_Ret)
  from a(1) obtain g where g: "string_to_guid (lib eng) (c_str guid) = Some g" "xaccAccountLookup eng g book (snd x) = Some a"
    by (auto simp: FindAccount_eq_Inr)
  from a(2) have x: "x1 = x" "snd x2 = eng_seq eng [xaccAccountBeginEdit a, xaccAccountDestroy a] (snd x)"
    by (auto simp: DeleteAccount_edit_def)
  show "x1 = x" by (rule x)
  show "book_account eng book' guid (reopened (snd x2)) = None"
    using assms(3) g unfolding durable_account_deletes_def x(2) book_account_def by (simp del: eng_seq_simps)
qed

lemma judgedI:
  assumes "planned_apply f plan"
    and "\<And>x r x1 x2. pre x \<Longrightarrow> plan x = Ret (r, x1, x2) \<Longrightarrow> reopened x1 = reopened x"
    and "\<And>w mid r. WasApplied pbs eng book w (entry_of mid rpc req (SerializeAsString rpb r)) = Some True \<longleftrightarrow> shown r w"
  shows "judged_apply f plan pre rpb rpc req pbs eng book reopened shown"
  by (rule judged_apply.intro [OF assms(1)], rule judged_apply_axioms.intro) (rule assms(2,3); assumption)+

lemma recoverableI:
  assumes "planned_apply f plan"
    and "\<And>x r x1 x2. pre x \<Longrightarrow> plan x = Ret (r, x1, x2) \<Longrightarrow> reopened x1 = reopened x"
    and "\<And>x r x1 x2. pre x \<Longrightarrow> plan x = Ret (r, x1, x2) \<Longrightarrow> shown r (reopened x2)"
    and "\<And>w mid r. WasApplied pbs eng book w (entry_of mid rpc req (SerializeAsString rpb r)) = Some True \<longleftrightarrow> shown r w"
  shows "recoverable_apply f plan pre rpb rpc req pbs eng book reopened shown"
  by (rule recoverable_apply.intro [OF judgedI [OF assms(1,2,4)]], assumption, assumption, rule recoverable_apply_axioms.intro)
     (rule assms(3); assumption)

lemma CreateAccount_recoverable:
  assumes "private_account_edits eng reopened" and "durable_account_commits eng book reopened"
    and "guid_text (lib eng)" and "message_pb_roundtrip (pb_account pbs)"
  shows "recoverable_apply (CreateAccount_apply eng api request)
     (edit_plan (CreateAccount_checks eng api (ar_account request)) (CreateAccount_edit eng (ar_account request)))
     (\<lambda>x. idle eng (snd x)) (pb_account pbs) ''daicho.shim.v1.AccountService/CreateAccount'' req pbs eng book (reopened \<circ> snd)
     (\<lambda>r w. book_account eng book (am_guid r) w \<noteq> None)"
  by (rule recoverableI [OF create_account.planned_apply_axioms])
     (simp_all add: CreateAccount_plan [OF _ assms(1-3)] create_account_verdict [OF assms(4)])

lemma UpdateAccount_recoverable:
  assumes "private_account_edits eng reopened" and "durable_account_commits eng book reopened"
    and "guid_text (lib eng)" and "message_pb_roundtrip (pb_account pbs)"
  shows "recoverable_apply (UpdateAccount_apply eng api request)
     (edit_plan (UpdateAccount_checks eng api (ar_account request)) (UpdateAccount_edit eng (ar_account request)))
     (\<lambda>x. idle eng (snd x)) (pb_account pbs) ''daicho.shim.v1.AccountService/UpdateAccount'' req pbs eng book (reopened \<circ> snd)
     (\<lambda>r w. book_account eng book (am_guid r) w = Some r)"
  by (rule recoverableI [OF update_account.planned_apply_axioms])
     (simp_all add: UpdateAccount_plan [OF _ assms(1-3)] update_account_verdict [OF assms(4)])

lemma SetReconcileInfo_recoverable:
  assumes "private_account_edits eng reopened" and "durable_account_commits eng book reopened"
    and "guid_text (lib eng)" and "message_pb_roundtrip (pb_reconcile_info pbs)"
  shows "recoverable_apply (SetReconcileInfo_apply eng api request)
     (edit_plan (SetReconcileInfo_checks eng api request) (SetReconcileInfo_edit eng))
     (\<lambda>x. idle eng (snd x)) (pb_reconcile_info pbs) ''daicho.shim.v1.AccountService/SetReconcileInfo'' req pbs eng book (reopened \<circ> snd)
     (\<lambda>r w. book_reconcile_info eng book (ri_account_guid r) w = Some r)"
  by (rule recoverableI [OF set_reconcile_info.planned_apply_axioms])
     (simp_all add: SetReconcileInfo_plan [OF _ assms(1-3)] set_reconcile_info_verdict [OF assms(4)])

lemma DeleteAccount_recoverable:
  assumes "durable_account_deletes eng book book' reopened" and "ParseFromString (pb_delete_account pbs) req = Some request"
  shows "recoverable_apply (DeleteAccount_apply eng api request)
     (edit_plan (DeleteAccount_checks eng api (dr_guid request)) (DeleteAccount_edit eng))
     (\<lambda>x. Session_book api x = Inr book) rpb ''daicho.shim.v1.AccountService/DeleteAccount'' req pbs eng book' (reopened \<circ> snd)
     (\<lambda>_ w. book_account eng book' (dr_guid request) w = None)"
  by (rule recoverableI [OF delete_account.planned_apply_axioms])
     (auto simp: delete_account_verdict [OF assms(2)] dest: DeleteAccount_plan [OF _ _ assms(1)])

section \<open>The transaction handlers recover\<close>

lemma atomic_edit_shown:
  assumes "atomic_trans_edit eng book reopened t w w1" and "guid_text (lib eng)"
  shows "reopened w1 = reopened w"
    and "book_transaction eng book (tm_guid (TransactionToProto eng t w1)) (reopened (eng_do eng (xaccTransCommitEdit t) w1)) =
      Some (TransactionToProto eng t w1)"
proof -
  have "tm_guid (TransactionToProto eng t w1) = GuidToString (lib eng) (trans_guid (trans_at eng t w1))"
    by (simp add: TransactionToProto_def Let_def)
  with assms show "reopened w1 = reopened w"
    "book_transaction eng book (tm_guid (TransactionToProto eng t w1)) (reopened (eng_do eng (xaccTransCommitEdit t) w1)) =
      Some (TransactionToProto eng t w1)"
    unfolding atomic_trans_edit_def Let_def by (auto simp: book_transaction_def guid_text_def GuidToString_def)
qed

text \<open>The edit of \<^verbatim>\<open>PostTransaction\<close> from a state is atomic.\<close>

definition atomic_post :: "'w engine \<Rightarrow> QofBook \<Rightarrow> ('w \<Rightarrow> 'w) \<Rightarrow> QofBook \<times> TransactionPlan \<Rightarrow> 'w engine_side \<Rightarrow> bool" where
  "atomic_post eng book' reopened c x \<longleftrightarrow>
     (case PostTransaction_edit eng c x of (r, x1, x2) \<Rightarrow>
        atomic_trans_edit eng book' reopened (fst (xaccMallocTransaction eng (fst c) (snd x))) (snd x) (snd x1))"

text \<open>
  Of the edit of \<^verbatim>\<open>UpdateTransaction\<close> only the first half is asked: before its commit the database is
  as it was. What the commit makes of the transaction, and how it is serialised afterwards, is
  left open.
\<close>

definition uncommitted_update ::
  "'w engine \<Rightarrow> ('w \<Rightarrow> 'w) \<Rightarrow> QofBook \<times> Transaction \<times> TransactionPlan \<Rightarrow> 'w engine_side \<Rightarrow> bool" where
  "uncommitted_update eng reopened c x \<longleftrightarrow>
     (case UpdateTransaction_edit eng c x of (r, x1, x2) \<Rightarrow> reopened (snd x1) = reopened (snd x))"

lemma PostTransaction_plan:
  assumes "edit_plan (PostTransaction_checks eng api hash_order spec) (PostTransaction_edit eng) x = Ret (r, x1, x2)"
    and "\<And>c. PostTransaction_checks eng api hash_order spec x = Ret c \<Longrightarrow> atomic_post eng book' reopened c x"
    and "guid_text (lib eng)"
  shows "reopened (snd x1) = reopened (snd x)" and "book_transaction eng book' (tm_guid r) (reopened (snd x2)) = Some r"
proof -
  from assms(1) obtain b p where c: "PostTransaction_checks eng api hash_order spec x = Ret (b, p)"
    "PostTransaction_edit eng (b, p) x = (r, x1, x2)" by (auto simp: edit_plan_Ret)
  let ?t = "fst (xaccMallocTransaction eng b (snd x))"
  have "r = TransactionToProto eng ?t (snd x1)" "snd x2 = eng_do eng (xaccTransCommitEdit ?t) (snd x1)"
    using c(2) by (auto simp: PostTransaction_edit_def Let_def split: prod.splits)
  moreover have "atomic_trans_edit eng book' reopened ?t (snd x) (snd x1)"
    using assms(2) [OF c(1)] c(2) by (simp add: atomic_post_def)
  ultimately show "reopened (snd x1) = reopened (snd x)" "book_transaction eng book' (tm_guid r) (reopened (snd x2)) = Some r"
    using atomic_edit_shown [OF _ assms(3)] by auto
qed

lemma PostTransaction_recoverable:
  assumes "guid_text (lib eng)" and "message_pb_roundtrip (pb_transaction pbs)"
  shows "recoverable_apply (PostTransaction_apply eng api hash_order request)
     (edit_plan (PostTransaction_checks eng api hash_order (tr_transaction request)) (PostTransaction_edit eng))
     (\<lambda>x. \<forall>c. PostTransaction_checks eng api hash_order (tr_transaction request) x = Ret c \<longrightarrow> atomic_post eng book' reopened c x)
     (pb_transaction pbs) ''daicho.shim.v1.TransactionService/PostTransaction'' req pbs eng book' (reopened \<circ> snd)
     (\<lambda>r w. book_transaction eng book' (tm_guid r) w \<noteq> None)"
  by (rule recoverableI [OF post_transaction.planned_apply_axioms])
     (auto simp: post_transaction_verdict [OF assms(2)] dest: PostTransaction_plan [OF _ _ assms(1)])

lemma UpdateTransaction_shown:
  assumes "UpdateTransaction_edit eng c x = (r, x1, x2)" and "guid_text (lib eng)"
    and "atomic_trans_edit eng book' reopened (fst (snd c)) (snd x) (snd x1)"
  shows "book_transaction eng book' (tm_guid r) (reopened (snd x2)) = Some r"
proof -
  obtain b t plan where c: "c = (b, t, plan)" by (cases c)
  have "r = TransactionToProto eng t (snd x1)" "snd x2 = eng_do eng (xaccTransCommitEdit t) (snd x1)"
    using assms(1) by (auto simp: c UpdateTransaction_edit_def Let_def)
  with atomic_edit_shown(2) [OF assms(3,2)] show ?thesis by (simp add: c)
qed

lemma UpdateTransaction_judged:
  assumes "message_pb_roundtrip (pb_transaction pbs)"
  shows "judged_apply (UpdateTransaction_apply eng api hash_order request)
     (edit_plan (UpdateTransaction_checks eng api hash_order (tr_transaction request)) (UpdateTransaction_edit eng))
     (\<lambda>x. \<forall>c. UpdateTransaction_checks eng api hash_order (tr_transaction request) x = Ret c \<longrightarrow> uncommitted_update eng reopened c x)
     (pb_transaction pbs) ''daicho.shim.v1.TransactionService/UpdateTransaction'' req pbs eng book' (reopened \<circ> snd)
     (\<lambda>r w. book_transaction eng book' (tm_guid r) w = Some r)"
  by (rule judgedI [OF update_transaction.planned_apply_axioms])
     (auto simp: update_transaction_verdict [OF assms] edit_plan_Ret uncommitted_update_def)

section \<open>The reference engine has these laws\<close>

text \<open>Only a commit writes the disk, and what is reopened is the disk.\<close>

lemma ref_do_disk:
  "in_edit t c \<Longrightarrow> rw_disk (ref_do c w) = rw_disk w" "in_edit t c \<Longrightarrow> rw_edits (ref_do c w) = rw_edits w"
  by (cases t; cases c; simp add: ref_store_defs)+

lemma ref_begin_disk:
  "rw_disk (ref_do (begin_edit t) w) = rw_disk w" "rw_edits (ref_do (begin_edit t) w) = (rw_edits w)(t := rw_edits w t + 1)"
  by (cases t; simp add: open_edit_def)+

lemma ref_reopened_disk: "rw_disk w = rw_disk w' \<Longrightarrow> ref_reopened w = ref_reopened w'"
  by (simp add: ref_reopened_def)

lemma ref_malloc_disk:
  "rw_disk (set_mem_account a v (bump w)) = rw_disk w" "rw_disk (set_mem_trans t tv (bump w)) = rw_disk w"
  "rw_disk (set_mem_split s sv (bump w)) = rw_disk w"
  by (simp_all add: ref_store_defs)

lemma ref_private_edits: "private_edits ref_engine ref_reopened t"
  using ref_begin_disk [of t] ref_do_disk [of t] by (auto simp: private_edits_def intro: ref_reopened_disk)

lemma ref_private_account_edits: "private_account_edits ref_engine ref_reopened"
  by (auto simp: private_account_edits_def ref_private_edits quiet_alloc_def idle_def ref_malloc_disk ref_store_defs
      intro!: ref_reopened_disk)

lemma ref_account_key: "key a = key b \<Longrightarrow> ref_account a w = ref_account b w"
  by (simp add: ref_account_def)

lemma ref_split_key: "key a = key b \<Longrightarrow> ref_split a w = ref_split b w"
  by (simp add: ref_split_def)

lemma ref_durable_account_commits: "durable_account_commits ref_engine book ref_reopened"
  unfolding durable_account_commits_def Let_def
proof (intro allI impI)
  fix a w
  let ?w' = "ref_reopened (eng_do ref_engine (xaccAccountCommitEdit a) w)"
  let ?b = "unat (key a)"
  assume "only_edit ref_engine (Edit_Account a) w"
  then have level: "rw_edits w (Edit_Account a) = 1" by (simp add: only_edit_def)
  have v: "ref_account ?b ?w' = ref_account a w"
    by (simp add: ref_account_def ref_reopened_def commit_account_def close_edit_def level)
  have "xaccAccountLookup ref_engine (account_guid (account_at ref_engine a w)) book ?w' = Some ?b"
    by (simp add: ref_reopened_def commit_account_def close_edit_def level)
  moreover have "AccountToProto ref_engine ?b ?w' = AccountToProto ref_engine a w"
    using v by (simp add: AccountToProto_def CommodityIdToProto_def Let_def split: option.split)
  moreover have "ReconcileInfoToProto ref_engine ?b ?w' = ReconcileInfoToProto ref_engine a w"
    using v by (simp add: ReconcileInfoToProto_def Let_def)
  ultimately show "\<exists>b. xaccAccountLookup ref_engine (account_guid (account_at ref_engine a w)) book ?w' = Some b \<and>
      AccountToProto ref_engine b ?w' = AccountToProto ref_engine a w \<and>
      ReconcileInfoToProto ref_engine b ?w' = ReconcileInfoToProto ref_engine a w" by blast
qed

lemma ref_durable_account_deletes: "durable_account_deletes ref_engine book book' ref_reopened"
  by (auto simp: durable_account_deletes_def ref_reopened_def destroy_account_def ref_store_defs key_def)

lemma ref_commit_trans_atomic:
  assumes "rw_disk w1 = rw_disk w" and there: "st_trans (rw_mem w1) (key t) \<noteq> None"
  shows "atomic_trans_edit ref_engine book ref_reopened t w w1"
proof -
  let ?w' = "ref_reopened (eng_do ref_engine (xaccTransCommitEdit t) w1)"
  let ?u = "unat (key t)"
  have v: "ref_trans ?u ?w' = (ref_trans t w1)\<lparr>xaccTransGetSplitList := live_splits t w1\<rparr>"
    by (simp add: ref_trans_def ref_reopened_def commit_trans_def save_trans_def there ref_store_defs Let_def)
  have sp: "ref_split s ?w' = ref_split s w1" if "s \<in> set (live_splits t w1)" for s
    using that ref_split_key [of "unat (key s)" s w1]
    by (simp add: ref_split_def [of s ?w'] ref_reopened_def commit_trans_def save_trans_def there ref_store_defs Let_def) (simp add: ref_split_def)
  have "TransactionToProto ref_engine ?u ?w' = TransactionToProto ref_engine t w1"
  proof -
    have "\<not> split_destroying (ref_split s ?w')" if "s \<in> set (live_splits t w1)" for s
      unfolding sp [OF that] using that by (simp add: live_splits_def)
    then have "filter (\<lambda>s. \<not> split_destroying (ref_split s ?w')) (live_splits t w1) = live_splits t w1"
      by (simp add: filter_True)
    moreover have "SplitToProto ref_engine s ?w' = SplitToProto ref_engine s w1" if "s \<in> set (live_splits t w1)" for s
      using sp [OF that] by (simp add: SplitToProto_def Let_def)
    ultimately show ?thesis
      using v by (simp add: TransactionToProto_def Let_def CommodityIdToProto_def) (simp add: live_splits_def)
  qed
  moreover have "xaccTransLookup ref_engine (trans_guid (trans_at ref_engine t w1)) book ?w' = Some ?u"
    by (simp add: ref_reopened_def commit_trans_def save_trans_def there ref_store_defs Let_def)
  ultimately show ?thesis using assms by (auto simp: atomic_trans_edit_def Let_def intro: ref_reopened_disk)
qed

lemma ref_seq_disk: "\<forall>c \<in> set cs. in_edit t c \<Longrightarrow> rw_disk (eng_seq ref_engine cs w) = rw_disk w"
  by (induction cs arbitrary: w) (simp_all add: ref_do_disk(1) [of t])

lemma ref_apply_split_disk: "rw_disk (apply_split ref_engine book t p w) = rw_disk w"
proof -
  have "\<forall>c \<in> set (split_setters s p). in_edit (Edit_Trans t) c" for s by (simp add: split_setters_def)
  from ref_seq_disk [OF this] show ?thesis
    by (cases "sp_existing p") (simp_all add: apply_split_def Let_def ref_store_defs)
qed

lemma ref_ApplyPlan_disk: "rw_disk (ApplyPlan ref_engine book t plan w) = rw_disk w"
proof -
  have "\<forall>c \<in> set (trans_setters t plan @ map xaccSplitDestroy (tp_doomed plan)). in_edit (Edit_Trans t) c"
    by (auto simp: trans_setters_def)
  note start = ref_seq_disk [OF this]
  have "rw_disk (fold (apply_split ref_engine book t) ps w') = rw_disk w'" for ps w'
    by (induction ps arbitrary: w') (simp_all add: ref_apply_split_disk)
  with start show ?thesis by (simp add: ApplyPlan_def)
qed

text \<open>Carrying out a plan leaves the transaction in memory.\<close>

lemma ref_ApplyPlan_there: "st_trans (rw_mem (ApplyPlan ref_engine book t plan w)) (key t) \<noteq> None"
proof -
  have split: "st_trans (rw_mem (eng_seq ref_engine (split_setters s p) w')) = st_trans (rw_mem w')" for s p w'
    by (simp add: split_setters_def set_mem_split_def)
  have one: "st_trans (rw_mem (apply_split ref_engine book t p w')) (key t) \<noteq> None"
    if "st_trans (rw_mem w') (key t) \<noteq> None" for p w'
    using that by (cases "sp_existing p") (simp_all add: apply_split_def Let_def split, simp_all add: ref_store_defs)
  have "st_trans (rw_mem (fold (apply_split ref_engine book t) ps w')) (key t) \<noteq> None"
    if "st_trans (rw_mem w') (key t) \<noteq> None" for ps w'
    using that by (induction ps arbitrary: w') (use one in simp_all)
  moreover have "st_trans (rw_mem (eng_seq ref_engine (map xaccSplitDestroy ds) w')) = st_trans (rw_mem w')" for ds w'
    by (induction ds arbitrary: w') (simp_all add: set_mem_split_def)
  ultimately show ?thesis by (simp add: ApplyPlan_def eng_seq_append) (simp add: trans_setters_def set_mem_trans_def)
qed

lemma ref_atomic_post: "atomic_post ref_engine book' ref_reopened c x"
  unfolding atomic_post_def PostTransaction_edit_def
  by (simp add: Let_def split_beta ref_ApplyPlan_disk ref_malloc_disk open_edit_def ref_commit_trans_atomic ref_ApplyPlan_there)

lemma ref_uncommitted_update: "uncommitted_update ref_engine ref_reopened c x"
  unfolding uncommitted_update_def UpdateTransaction_edit_def
  by (auto simp: Let_def split_beta ref_ApplyPlan_disk open_edit_def intro: ref_reopened_disk)

lemma ref_committed_update:
  assumes "UpdateTransaction_edit ref_engine c x = (r, x1, x2)"
  shows "atomic_trans_edit ref_engine book' ref_reopened (fst (snd c)) (snd x) (snd x1)"
    and "book_transaction ref_engine book' (tm_guid r) (ref_reopened (snd x2)) = Some r"
proof -
  obtain b t plan where c: "c = (b, t, plan)" by (cases c)
  have w1: "snd x1 = ApplyPlan ref_engine b t plan (open_edit (Edit_Trans t) (snd x))"
    using assms by (auto simp: c UpdateTransaction_edit_def Let_def)
  show atomic: "atomic_trans_edit ref_engine book' ref_reopened (fst (snd c)) (snd x) (snd x1)"
    unfolding w1 c by (simp, rule ref_commit_trans_atomic) (simp_all add: ref_ApplyPlan_disk open_edit_def ref_ApplyPlan_there)
  show "book_transaction ref_engine book' (tm_guid r) (ref_reopened (snd x2)) = Some r"
    by (rule UpdateTransaction_shown [OF assms _ atomic]) simp
qed

text \<open>
  On the reference engine, whose commits keep a transaction as it is, updates are recovered too:
  the judged handler gives the recoverable one.
\<close>

interpretation ref_update_trans: recoverable_apply "UpdateTransaction_apply ref_engine api hash_order request"
  "edit_plan (UpdateTransaction_checks ref_engine api hash_order (tr_transaction request)) (UpdateTransaction_edit ref_engine)"
  "\<lambda>x. \<forall>c. UpdateTransaction_checks ref_engine api hash_order (tr_transaction request) x = Ret c \<longrightarrow>
     uncommitted_update ref_engine ref_reopened c x"
  "pb_transaction ref_pbs" "''daicho.shim.v1.TransactionService/UpdateTransaction''" req ref_pbs ref_engine book'
  "ref_reopened \<circ> snd" "\<lambda>r w. book_transaction ref_engine book' (tm_guid r) w = Some r"
  for api hash_order request req book'
  by (rule recoverable_apply.intro [OF UpdateTransaction_judged], simp, rule recoverable_apply_axioms.intro)
     (auto simp: edit_plan_Ret dest: ref_committed_update(2))

interpretation ref_create: recoverable_apply "CreateAccount_apply ref_engine api request"
  "edit_plan (CreateAccount_checks ref_engine api (ar_account request)) (CreateAccount_edit ref_engine (ar_account request))"
  "\<lambda>x. idle ref_engine (snd x)" "pb_account ref_pbs" "''daicho.shim.v1.AccountService/CreateAccount''" req ref_pbs ref_engine book
  "ref_reopened \<circ> snd" "\<lambda>r w. book_account ref_engine book (am_guid r) w \<noteq> None"
  for api request req book
  by (rule CreateAccount_recoverable) (simp_all add: ref_private_account_edits ref_durable_account_commits)

interpretation ref_update: recoverable_apply "UpdateAccount_apply ref_engine api request"
  "edit_plan (UpdateAccount_checks ref_engine api (ar_account request)) (UpdateAccount_edit ref_engine (ar_account request))"
  "\<lambda>x. idle ref_engine (snd x)" "pb_account ref_pbs" "''daicho.shim.v1.AccountService/UpdateAccount''" req ref_pbs ref_engine book
  "ref_reopened \<circ> snd" "\<lambda>r w. book_account ref_engine book (am_guid r) w = Some r"
  for api request req book
  by (rule UpdateAccount_recoverable) (simp_all add: ref_private_account_edits ref_durable_account_commits)

interpretation ref_set_reconcile_info: recoverable_apply "SetReconcileInfo_apply ref_engine api request"
  "edit_plan (SetReconcileInfo_checks ref_engine api request) (SetReconcileInfo_edit ref_engine)"
  "\<lambda>x. idle ref_engine (snd x)" "pb_reconcile_info ref_pbs" "''daicho.shim.v1.AccountService/SetReconcileInfo''" req ref_pbs ref_engine book
  "ref_reopened \<circ> snd" "\<lambda>r w. book_reconcile_info ref_engine book (ri_account_guid r) w = Some r"
  for api request req book
  by (rule SetReconcileInfo_recoverable) (simp_all add: ref_private_account_edits ref_durable_account_commits)

interpretation ref_delete: recoverable_apply "DeleteAccount_apply ref_engine api request"
  "edit_plan (DeleteAccount_checks ref_engine api (dr_guid request)) (DeleteAccount_edit ref_engine)"
  "\<lambda>x. Session_book api x = Inr book" rpb "''daicho.shim.v1.AccountService/DeleteAccount''"
  "SerializeAsString (pb_delete_account ref_pbs) request" ref_pbs ref_engine book'
  "ref_reopened \<circ> snd" "\<lambda>_ w. book_account ref_engine book' (dr_guid request) w = None"
  for api request rpb book book'
  by (rule DeleteAccount_recoverable) (simp_all add: ref_durable_account_deletes parse_back)

section \<open>Properties\<close>

text \<open>
  The setting of the crash properties: a call under a valid id that was never used, on a healthy
  journal, in a daemon that dies at one of the four crash points of the protocol (after the intent,
  after the pending record, after the commit and after the outcome: \<^verbatim>\<open>DAICHOD_CRASH_AT\<close>), and a
  restarted daemon that does not die.
\<close>

definition crash_setting :: "mutation_env \<Rightarrow> mutation_env \<Rightarrow> row_order \<Rightarrow> string \<Rightarrow> string \<Rightarrow> Journal \<Rightarrow> bool" where
  "crash_setting env env' order_by point mid j \<longleftrightarrow>
     ValidateMutationId mid = Inr () \<and> journal_inv (env_outcome_pb env) j \<and> intent_of j mid = None \<and>
     outcome_pb_roundtrip (env_outcome_pb env) \<and> no_faults (env_sqlite env) \<and>
     env_crash_at env = Some point \<and> point \<in> set crash_points \<and>
     no_faults (env_sqlite env') \<and> env_outcome_pb env' = env_outcome_pb env \<and> env_crash_at env' = None \<and>
     sql_order_by order_by"

lemma if_cases: "(if c then p else q) \<Longrightarrow> (p \<Longrightarrow> p') \<Longrightarrow> (q \<Longrightarrow> q') \<Longrightarrow> if c then p' else q'"
  by (simp split: if_splits)

lemma RunMutation_of_body:
  "RunMutation_body env rpb mid request rpc apply_fn s = (Abort, s') \<Longrightarrow>
     RunMutation env None rpb mid request rpc apply_fn s = (Abort, s')"
  "RunMutation_body env rpb mid request rpc apply_fn s = (Ret r, s') \<Longrightarrow>
     RunMutation env None rpb mid request rpc apply_fn s = (Ret (Status_OK, Some r), s')"
  by (simp_all add: RunMutation_def RunRpc_def)

context judged_apply
begin

lemma crash_setting_judged:
  assumes "crash_setting env env' order_by point mid j" and "message_pb_roundtrip rpb"
    and "pre x" and "plan x = Ret (r, x1, x2)"
  shows "\<exists>j' x' n j''. RunMutation env None rpb mid request rpc apply_fn (j, x) = (Abort, (j', x')) \<and>
     ReconcilePendingMutations env' order_by pbs eng now book (reopened x') j' = (Ret n, j'') \<and>
     x' = (if point = ''after_intent'' then x else if point = ''after_pending'' then x1 else x2) \<and>
     (point = ''after_intent'' \<or> point = ''after_pending'' \<longrightarrow> reopened x' = reopened x) \<and>
     (if point = ''after_outcome'' \<or> (point \<noteq> ''after_intent'' \<and> shown r (reopened x'))
      then \<forall>y. RunMutation env' None rpb mid request rpc apply_fn (j'', y) = (Ret (Status_OK, Some r), (j'', y))
      else outcome_of j'' mid = None \<and> pending_of j'' mid = None)"
proof -
  from assms(1) have "\<exists>j' x' n j''. RunMutation_body env rpb mid request rpc apply_fn (j, x) = (Abort, (j', x')) \<and>
     ReconcilePendingMutations env' order_by pbs eng now book (reopened x') j' = (Ret n, j'') \<and> journal_ok j'' \<and>
     x' = (if point = ''after_intent'' then x else if point = ''after_pending'' then x1 else x2) \<and>
     (point = ''after_intent'' \<or> point = ''after_pending'' \<longrightarrow> reopened x' = reopened x) \<and>
     (if point = ''after_outcome'' \<or> (point \<noteq> ''after_intent'' \<and> shown r (reopened x'))
      then \<forall>y. RunMutation_body env' rpb mid request rpc apply_fn (j'', y) = (Ret r, (j'', y))
      else outcome_of j'' mid = None \<and> pending_of j'' mid = None)"
    unfolding crash_setting_def by (intro crash_judged assms(2-4)) simp_all
  then obtain j' x' n j'' where run: "RunMutation_body env rpb mid request rpc apply_fn (j, x) = (Abort, (j', x'))"
      "ReconcilePendingMutations env' order_by pbs eng now book (reopened x') j' = (Ret n, j'')"
      "x' = (if point = ''after_intent'' then x else if point = ''after_pending'' then x1 else x2)"
      "point = ''after_intent'' \<or> point = ''after_pending'' \<longrightarrow> reopened x' = reopened x"
    and judged: "if point = ''after_outcome'' \<or> (point \<noteq> ''after_intent'' \<and> shown r (reopened x'))
      then \<forall>y. RunMutation_body env' rpb mid request rpc apply_fn (j'', y) = (Ret r, (j'', y))
      else outcome_of j'' mid = None \<and> pending_of j'' mid = None" by blast
  have "if point = ''after_outcome'' \<or> (point \<noteq> ''after_intent'' \<and> shown r (reopened x'))
      then \<forall>y. RunMutation env' None rpb mid request rpc apply_fn (j'', y) = (Ret (Status_OK, Some r), (j'', y))
      else outcome_of j'' mid = None \<and> pending_of j'' mid = None"
    by (rule if_cases [OF judged]) (blast intro: RunMutation_of_body(2))
  with RunMutation_of_body(1) [OF run(1)] run(2-) show ?thesis by blast
qed

end

context recoverable_apply
begin

lemma crash_setting_recovers:
  assumes "crash_setting env env' order_by point mid j" and "message_pb_roundtrip rpb"
    and "pre x" and "plan x = Ret (r, x1, x2)"
  shows "\<exists>j' x' n j''. RunMutation env None rpb mid request rpc apply_fn (j, x) = (Abort, (j', x')) \<and>
     ReconcilePendingMutations env' order_by pbs eng now book (reopened x') j' = (Ret n, j'') \<and>
     x' = (if point = ''after_intent'' then x else if point = ''after_pending'' then x1 else x2) \<and>
     (if point = ''after_intent'' \<or> (point = ''after_pending'' \<and> \<not> shown r (reopened x))
      then reopened x' = reopened x \<and> outcome_of j'' mid = None \<and> pending_of j'' mid = None
      else shown r (reopened x') \<and>
           (\<forall>y. RunMutation env' None rpb mid request rpc apply_fn (j'', y) = (Ret (Status_OK, Some r), (j'', y))))"
proof -
  from assms(1) have "\<exists>j' x' n j''. RunMutation_body env rpb mid request rpc apply_fn (j, x) = (Abort, (j', x')) \<and>
     ReconcilePendingMutations env' order_by pbs eng now book (reopened x') j' = (Ret n, j'') \<and> journal_ok j'' \<and>
     x' = (if point = ''after_intent'' then x else if point = ''after_pending'' then x1 else x2) \<and>
     (if point = ''after_intent'' \<or> (point = ''after_pending'' \<and> \<not> shown r (reopened x))
      then reopened x' = reopened x \<and> outcome_of j'' mid = None \<and> pending_of j'' mid = None
      else shown r (reopened x') \<and>
           (\<forall>y. RunMutation_body env' rpb mid request rpc apply_fn (j'', y) = (Ret r, (j'', y))))"
    unfolding crash_setting_def by (intro crash_recovers assms(2-4)) simp_all
  then obtain j' x' n j'' where run: "RunMutation_body env rpb mid request rpc apply_fn (j, x) = (Abort, (j', x'))"
      "ReconcilePendingMutations env' order_by pbs eng now book (reopened x') j' = (Ret n, j'')"
      "x' = (if point = ''after_intent'' then x else if point = ''after_pending'' then x1 else x2)"
    and judged: "if point = ''after_intent'' \<or> (point = ''after_pending'' \<and> \<not> shown r (reopened x))
      then reopened x' = reopened x \<and> outcome_of j'' mid = None \<and> pending_of j'' mid = None
      else shown r (reopened x') \<and>
           (\<forall>y. RunMutation_body env' rpb mid request rpc apply_fn (j'', y) = (Ret r, (j'', y)))" by blast
  have "if point = ''after_intent'' \<or> (point = ''after_pending'' \<and> \<not> shown r (reopened x))
      then reopened x' = reopened x \<and> outcome_of j'' mid = None \<and> pending_of j'' mid = None
      else shown r (reopened x') \<and>
           (\<forall>y. RunMutation env' None rpb mid request rpc apply_fn (j'', y) = (Ret (Status_OK, Some r), (j'', y)))"
    by (rule if_cases [OF judged]) (blast intro: RunMutation_of_body(2))+
  with RunMutation_of_body(1) [OF run(1)] run(2-) show ?thesis by blast
qed

end

text \<open>
  C5. An account is created exactly once across a crash. Take a call of \<^verbatim>\<open>CreateAccount\<close> under an id
  that was never journaled, in an engine in which no edit is open, and let the daemon die at any
  of the four crash points. Before the commit it leaves a book without a trace of the call, and
  startup reconciliation leaves the id unresolved and without a pending record, so that the retry
  starts afresh; after the commit it leaves a book with the account as the response describes it,
  and every retry with the same id gets that response and changes nothing.
\<close>
theorem CreateAccount_survives_crash:
  assumes "private_account_edits eng reopened" and "durable_account_commits eng book reopened"
    and "guid_text (lib eng)" and "message_pb_roundtrip (pb_account pbs)"
    and "crash_setting env env' order_by point (ar_meta_mutation_id request) j"
    and "CreateAccount_checks eng api (ar_account request) x = Ret c"
    and "CreateAccount_edit eng (ar_account request) c x = (r, x1, x2)" and "idle eng (snd x)"
    and "book_account eng book (am_guid r) (reopened (snd x)) = None"
  shows "\<exists>j' x' n j''. CreateAccount env None (pb_account pbs) qpb eng api request (j, x) = (Abort, (j', x')) \<and>
     ReconcilePendingMutations env' order_by pbs eng now book (reopened (snd x')) j' = (Ret n, j'') \<and>
     (if point = ''after_intent'' \<or> point = ''after_pending''
      then reopened (snd x') = reopened (snd x) \<and>
           outcome_of j'' (ar_meta_mutation_id request) = None \<and> pending_of j'' (ar_meta_mutation_id request) = None
      else book_account eng book (am_guid r) (reopened (snd x')) = Some r \<and>
           (\<forall>y. CreateAccount env' None (pb_account pbs) qpb eng api request (j'', y) =
                  (Ret (Status_OK, Some r), (j'', y))))"
proof -
  have plan: "edit_plan (CreateAccount_checks eng api (ar_account request)) (CreateAccount_edit eng (ar_account request)) x =
      Ret (r, x1, x2)" using assms(6,7) by (auto simp: edit_plan_Ret)
  from recoverable_apply.crash_setting_recovers [OF CreateAccount_recoverable [OF assms(1-4)] assms(5,4,8) plan,
      of "SerializeAsString qpb request" now] CreateAccount_plan(2) [OF plan assms(1-3,8)] assms(9)
  show ?thesis unfolding CreateAccount_def by (fastforce split: if_splits)
qed




text \<open>
  C11. Recovery of a transaction update believes the book. Take a call under an id that was never
  journaled whose edit writes nothing before its commit, and let the daemon die at any of the four
  crash points. Before the commit the reopened book is the one before the call. Every retry is
  answered with the response, and changes nothing, when the outcome was recorded, or when the
  pending record was and the reopened book serialises the transaction exactly as the response;
  in every other case the id is unresolved and without a pending record, and the retry starts
  afresh. The response is what the commit was given: if the commit keeps the transaction as it
  was in memory, the reopened book serialises it as the response from then on. An update whose commit re-orders or scrubs the splits, which the response was
  serialised before, is judged unapplied after a crash and its retry applies it again.
\<close>
theorem UpdateTransaction_survives_crash:
  assumes "guid_text (lib eng)" and "message_pb_roundtrip (pb_transaction pbs)"
    and "crash_setting env env' order_by point (tr_meta_mutation_id request) j"
    and "UpdateTransaction_checks eng api hash_order (tr_transaction request) x = Ret c"
    and "UpdateTransaction_edit eng c x = (r, x1, x2)" and "uncommitted_update eng reopened c x"
  shows "\<exists>j' x' n j''. UpdateTransaction env None (pb_transaction pbs) qpb eng api hash_order request (j, x) = (Abort, (j', x')) \<and>
     ReconcilePendingMutations env' order_by pbs eng now book (reopened (snd x')) j' = (Ret n, j'') \<and>
     x' = (if point = ''after_intent'' then x else if point = ''after_pending'' then x1 else x2) \<and>
     (point = ''after_intent'' \<or> point = ''after_pending'' \<longrightarrow> reopened (snd x') = reopened (snd x)) \<and>
     (point \<noteq> ''after_intent'' \<and> point \<noteq> ''after_pending'' \<and>
        atomic_trans_edit eng book reopened (fst (snd c)) (snd x) (snd x1) \<longrightarrow>
        book_transaction eng book (tm_guid r) (reopened (snd x')) = Some r) \<and>
     (if point = ''after_outcome'' \<or>
         (point \<noteq> ''after_intent'' \<and> book_transaction eng book (tm_guid r) (reopened (snd x')) = Some r)
      then \<forall>y. UpdateTransaction env' None (pb_transaction pbs) qpb eng api hash_order request (j'', y) =
                  (Ret (Status_OK, Some r), (j'', y))
      else outcome_of j'' (tr_meta_mutation_id request) = None \<and> pending_of j'' (tr_meta_mutation_id request) = None)"
proof -
  have plan: "edit_plan (UpdateTransaction_checks eng api hash_order (tr_transaction request)) (UpdateTransaction_edit eng) x =
      Ret (r, x1, x2)" using assms(4,5) by (auto simp: edit_plan_Ret)
  have pre: "\<forall>c. UpdateTransaction_checks eng api hash_order (tr_transaction request) x = Ret c \<longrightarrow> uncommitted_update eng reopened c x"
    using assms(4,6) by simp
  note kept = UpdateTransaction_shown [OF assms(5,1), of book reopened]
  from judged_apply.crash_setting_judged [OF UpdateTransaction_judged [OF assms(2)] assms(3,2) pre plan,
      of "SerializeAsString qpb request" now, unfolded comp_apply, folded UpdateTransaction_def]
  obtain j' x' n j'' where run: "UpdateTransaction env None (pb_transaction pbs) qpb eng api hash_order request (j, x) = (Abort, (j', x'))"
      "ReconcilePendingMutations env' order_by pbs eng now book (reopened (snd x')) j' = (Ret n, j'')"
    and x': "x' = (if point = ''after_intent'' then x else if point = ''after_pending'' then x1 else x2)"
    and rest: "point = ''after_intent'' \<or> point = ''after_pending'' \<longrightarrow> reopened (snd x') = reopened (snd x)"
      "if point = ''after_outcome'' \<or>
         (point \<noteq> ''after_intent'' \<and> book_transaction eng book (tm_guid r) (reopened (snd x')) = Some r)
      then \<forall>y. UpdateTransaction env' None (pb_transaction pbs) qpb eng api hash_order request (j'', y) =
                  (Ret (Status_OK, Some r), (j'', y))
      else outcome_of j'' (tr_meta_mutation_id request) = None \<and> pending_of j'' (tr_meta_mutation_id request) = None" by blast
  have "book_transaction eng book (tm_guid r) (reopened (snd x')) = Some r"
    if "point \<noteq> ''after_intent'' \<and> point \<noteq> ''after_pending'' \<and>
        atomic_trans_edit eng book reopened (fst (snd c)) (snd x) (snd x1)"
    using that kept x' by simp
  with run x' rest show ?thesis by blast
qed

end
