(* ===== verification/Account_Effects.thy ===== *)
theory Account_Effects
  imports Account_Service Reference_Engine
begin

text \<open>
  What the account edits write. The setters of the engine are libgnucash; the locale
  \<open>account_store\<close> states what their documentation promises, and inside it the sequences of
  calls of \<^verbatim>\<open>CreateAccount\<close> and \<^verbatim>\<open>UpdateAccount\<close> in \<^verbatim>\<open>src/rpc/account_service.cpp\<close> are shown
  to store every field of the request in the one account, and to leave the others alone.
\<close>

section \<open>The promises of the setters\<close>

text \<open>The one field a call writes.\<close>

definition account_write :: "engine_call \<Rightarrow> account_view \<Rightarrow> account_view" where
  "account_write c v =
     (case c of
        xaccAccountSetName _ s \<Rightarrow> v\<lparr>xaccAccountGetName := Some s\<rparr>
      | xaccAccountSetType _ t \<Rightarrow> v\<lparr>xaccAccountGetType := t\<rparr>
      | xaccAccountSetCommodity _ k \<Rightarrow> v\<lparr>xaccAccountGetCommodity := Some k\<rparr>
      | xaccAccountSetCode _ s \<Rightarrow> v\<lparr>xaccAccountGetCode := Some s\<rparr>
      | xaccAccountSetDescription _ s \<Rightarrow> v\<lparr>xaccAccountGetDescription := Some s\<rparr>
      | xaccAccountSetPlaceholder _ b \<Rightarrow> v\<lparr>xaccAccountGetPlaceholder := b\<rparr>
      | xaccAccountSetHidden _ b \<Rightarrow> v\<lparr>xaccAccountGetHidden := b\<rparr>
      | gnc_account_append_child p _ \<Rightarrow> v\<lparr>gnc_account_get_parent := Some p\<rparr>
      | xaccAccountSetReconcileLastDate _ t \<Rightarrow> v\<lparr>xaccAccountGetReconcileLastDate := Some t\<rparr>
      | _ \<Rightarrow> v)"

text \<open>
  An account without what the engine derives itself (balance, splits, children); a text the
  engine does not store reads as the empty text, as \<open>safe\<close> makes it.
\<close>

definition account_head :: "account_view \<Rightarrow> account_view" where
  "account_head v = v\<lparr>xaccAccountGetName := Some (safe (xaccAccountGetName v)),
     xaccAccountGetCode := Some (safe (xaccAccountGetCode v)),
     xaccAccountGetDescription := Some (safe (xaccAccountGetDescription v)),
     xaccAccountGetReconciledBalance := gnc_numeric_zero, xaccAccountGetSplitList := [], gnc_account_n_children := 0\<rparr>"

definition edits_account :: "Account \<Rightarrow> engine_call \<Rightarrow> bool" where
  "edits_account a c \<longleftrightarrow> in_edit (Edit_Account a) c \<or> c = xaccAccountBeginEdit a"

locale account_store =
  fixes eng :: "'w engine"
  assumes call_writes: "edits_account a c \<Longrightarrow>
      account_head (account_at eng a (eng_do eng c w)) = account_head (account_write c (account_at eng a w))"
    and call_frame: "edits_account a c \<Longrightarrow> account_guid (account_at eng b w) \<noteq> account_guid (account_at eng a w) \<Longrightarrow>
      account_head (account_at eng b (eng_do eng c w)) = account_head (account_at eng b w)"
    and call_guid: "edits_account a c \<Longrightarrow> account_guid (account_at eng b (eng_do eng c w)) = account_guid (account_at eng b w)"
    and call_commodities: "edits_account a c \<Longrightarrow> commodity_at eng k (eng_do eng c w) = commodity_at eng k w"
    and lookup_guid: "xaccAccountLookup eng g book w = Some b \<Longrightarrow> account_guid (account_at eng b w) = g"
    and alloc_guid: "xaccAccountLookup eng g book w = Some b \<Longrightarrow>
      account_guid (account_at eng b (snd (xaccMallocAccount eng book w))) = g"
    and alloc_frame: "xaccMallocAccount eng book w = (a, w') \<Longrightarrow>
      account_guid (account_at eng b w) \<noteq> account_guid (account_at eng a w') \<Longrightarrow>
      account_head (account_at eng b w') = account_head (account_at eng b w)"
    and alloc_commodities: "commodity_at eng k (snd (xaccMallocAccount eng book w)) = commodity_at eng k w"

text \<open>A response that says what the request asked for, the GUID apart.\<close>

definition describes_request :: "'w engine \<Rightarrow> AccountMsg \<Rightarrow> gnc_commodity \<Rightarrow> 'w \<Rightarrow> AccountMsg \<Rightarrow> bool" where
  "describes_request eng spec commodity w out \<longleftrightarrow>
     string_to_guid (lib eng) (c_str (am_parent_guid out)) = string_to_guid (lib eng) (c_str (am_parent_guid spec)) \<and>
     am_name out = c_str (am_name spec) \<and> am_type out = am_type spec \<and>
     am_commodity out = Some (CommodityIdToProto eng commodity w) \<and>
     am_code out = c_str (am_code spec) \<and> am_description out = c_str (am_description spec) \<and>
     am_placeholder out = am_placeholder spec \<and> am_hidden out = am_hidden spec"

lemma account_write_head:
  assumes "account_head v = account_head v'"
  shows "account_head (account_write c v) = account_head (account_write c v')"
  using assms by (cases v; cases v'; cases c) (simp_all add: account_head_def account_write_def)

lemma account_setters_edit [simp]:
  "edits_account a (xaccAccountBeginEdit a)" "edits_account a (gnc_account_append_child p a)"
  "list_all (edits_account a) (account_setters a spec ty k)"
  by (simp_all add: account_setters_def edits_account_def)

lemma account_setters_write:
  "fold account_write (xaccAccountBeginEdit a # account_setters a spec ty k) v =
     v\<lparr>xaccAccountGetName := Some (c_str (am_name spec)), xaccAccountGetType := ty, xaccAccountGetCommodity := Some k,
       xaccAccountGetCode := Some (c_str (am_code spec)), xaccAccountGetDescription := Some (c_str (am_description spec)),
       xaccAccountGetPlaceholder := am_placeholder spec, xaccAccountGetHidden := am_hidden spec\<rparr>"
  by (cases v) (simp add: account_setters_def account_write_def)

lemma account_head_sel [simp]:
  "account_guid (account_head v) = account_guid v" "gnc_account_get_parent (account_head v) = gnc_account_get_parent v"
  "safe (xaccAccountGetName (account_head v)) = safe (xaccAccountGetName v)"
  "xaccAccountGetType (account_head v) = xaccAccountGetType v"
  "xaccAccountGetCommodity (account_head v) = xaccAccountGetCommodity v"
  "safe (xaccAccountGetCode (account_head v)) = safe (xaccAccountGetCode v)"
  "safe (xaccAccountGetDescription (account_head v)) = safe (xaccAccountGetDescription v)"
  "xaccAccountGetPlaceholder (account_head v) = xaccAccountGetPlaceholder v"
  "xaccAccountGetHidden (account_head v) = xaccAccountGetHidden v"
  by (simp_all add: account_head_def safe_def)

text \<open>The response shows an account by its head.\<close>

lemma AccountToProto_head:
  assumes "account_head (account_at eng a w) = account_head v"
  shows "AccountToProto eng a w =
     \<lparr>am_guid = GuidToString (lib eng) (account_guid v),
      am_parent_guid =
        (case gnc_account_get_parent v of
           Some p \<Rightarrow> GuidToString (lib eng) (account_guid (account_at eng p w)) | None \<Rightarrow> []),
      am_name = safe (xaccAccountGetName v), am_type = AccountTypeToProto (xaccAccountGetType v),
      am_commodity = map_option (\<lambda>c. CommodityIdToProto eng c w) (xaccAccountGetCommodity v),
      am_code = safe (xaccAccountGetCode v), am_description = safe (xaccAccountGetDescription v),
      am_placeholder = xaccAccountGetPlaceholder v, am_hidden = xaccAccountGetHidden v\<rparr>"
  using account_head_sel [of "account_at eng a w"] unfolding assms account_head_sel
  by (simp add: AccountToProto_def Let_def)

section \<open>Edits of an account store\<close>

context account_store
begin

lemma seq_guid:
  "list_all (edits_account a) cs \<Longrightarrow> account_guid (account_at eng b (eng_seq eng cs w)) = account_guid (account_at eng b w)"
  by (induction cs arbitrary: w) (simp_all add: call_guid [of a])

lemma seq_commodities: "list_all (edits_account a) cs \<Longrightarrow> commodity_at eng k (eng_seq eng cs w) = commodity_at eng k w"
  by (induction cs arbitrary: w) (simp_all add: call_commodities [of a])

lemma seq_frame:
  assumes "list_all (edits_account a) cs" and "account_guid (account_at eng b w) \<noteq> account_guid (account_at eng a w)"
  shows "account_head (account_at eng b (eng_seq eng cs w)) = account_head (account_at eng b w)"
  using assms by (induction cs arbitrary: w) (simp_all add: call_frame [of a] call_guid [of a])

lemma seq_writes:
  assumes "list_all (edits_account a) cs" and "account_head (account_at eng a w) = account_head v"
  shows "account_head (account_at eng a (eng_seq eng cs w)) = account_head (fold account_write cs v)"
  using assms
proof (induction cs arbitrary: w v)
  case (Cons c cs)
  then have "account_head (account_at eng a (eng_do eng c w)) = account_head (account_write c v)"
    using call_writes [of a c w] account_write_head [OF Cons.prems(2), of c] by simp
  with Cons show ?case by simp
qed simp

text \<open>Moving the account only when it is not there yet is as good as moving it always.\<close>

lemma move_if_elsewhere:
  assumes "account_head (account_at eng a w) = account_head v"
  shows "account_head (account_at eng a
       (if Some p \<noteq> gnc_account_get_parent (account_at eng a w) then eng_do eng (gnc_account_append_child p a) w else w)) =
     account_head (v\<lparr>gnc_account_get_parent := Some p\<rparr>)"
proof (cases "gnc_account_get_parent (account_at eng a w) = Some p")
  case True
  with arg_cong [OF assms, of gnc_account_get_parent] have "v\<lparr>gnc_account_get_parent := Some p\<rparr> = v" by (cases v) simp
  with True assms show ?thesis by simp
next
  case False
  with call_writes [of a "gnc_account_append_child p a" w] account_write_head [OF assms, of "gnc_account_append_child p a"]
  show ?thesis by (auto simp: account_write_def)
qed

text \<open>An edit that runs the setters and leaves the account under the parent.\<close>

lemma edit_describes_request:
  assumes w1: "account_head (account_at eng a w1) =
        account_head ((fold account_write (xaccAccountBeginEdit a # account_setters a spec ty k) v)\<lparr>gnc_account_get_parent := Some p\<rparr>)"
    and parent: "string_to_guid (lib eng) (c_str (am_parent_guid spec)) = Some (account_guid (account_at eng p w1))"
    and "commodity_at eng k w1 = commodity_at eng k w" and "AccountTypeFromProto (am_type spec) ctx = Inr ty" and "guid_text (lib eng)"
  shows "describes_request eng spec k w (AccountToProto eng a w1)"
  using assms(3,5) parent account_type.accepted [OF assms(4)]
  by (simp add: AccountToProto_head [OF w1 [unfolded account_setters_write]] describes_request_def
      CommodityIdToProto_def safe_def guid_text_def GuidToString_def)

end

section \<open>The reference engine is an account store\<close>

lemma ref_account_set:
  "ref_account b (set_mem_account a (Some v) w) = (if key b = key a then v\<lparr>account_guid := key a\<rparr> else ref_account b w)"
  "ref_account b (open_edit t w) = ref_account b w" "ref_account b (bump w) = ref_account b w"
  by (simp_all add: ref_account_def set_mem_account_def open_edit_def bump_def)

lemma ref_edits_account:
  assumes "edits_account a c"
  obtains "c = xaccAccountBeginEdit a" | v where "ref_do c w = set_mem_account a (Some v) w" and "v = account_write c (ref_account a w)"
  using assms by (cases c) (auto simp: edits_account_def account_write_def)

interpretation ref_accounts: account_store ref_engine
proof (unfold_locales, goal_cases)
  case (1 a c w)
  then show ?case
    by (rule ref_edits_account [where w = w])
       (auto simp: ref_account_set account_write_def account_head_def split: engine_call.splits)
next
  case (2 a c b w)
  from 2(1) show ?case by (rule ref_edits_account [where w = w]) (use 2(2) in \<open>simp_all add: ref_account_set\<close>)
qed (auto simp: ref_engine_def ref_account_set)

section \<open>Properties\<close>

text \<open>
  C26. \<^verbatim>\<open>UpdateAccount\<close> replaces the whole account: whenever its checks pass, the response names the
  account and the parent of the request, carries the request's name, type, code, description,
  placeholder and hidden flag and the commodity that was looked up, whether or not the account
  had to move; and every other account is as it was. This is more than \<^verbatim>\<open>shim.proto\<close> says: its
  comment counts neither the type nor the commodity among the fields that are replaced and sends
  type changes through a compatibility check of the engine, but the handler sets both
  unconditionally, and the engine's \<^verbatim>\<open>xaccAccountSetType\<close> (law of \<open>account_store\<close>) writes what it is
  given.
\<close>
theorem UpdateAccount_replaces:
  assumes "account_store eng" and "guid_text (lib eng)"
    and checks: "UpdateAccount_checks eng api spec x = Ret (account, new_type, commodity, new_parent)"
    and edit: "UpdateAccount_edit eng spec (account, new_type, commodity, new_parent) x = (out, x1, x2)"
  shows "string_to_guid (lib eng) (c_str (am_guid out)) = string_to_guid (lib eng) (c_str (am_guid spec)) \<and>
     describes_request eng spec commodity (snd x) out \<and>
     (\<forall>b. account_guid (account_at eng b (snd x)) \<noteq> account_guid (account_at eng account (snd x)) \<longrightarrow>
        account_head (account_at eng b (snd x1)) = account_head (account_at eng b (snd x)))"
proof -
  let ?cs = "xaccAccountBeginEdit account # account_setters account spec new_type commodity"
    and ?move = "gnc_account_append_child new_parent account"
  define w0 where "w0 = eng_seq eng ?cs (snd x)"
  define moved where "moved \<longleftrightarrow> Some new_parent \<noteq> gnc_account_get_parent (account_at eng account w0)"
  define cs where "cs = ?cs @ (if moved then [?move] else [])"
  have out: "out = AccountToProto eng account (snd x1)" and x1: "snd x1 = eng_seq eng cs (snd x)"
    using edit by (auto simp: UpdateAccount_edit_def Let_def cs_def moved_def w0_def eng_seq_append)
  have cs: "list_all (edits_account account) cs" by (simp add: cs_def)
  from checks obtain book where
      found: "FindAccount eng book (am_guid spec) ''account.guid'' (snd x) = Inr account"
        "FindAccount eng book (am_parent_guid spec) ''account.parent_guid'' (snd x) = Inr new_parent"
      and type: "AccountTypeFromProto (am_type spec) ''account.type'' = Inr new_type"
    by (auto simp: UpdateAccount_checks_def attempt_eq_Ret)
  have guid: "string_to_guid (lib eng) (c_str str) = Some (account_guid (account_at eng a (snd x1)))"
    if "FindAccount eng book str ctx (snd x) = Inr a" for str ctx a
    using that account_store.lookup_guid [OF assms(1)] account_store.seq_guid [OF assms(1) cs]
    by (auto simp: FindAccount_eq_Inr x1)
  have w0: "account_head (account_at eng account w0) = account_head (fold account_write ?cs (account_at eng account (snd x)))"
    unfolding w0_def by (rule account_store.seq_writes [OF assms(1) _ refl]) simp
  have head: "account_head (account_at eng account (snd x1)) =
      account_head ((fold account_write ?cs (account_at eng account (snd x)))\<lparr>gnc_account_get_parent := Some new_parent\<rparr>)"
    using account_store.move_if_elsewhere [OF assms(1) w0, of new_parent]
    by (auto simp: x1 cs_def moved_def w0_def eng_seq_append split: if_splits)
  have "describes_request eng spec commodity (snd x) (AccountToProto eng account (snd x1))"
    using account_store.edit_describes_request [OF assms(1) head guid [OF found(2)] _ type assms(2)]
      account_store.seq_commodities [OF assms(1) cs] x1 by simp
  with guid [OF found(1)] assms(2) show ?thesis
    using account_store.seq_frame [OF assms(1) cs]
    by (simp add: out x1 AccountToProto_def Let_def GuidToString_def guid_text_def)
qed

text \<open>
  C27. \<^verbatim>\<open>CreateAccount\<close> stores what was asked: whenever its checks pass, the response carries the
  request's parent, name, type, code, description, placeholder and hidden flag and the
  commodity that was looked up, and the GUID the engine gave the new account; and no account
  that was there before is changed.
\<close>
theorem CreateAccount_creates:
  assumes "account_store eng" and "guid_text (lib eng)"
    and checks: "CreateAccount_checks eng api spec x = Ret (book, parent, type, commodity)"
    and edit: "CreateAccount_edit eng spec (book, parent, type, commodity) x = (out, x1, x2)"
    and fresh: "xaccMallocAccount eng book (snd x) = (account, w0)"
  shows "string_to_guid (lib eng) (c_str (am_guid out)) = Some (account_guid (account_at eng account w0)) \<and>
     describes_request eng spec commodity (snd x) out \<and>
     (\<forall>g b. xaccAccountLookup eng g book (snd x) = Some b \<and> g \<noteq> account_guid (account_at eng account w0) \<longrightarrow>
        account_head (account_at eng b (snd x1)) = account_head (account_at eng b (snd x)))"
proof -
  let ?sets = "xaccAccountBeginEdit account # account_setters account spec type commodity"
  define cs where "cs = ?sets @ [gnc_account_append_child parent account]"
  have out: "out = AccountToProto eng account (snd x1)" and x1: "snd x1 = eng_seq eng cs w0"
    using edit by (auto simp: CreateAccount_edit_def fresh cs_def Let_def)
  have cs: "list_all (edits_account account) cs" by (simp add: cs_def)
  from checks have found: "FindAccount eng book (am_parent_guid spec) ''account.parent_guid'' (snd x) = Inr parent"
      and type: "AccountTypeFromProto (am_type spec) ''account.type'' = Inr type"
    by (auto simp: CreateAccount_checks_def attempt_eq_Ret)
  have guid: "string_to_guid (lib eng) (c_str (am_parent_guid spec)) = Some (account_guid (account_at eng parent (snd x1)))"
    using found account_store.alloc_guid [OF assms(1), of _ book "snd x" parent] account_store.seq_guid [OF assms(1) cs]
    by (auto simp: FindAccount_eq_Inr x1 fresh)
  have head: "account_head (account_at eng account (snd x1)) =
      account_head ((fold account_write ?sets (account_at eng account w0))\<lparr>gnc_account_get_parent := Some parent\<rparr>)"
    using account_store.seq_writes [OF assms(1) cs refl, of w0] by (simp add: x1 cs_def account_write_def)
  have "commodity_at eng commodity (snd x1) = commodity_at eng commodity (snd x)"
    using account_store.seq_commodities [OF assms(1) cs] account_store.alloc_commodities [OF assms(1), of commodity book "snd x"]
    by (simp add: x1 fresh)
  note written = account_store.edit_describes_request [OF assms(1) head guid this type assms(2)]
  have frame: "account_head (account_at eng b (snd x1)) = account_head (account_at eng b (snd x))"
    if "xaccAccountLookup eng g book (snd x) = Some b" "g \<noteq> account_guid (account_at eng account w0)" for g b
    using that account_store.lookup_guid [OF assms(1) that(1)] account_store.alloc_guid [OF assms(1) that(1)]
      account_store.seq_frame [OF assms(1) cs, of b w0] account_store.alloc_frame [OF assms(1) fresh, of b]
    by (simp add: x1 fresh)
  have "account_guid (account_at eng account (snd x1)) = account_guid (account_at eng account w0)"
    unfolding x1 by (rule account_store.seq_guid [OF assms(1) cs])
  with written frame assms(2) show ?thesis
    by (auto simp: out AccountToProto_def Let_def GuidToString_def guid_text_def)
qed

end
