(* ===== verification/Concrete_Runs.thy ===== *)
theory Concrete_Runs
  imports Crash_Recovery Account_Effects Backup Session_Service Daemon
begin

text \<open>
  The properties at concrete inputs: a book with a root, two accounts and one transaction on the
  reference engine, requests on it, and small file systems, option lists and journals. Each
  theorem here applies the property it is named after and discharges its hypotheses by
  evaluating the definitions.
\<close>

section \<open>Mutations across a crash\<close>

definition ref_state :: "ref_world engine_side" where
  "ref_state = (ref_session, ref_book)"

definition bank_account :: AccountMsg where
  "bank_account = \<lparr>am_guid = [], am_parent_guid = ''0'', am_name = ''Bank'', am_type = ACCOUNT_TYPE_BANK,
     am_commodity = Some \<lparr>ci_space = ''CURRENCY'', ci_mnemonic = ''EUR''\<rparr>, am_code = [], am_description = [],
     am_placeholder = False, am_hidden = False\<rparr>"

definition create_request :: AccountRequest where
  "create_request = \<lparr>ar_meta_mutation_id = ref_id, ar_account = bank_account\<rparr>"

definition update_request :: AccountRequest where
  "update_request = \<lparr>ar_meta_mutation_id = ref_id, ar_account = bank_account\<lparr>am_guid := ''1''\<rparr>\<rparr>"

definition delete_request :: DeleteRequest where
  "delete_request = \<lparr>dr_meta_mutation_id = ref_id, dr_guid = ''1''\<rparr>"

definition crash_env :: "string \<Rightarrow> mutation_env" where
  "crash_env point = ref_env\<lparr>env_crash_at := Some point\<rparr>"

abbreviation "ref_order \<equiv> (sort_key journaled_at_utc :: row_order)"

lemma ref_crash_setting: "point \<in> set crash_points \<Longrightarrow> crash_setting (crash_env point) ref_env ref_order point ref_id empty_journal"
  by (simp add: crash_setting_def crash_env_def journal_inv_def sql_order_by_def)

lemma ref_checks:
  "CreateAccount_checks ref_engine ref_api (ar_account create_request) ref_state = Ret (5, 0, ACCT_TYPE_BANK, 0)"
  "UpdateAccount_checks ref_engine ref_api (ar_account update_request) ref_state = Ret (1, ACCT_TYPE_BANK, 0, 0)"
  "DeleteAccount_checks ref_engine ref_api (dr_guid delete_request) ref_state = Ret 1"
  by code_simp+

lemma ref_book_account: "book_account ref_engine book (am_guid (AccountToProto ref_engine a w)) (ref_reopened (snd ref_state)) = None
   \<longleftrightarrow> key a \<notin> {0, 1}"
proof -
  have "string_to_guid ref_lib (c_str (GuidToString ref_lib (key a))) = Some (key a)"
    using ref_lib_guid_text by (simp add: guid_text_def GuidToString_def)
  then show ?thesis
    by (simp add: book_account_def AccountToProto_def Let_def ref_state_def ref_reopened_def ref_book_def ref_disk_def)
qed

lemma ref_idle: "idle ref_engine (snd ref_state)"
  by (simp add: idle_def ref_state_def ref_book_def)

theorem CreateAccount_survives_crash_witness:
  "\<exists>r j' x' n j''. CreateAccount (crash_env ''after_apply'') None (pb_account ref_pbs) (as_pb account_request_codec)
        ref_engine ref_api create_request (empty_journal, ref_state) = (Abort, (j', x')) \<and>
     ReconcilePendingMutations ref_env ref_order ref_pbs ref_engine (\<lambda>_. 7) 5 (ref_reopened (snd x')) j' = (Ret n, j'') \<and>
     book_account ref_engine 5 (am_guid r) (ref_reopened (snd x')) = Some r \<and>
     CreateAccount ref_env None (pb_account ref_pbs) (as_pb account_request_codec) ref_engine ref_api create_request
       (j'', ref_state) = (Ret (Status_OK, Some r), (j'', ref_state))"
proof -
  obtain r x1 x2 where e: "CreateAccount_edit ref_engine (ar_account create_request) (5, 0, ACCT_TYPE_BANK, 0) ref_state = (r, x1, x2)"
    by (metis prod_cases3)
  then have "\<exists>w. r = AccountToProto ref_engine 7 w"
    by (auto simp: CreateAccount_edit_def Let_def ref_state_def ref_book_def)
  then have fresh: "book_account ref_engine 5 (am_guid r) (ref_reopened (snd ref_state)) = None"
    using ref_book_account [of 5 7] by (auto simp: key_def)
  have mid: "ar_meta_mutation_id create_request = ref_id" by (simp add: create_request_def)
  from CreateAccount_survives_crash [OF ref_private_account_edits ref_durable_account_commits _ _ _ ref_checks(1) e ref_idle fresh,
      of ref_pbs "crash_env ''after_apply''" ref_env ref_order "''after_apply''" empty_journal "as_pb account_request_codec" "\<lambda>_. 7"]
  show ?thesis
    by (simp add: mid ref_crash_setting crash_points_def del: split_paired_All split_paired_Ex) blast
qed



theorem UpdateAccount_replaces_witness:
  "\<exists>out x1 x2. UpdateAccount_edit ref_engine (ar_account update_request) (1, ACCT_TYPE_BANK, 0, 0) ref_state = (out, x1, x2) \<and>
     string_to_guid ref_lib (c_str (am_guid out)) = Some 1 \<and> am_name out = ''Bank'' \<and> am_type out = ACCOUNT_TYPE_BANK \<and>
     account_head (ref_account 0 (snd x1)) = account_head (ref_account 0 (snd ref_state))"
proof -
  obtain out x1 x2 where e: "UpdateAccount_edit ref_engine (ar_account update_request) (1, ACCT_TYPE_BANK, 0, 0) ref_state = (out, x1, x2)"
    by (metis prod_cases3)
  have "string_to_guid ref_lib (c_str (am_guid (ar_account update_request))) = Some 1"
    "c_str (am_name (ar_account update_request)) = ''Bank''" by code_simp+
  moreover have "am_type (ar_account update_request) = ACCOUNT_TYPE_BANK" "key 0 \<noteq> key 1"
    by (simp_all add: update_request_def bank_account_def key_def)
  ultimately show ?thesis
    using UpdateAccount_replaces [OF ref_accounts.account_store_axioms _ ref_checks(2) e] e by (auto simp: describes_request_def)
qed

theorem CreateAccount_creates_witness:
  "\<exists>out x1 x2. CreateAccount_edit ref_engine (ar_account create_request) (5, 0, ACCT_TYPE_BANK, 0) ref_state = (out, x1, x2) \<and>
     string_to_guid ref_lib (c_str (am_guid out)) = Some 7 \<and> am_name out = ''Bank'' \<and> am_type out = ACCOUNT_TYPE_BANK \<and>
     account_head (ref_account 1 (snd x1)) = account_head (ref_account 1 (snd ref_state))"
proof -
  obtain out x1 x2 where e: "CreateAccount_edit ref_engine (ar_account create_request) (5, 0, ACCT_TYPE_BANK, 0) ref_state = (out, x1, x2)"
    by (metis prod_cases3)
  have fresh: "xaccMallocAccount ref_engine 5 (snd ref_state) = (7, set_mem_account 7 (Some new_account) (bump ref_book))"
    by (simp add: ref_state_def ref_book_def)
  have "c_str (am_name (ar_account create_request)) = ''Bank''" "xaccAccountLookup ref_engine 1 5 (snd ref_state) = Some 1" by code_simp+
  moreover have "am_type (ar_account create_request) = ACCOUNT_TYPE_BANK" "key 7 = 7"
    by (simp_all add: create_request_def bank_account_def key_def)
  ultimately show ?thesis
    using CreateAccount_creates [OF ref_accounts.account_store_axioms _ ref_checks(1) e fresh] e by (auto simp: describes_request_def)
qed

definition ledger_disk :: ref_store where
  "ledger_disk = ref_disk
     \<lparr>st_trans := [9 \<mapsto> new_trans\<lparr>xaccTransGetCurrency := Some 0, xaccTransGetDatePostedGDate := g_date_set_dmy 2 1 2024,
                        xaccTransGetSplitList := [11, 12]\<rparr>],
      st_splits := [11 \<mapsto> new_split\<lparr>xaccSplitGetParent := 9, xaccSplitGetAccount := 1,
                           xaccSplitGetValue := gnc_numeric_create 5 1, xaccSplitGetAmount := gnc_numeric_create 5 1\<rparr>,
                    12 \<mapsto> new_split\<lparr>xaccSplitGetParent := 9, xaccSplitGetAccount := 0,
                           xaccSplitGetValue := gnc_numeric_create (- 5) 1, xaccSplitGetAmount := gnc_numeric_create (- 5) 1\<rparr>]\<rparr>"

definition ledger_state :: "ref_world engine_side" where
  "ledger_state = (ref_session, \<lparr>rw_mem = ledger_disk, rw_disk = ledger_disk, rw_edits = (\<lambda>_. 0), rw_next = 20\<rparr>)"

definition split_spec :: "string \<Rightarrow> int \<Rightarrow> SplitMsg" where
  "split_spec guid v = \<lparr>sm_guid = guid, sm_account_guid = ''1'', sm_value = Some \<lparr>nu_num = v, nu_denom = 1\<rparr>,
     sm_quantity = Some \<lparr>nu_num = v, nu_denom = 1\<rparr>, sm_memo = ''m'', sm_action = [], sm_reconcile_state = RECONCILE_STATE_CLEARED\<rparr>"

definition lunch :: "string \<Rightarrow> SplitMsg list \<Rightarrow> TransactionRequest" where
  "lunch guid splits = \<lparr>tr_meta_mutation_id = ref_id, tr_transaction =
     \<lparr>tm_guid = guid, tm_currency = Some \<lparr>ci_space = ''CURRENCY'', ci_mnemonic = ''EUR''\<rparr>,
      tm_post_date = Some \<lparr>da_year = 2024, da_month = 1, da_day = 2\<rparr>, tm_enter_time_utc = 0, tm_num = [],
      tm_description = ''lunch'', tm_splits = splits\<rparr>\<rparr>"

definition post_request :: TransactionRequest where
  "post_request = lunch [] [split_spec [] 8, split_spec [] (- 8)]"

definition change_request :: TransactionRequest where
  "change_request = lunch ''9'' [split_spec ''11'' 7, split_spec [] (- 7)]"

lemma ref_plans:
  "case PostTransaction_checks ref_engine ref_api (\<lambda>t. t) (tr_transaction post_request) ref_state of Ret _ \<Rightarrow> True | _ \<Rightarrow> False"
  "case UpdateTransaction_checks ref_engine ref_api (\<lambda>t. t) (tr_transaction change_request) ledger_state of Ret _ \<Rightarrow> True | _ \<Rightarrow> False"
  by code_simp+


theorem UpdateTransaction_survives_crash_witness:
  "\<exists>r j' x' n j''. UpdateTransaction (crash_env ''after_apply'') None (pb_transaction ref_pbs) (as_pb transaction_request_codec)
        ref_engine ref_api (\<lambda>t. t) change_request (empty_journal, ledger_state) = (Abort, (j', x')) \<and>
     ReconcilePendingMutations ref_env ref_order ref_pbs ref_engine (\<lambda>_. 7) 5 (ref_reopened (snd x')) j' = (Ret n, j'') \<and>
     book_transaction ref_engine 5 (tm_guid r) (ref_reopened (snd x')) = Some r \<and>
     UpdateTransaction ref_env None (pb_transaction ref_pbs) (as_pb transaction_request_codec)
        ref_engine ref_api (\<lambda>t. t) change_request (j'', ledger_state) = (Ret (Status_OK, Some r), (j'', ledger_state))"
proof -
  obtain c where c: "UpdateTransaction_checks ref_engine ref_api (\<lambda>t. t) (tr_transaction change_request) ledger_state = Ret c"
    using ref_plans(2) by (auto split: flow.splits)
  obtain r x1 x2 where e: "UpdateTransaction_edit ref_engine c ledger_state = (r, x1, x2)" by (metis prod_cases3)
  have mid: "tr_meta_mutation_id change_request = ref_id" by (simp add: change_request_def lunch_def)
  note stored = ref_committed_update(2) [OF e, of 5]
  from UpdateTransaction_survives_crash [OF _ _ _ c e ref_uncommitted_update,
      of ref_pbs "crash_env ''after_apply''" ref_env ref_order "''after_apply''" empty_journal
         "as_pb transaction_request_codec" "\<lambda>_. 7" 5]
  obtain j' x' n j'' where run: "UpdateTransaction (crash_env ''after_apply'') None (pb_transaction ref_pbs) (as_pb transaction_request_codec)
        ref_engine ref_api (\<lambda>t. t) change_request (empty_journal, ledger_state) = (Abort, (j', x'))"
      "ReconcilePendingMutations ref_env ref_order ref_pbs ref_engine (\<lambda>_. 7) 5 (ref_reopened (snd x')) j' = (Ret n, j'')"
    and x': "x' = x2"
    and retry: "book_transaction ref_engine 5 (tm_guid r) (ref_reopened (snd x')) = Some r \<Longrightarrow>
      \<forall>y. UpdateTransaction ref_env None (pb_transaction ref_pbs) (as_pb transaction_request_codec)
        ref_engine ref_api (\<lambda>t. t) change_request (j'', y) = (Ret (Status_OK, Some r), (j'', y))"
    by (simp add: mid ref_crash_setting crash_points_def del: split_paired_All split_paired_Ex) (metis (full_types))
  from stored x' have there: "book_transaction ref_engine 5 (tm_guid r) (ref_reopened (snd x')) = Some r" by simp
  with run retry [OF there] show ?thesis by blast
qed

section \<open>The session\<close>

definition no_locks :: gnclock_env where
  "no_locks = \<lparr>gl_open_ok = (\<lambda>_. True), gl_prepare_ok = (\<lambda>_. True), gl_rows = (\<lambda>_. []), gl_done = (\<lambda>_. True),
     gl_host = ''here'', gl_dead = (\<lambda>_. False)\<rparr>"

definition closed_session :: Session where
  "closed_session = new_Session (config ref_session)"

theorem close_never_wedges_witness:
  "\<exists>se s' w'. Session_Close ref_api (Some ''session_close_save'') ref_state = (Throw (ExShim se), (s', w')) \<and>
     s' = closed_session \<and> \<not> is_open s'"
proof -
  obtain fl s' w' where c: "Session_Close ref_api (Some ''session_close_save'') (ref_session, ref_book) = (fl, (s', w'))"
    by (metis prod_cases3)
  from close_never_wedges [OF _ c, of 1] c show ?thesis
    by (auto simp: ref_session_def ref_state_def closed_session_def)
qed

theorem session_open_invariant_witness:
  "\<exists>s w. Session_Open ref_api no_locks (closed_session, ref_book) = (Ret (), (s, w)) \<and> is_open s = (session_ptr s \<noteq> None)"
proof -
  obtain s w where o: "Session_Open ref_api no_locks (closed_session, ref_book) = (Ret (), (s, w))"
  proof -
    have "fst (Session_Open ref_api no_locks (closed_session, ref_book)) = Ret ()" by code_simp
    then show thesis using that by (metis prod.collapse)
  qed
  have "(session_step ref_api)\<^sup>*\<^sup>* (new_Session (config ref_session), ref_book) (s, w)"
    using session_step.st_open [OF o] by (simp add: closed_session_def r_into_rtranclp)
  from session_open_invariant [OF this] o show ?thesis by blast
qed

theorem live_lock_is_respected_witness:
  "let api = ref_api\<lparr>qof_session_get_error := (\<lambda>_ _. ERR_BACKEND_LOCKED)\<rparr>;
       ge = no_locks\<lparr>gl_rows := (\<lambda>_. [(Some ''here'', 42)])\<rparr>
   in \<exists>msg. Session_Open api ge (closed_session, ref_book) =
        (Throw (ExShim (shim_error ERROR_CODE_BOOK_LOCKED msg ''sqlite3:///b'')), (closed_session, ref_book))"
  using live_lock_is_respected [of closed_session "''/b''" "ref_api\<lparr>qof_session_get_error := (\<lambda>_ _. ERR_BACKEND_LOCKED)\<rparr>" ref_book 1
      ref_book ref_book "no_locks\<lparr>gl_rows := (\<lambda>_. [(Some ''here'', 42)])\<rparr>"]
  by (simp add: Let_def closed_session_def new_Session_def ref_session_def ref_api_def no_locks_def dead_row_def)

theorem startup_checks_iff_balanced_witness:
  "RunStartupChecks ref_engine ref_api ledger_state = Inr () \<and>
   gnc_numeric_zero_p ref_lib (currency_sum ref_engine (snd ledger_state) [11, 12] ''CURRENCY:EUR'')"
proof -
  have ok: "RunStartupChecks ref_engine ref_api ledger_state = Inr ()" by code_simp
  have book: "Session_book ref_api ledger_state = Inr 5" by code_simp
  have splits: "qof_query_run ref_engine 5 [] (snd ledger_state) = [11, 12]" by code_simp
  have "with_key (currency_key ref_engine (snd ledger_state)) ''CURRENCY:EUR'' [11, 12] \<noteq> []" by code_simp
  with startup_checks_iff_balanced [OF _ book] ok splits show ?thesis by (auto simp: Let_def)
qed

section \<open>Recovery and the account tree\<close>

definition pending_delete :: Journal where
  "pending_delete = \<lparr>intents = [\<lparr>mutation_id = ref_id, rpc_name = ''daicho.shim.v1.AccountService/DeleteAccount'',
     payload = SerializeAsString (pb_delete_account ref_pbs) (delete_request\<lparr>dr_guid := ''77''\<rparr>), payload_sha256 = [],
     journaled_at_utc = 7, pending_response = Some []\<rparr>], applied = []\<rparr>"

theorem reconciliation_exact_witness:
  "\<exists>n j'. ReconcilePendingMutations ref_env ref_order ref_pbs ref_engine (\<lambda>_. 7) 5 ref_book pending_delete = (Ret n, j') \<and>
     outcome_of j' ref_id = Some (put_outcome_msg (ok_outcome ''daicho.shim.v1.AccountService/DeleteAccount'' []))"
proof -
  have ok: "journal_ok pending_delete" by (simp add: journal_ok_def pending_delete_def)
  have nul: "\<forall>mid. intent_of pending_delete mid \<noteq> None \<longrightarrow> CHR 0x00 \<notin> set mid"
    using valid_id_no_nul [OF ref_id_valid] by (simp add: intent_of_def intent_row_of_def pending_delete_def)
  let ?e = "\<lparr>pe_mutation_id = ref_id, pe_rpc_name = ''daicho.shim.v1.AccountService/DeleteAccount'',
     pe_request_payload = SerializeAsString (pb_delete_account ref_pbs) (delete_request\<lparr>dr_guid := ''77''\<rparr>),
     pe_pending_response = []\<rparr>"
  have e: "pending_entry pending_delete ref_id = Some ?e" by code_simp
  have v: "WasApplied ref_pbs ref_engine 5 ref_book ?e = Some True" by code_simp
  have "no_faults (env_sqlite ref_env)" "sql_order_by ref_order" by (simp_all add: sql_order_by_def)
  from reconciliation_exact [OF ok this nul, of ref_pbs ref_engine "\<lambda>_. 7" 5 ref_book]
  obtain n j' where run: "ReconcilePendingMutations ref_env ref_order ref_pbs ref_engine (\<lambda>_. 7) 5 ref_book pending_delete = (Ret n, j')"
    and all: "\<forall>mid. case pending_entry pending_delete mid of
        None \<Rightarrow> pending_of j' mid = pending_of pending_delete mid \<and> outcome_of j' mid = outcome_of pending_delete mid
      | Some e \<Rightarrow>
          if WasApplied ref_pbs ref_engine 5 ref_book e = Some True
          then pending_of j' mid = pending_of pending_delete mid \<and> outcome_of j' mid = Some (SerializeOutcome (env_outcome_pb ref_env)
                 (ok_outcome (pe_rpc_name e) (pe_pending_response e)))
          else pending_of j' mid = None \<and> outcome_of j' mid = None"
    by blast
  from spec [OF all, of ref_id] run show ?thesis unfolding e option.case v by (auto simp: ref_outcome_pb_def)
qed

theorem CheckNoCycle_exact_witness:
  "CheckNoCycle ref_engine 0 1 ''p'' ref_book = Throw (invalid_argument ''parent_guid would create a cycle'' ''p'') \<and>
   \<not> (\<forall>b. rooted ((parent_in ref_engine ref_book)(0 := Some 1)) b)"
proof -
  let ?p = "parent_in ref_engine ref_book"
  have zero: "rooted ?p 0"
    by (rule rooted.root) (simp add: parent_in_def ref_account_def ref_book_def ref_disk_def key_def new_account_def)
  have "rooted ?p b" for b
  proof -
    have "?p b = None \<or> ?p b = Some 0"
      by (simp add: parent_in_def ref_account_def ref_book_def ref_disk_def new_account_def)
    then show ?thesis by (elim disjE) (auto intro: rooted.root rooted.child zero)
  qed
  moreover have "CheckNoCycle ref_engine 0 1 ''p'' ref_book = Throw (invalid_argument ''parent_guid would create a cycle'' ''p'')"
    by code_simp
  ultimately show ?thesis using CheckNoCycle_exact [of ref_engine ref_book 0 1 "''p''"] by (auto split: if_splits)
qed

section \<open>Transactions and balances\<close>

theorem accepted_plan_balances_witness:
  "\<exists>plan. PlanTransaction ref_engine (\<lambda>t. t) 5 (tr_transaction post_request) None ref_book = Inr plan \<and>
     sum_list (map proto_value (tm_splits (tr_transaction post_request))) = 0"
proof -
  have "case PlanTransaction ref_engine (\<lambda>t. t) 5 (tr_transaction post_request) None ref_book of Inr _ \<Rightarrow> True | _ \<Rightarrow> False"
    by code_simp
  then obtain plan where "PlanTransaction ref_engine (\<lambda>t. t) 5 (tr_transaction post_request) None ref_book = Inr plan"
    by (auto split: sum.splits)
  with accepted_plan_balances [OF this] show ?thesis by (simp add: ref_lib_exact)
qed

theorem update_plan_partitions_witness:
  "\<exists>plan. PlanTransaction ref_engine (\<lambda>t. t) 5 (tr_transaction change_request) (Some 9) (snd ledger_state) = Inr plan \<and>
     {sp. Some sp \<in> sp_existing ` set (tp_splits plan)} \<union> set (tp_doomed plan) = {11, 12}"
proof -
  have "case PlanTransaction ref_engine (\<lambda>t. t) 5 (tr_transaction change_request) (Some 9) (snd ledger_state) of Inr _ \<Rightarrow> True | _ \<Rightarrow> False"
    by code_simp
  then obtain plan where p: "PlanTransaction ref_engine (\<lambda>t. t) 5 (tr_transaction change_request) (Some 9) (snd ledger_state) = Inr plan"
    by (auto split: sum.splits)
  have l: "xaccTransGetSplitList (trans_at ref_engine 9 (snd ledger_state)) = [11, 12]" by code_simp
  have "distinct (map (split_guid_string ref_engine (snd ledger_state)) [11, 12])" by code_simp
  with update_plan_partitions [OF p] l p show ?thesis by (auto simp: Let_def)
qed

definition page_request :: QuerySplitsRequest where
  "page_request = \<lparr>qs_account_guids = [], qs_date_from = None, qs_date_to = None, qs_description_contains = [],
     qs_memo_contains = [], qs_value_min = None, qs_value_max = None, qs_states = [], qs_page_size = 1, qs_page_token = []\<rparr>"

definition ref_cleared :: cleared_match where
  "ref_cleared = \<lparr>CLEARED_NO = 1, CLEARED_CLEARED = 2, CLEARED_RECONCILED = 4, CLEARED_FROZEN = 8, CLEARED_VOIDED = 16\<rparr>"

theorem pages_enumerate_results_witness:
  "fetch_pages (\<lambda>token. QuerySplits ref_engine ref_api ref_cleared (page_request\<lparr>qs_page_token := token\<rparr>) ledger_state) 3 [] =
     Some (Inr (map (split_with_context ref_engine (snd ledger_state)) [11, 12]))"
proof -
  have "Session_book ref_api ledger_state = Inr 5" by code_simp
  moreover have splits: "live_splits 9 (snd ledger_state) = [11, 12]" by code_simp
  ultimately have run: "QuerySplits_run ref_engine ref_api ref_cleared page_request ledger_state =
      Inr ([11, 12], value_in_bounds ref_engine None None (snd ledger_state))"
    by (simp add: QuerySplits_run_def page_request_def optional_stamp_def optional_numeric_def ClearedMaskFromStates_def)
  have "distinct (map (split_guid_string ref_engine (snd ledger_state)) [11, 12])" by code_simp
  moreover have "filter (value_in_bounds ref_engine None None (snd ledger_state)) [11, 12] = [11, 12]"
    by (simp add: value_in_bounds_def)
  ultimately show ?thesis
    using pages_enumerate_results [OF run] by (simp add: eval_nat_numeral)
qed

theorem page_equals_reference_witness:
  "QuerySplits ref_engine ref_api ref_cleared
      (page_request\<lparr>qs_page_token := split_guid_string ref_engine (snd ledger_state) 11\<rparr>) ledger_state =
     Inr \<lparr>qr_splits = [split_with_context ref_engine (snd ledger_state) 12], qr_next_page_token = []\<rparr> \<and>
   QuerySplits ref_engine ref_api ref_cleared (page_request\<lparr>qs_page_token := ''gone''\<rparr>) ledger_state =
     Inl (invalid_argument ''page_token does not match any current result'' ''page_token'')"
proof -
  let ?guid = "split_guid_string ref_engine (snd ledger_state)" and ?ok = "value_in_bounds ref_engine None None (snd ledger_state)"
  have "Session_book ref_api ledger_state = Inr 5" by code_simp
  moreover have splits: "live_splits 9 (snd ledger_state) = [11, 12]" by code_simp
  ultimately have run: "QuerySplits_run ref_engine ref_api ref_cleared (page_request\<lparr>qs_page_token := token\<rparr>) ledger_state =
      Inr ([11, 12], ?ok)" for token
    by (simp add: QuerySplits_run_def page_request_def optional_stamp_def optional_numeric_def ClearedMaskFromStates_def)
  have guids: "?guid 11 \<noteq> []" "?guid 12 \<noteq> ?guid 11" "?guid 11 \<noteq> ''gone''" "?guid 12 \<noteq> ''gone''" by code_simp+
  have ok: "?ok 11" "?ok 12" by (simp_all add: value_in_bounds_def)
  have size: "1 \<le> effective_page_size (qs_page_size page_request)" using effective_page_size_bounds by simp
  show ?thesis
    using page_equals_reference [OF run [of "?guid 11"]] page_equals_reference [OF run [of "''gone''"]] guids ok size
    by (simp add: page_after_def Let_def)
qed

theorem trial_balance_exact_witness:
  "\<exists>keys. map (\<lambda>k. te_currency k) (case GetTrialBalance ref_engine ref_api ledger_state of Inr es \<Rightarrow> es | Inl _ \<Rightarrow> []) =
     map (\<lambda>k. Some \<lparr>ci_space = fst k, ci_mnemonic = snd k\<rparr>) keys \<and> set keys = {(''CURRENCY'', ''EUR'')}"
proof -
  have book: "Session_book ref_api ledger_state = Inr 5" by code_simp
  have splits: "qof_query_run ref_engine 5 [] (snd ledger_state) = [11, 12]" by code_simp
  have "trial_key ref_engine (snd ledger_state) 11 = Some (''CURRENCY'', ''EUR'')"
    "trial_key ref_engine (snd ledger_state) 12 = Some (''CURRENCY'', ''EUR'')" by code_simp+
  then have "{k. \<exists>sp \<in> set [11, 12]. trial_key ref_engine (snd ledger_state) sp = Some k} = {(''CURRENCY'', ''EUR'')}" by auto
  with trial_balance_exact [OF book, of ref_engine, unfolded splits] show ?thesis by (fastforce simp: comp_def)
qed

section \<open>Backups\<close>

definition full_disk :: fs_env where
  "full_disk = \<lparr>fs_fault = (\<lambda>op. case op of Op_rename _ _ \<Rightarrow> Some ''no space'' | _ \<Rightarrow> None), fs_today = (2024, 1, 2)\<rparr>"

definition small_fs :: file_system where
  "small_fs = [(''/b'', File ''data''), (''/k'', Dir), (''/k/2023-12-30'', Dir), (''/k/2023-12-31'', Dir)]"

theorem failed_snapshot_leaves_none_witness:
  "\<exists>e fs'. SnapshotBeforeOpen full_disk ''/b'' ''/b.daichod-journal'' ''/k'' 14 small_fs = (Inl e, fs') \<and>
     outside (path_join ''/k'' (TodayStamp full_disk)) fs'"
proof -
  have "case fst (SnapshotBeforeOpen full_disk ''/b'' ''/b.daichod-journal'' ''/k'' 14 small_fs) of Inl _ \<Rightarrow> True | _ \<Rightarrow> False"
    by code_simp
  then obtain e fs' where
    run: "SnapshotBeforeOpen full_disk ''/b'' ''/b.daichod-journal'' ''/k'' 14 small_fs = (Inl e, fs')"
    by (cases "SnapshotBeforeOpen full_disk ''/b'' ''/b.daichod-journal'' ''/k'' 14 small_fs") (auto split: sum.splits)
  have "outside (path_join ''/k'' (TodayStamp full_disk)) small_fs" by code_simp
  moreover have "fs_fault full_disk (Op_next_entry ''/k'' i) = None" for i by (simp add: full_disk_def)
  ultimately show ?thesis using failed_snapshot_leaves_none [OF run] run by (metis option.distinct(1))
qed

theorem prune_keeps_newest_witness:
  "snapshot_dirs ''/k'' (prune_loop full_disk 1 (snapshot_dirs ''/k'' small_fs) small_fs) = [''/k/2023-12-31'']"
proof -
  have "snapshot_dirs ''/k'' small_fs = [''/k/2023-12-30'', ''/k/2023-12-31'']" by code_simp
  moreover have "distinct (map fst small_fs)" by (simp add: small_fs_def)
  ultimately show ?thesis using prune_keeps_newest [of full_disk small_fs "''/k''" 1] by (simp add: full_disk_def Let_def)
qed

section \<open>The daemon\<close>

theorem open_book_idempotent_witness:
  "\<exists>info x'. OpenBook ref_status_pb None ref_engine ref_api no_locks ''5.0'' ''1.0'' (closed_session, ref_book) =
       (Ret (Status_OK, info), x') \<and>
     OpenBook ref_status_pb None ref_engine ref_api no_locks ''5.0'' ''1.0'' x' = (Ret (Status_OK, info), x') \<and> info \<noteq> None"
proof -
  have "case fst (OpenBook ref_status_pb None ref_engine ref_api no_locks ''5.0'' ''1.0'' (closed_session, ref_book)) of
      Ret (st, _) \<Rightarrow> st = Status_OK | _ \<Rightarrow> False" by code_simp
  then obtain info x' where
    run: "OpenBook ref_status_pb None ref_engine ref_api no_locks ''5.0'' ''1.0'' (closed_session, ref_book) =
      (Ret (Status_OK, info), x')"
    by (cases "OpenBook ref_status_pb None ref_engine ref_api no_locks ''5.0'' ''1.0'' (closed_session, ref_book)")
       (auto split: flow.splits)
  from open_book_idempotent [OF run, of no_locks None] run show ?thesis
    by (intro exI [of _ info] exI [of _ x'] conjI) simp_all
qed

definition all_free :: os_env where
  "all_free = \<lparr>os_open_lock = (\<lambda>_. True), os_open_pid = (\<lambda>_. True), os_listen = (\<lambda>_. True)\<rparr>"

definition ref_options :: Options where
  "ref_options = Options_default\<lparr>opt_book_uri := ''sqlite3:///b'', socket_path := ''/s'', journal_path := ''/b.daichod-journal''\<rparr>"

definition ref_host :: host where
  "ref_host = \<lparr>h_os = snd (AcquireLocks all_free (\<lambda>b. b) 1 ref_options new_os),
     h_daemons = [1 \<mapsto> (ref_options, Has_both_locks)]\<rparr>"

lemma ref_host_reachable: "(lock_step all_free (\<lambda>b. b))\<^sup>*\<^sup>* new_host ref_host"
proof -
  let ?L = "lock_step all_free (\<lambda>b. b)"
  obtain s1 where s1: "acquire_socket_lock all_free 1 ref_options new_os = (Going (), s1)"
    and f1: "flocks s1 = [''/s.lock'' \<mapsto> 1]"
    by (simp add: acquire_socket_lock_def AcquireOneLock_def all_free_def new_os_def socket_lock_path_def ref_options_def)
  obtain s2 where s2: "acquire_book_lock all_free (\<lambda>b. b) 1 ref_options s1 = (Going (), s2)"
    using f1 by (simp add: acquire_book_lock_def AcquireOneLock_def all_free_def book_lock_path_def book_path_def
        ref_options_def starts_with_def)
  let ?h1 = "new_host\<lparr>h_daemons := (h_daemons new_host)(1 \<mapsto> (ref_options, Starting))\<rparr>"
  let ?h2 = "\<lparr>h_os = s1, h_daemons = (h_daemons ?h1)(1 \<mapsto> (ref_options, Has_socket_lock))\<rparr>"
  have 1: "?L new_host ?h1" by (rule lock_step.launch) (simp add: new_host_def)
  have 2: "?L ?h1 ?h2" by (rule lock_step.lock_socket) (use s1 in \<open>simp_all add: daemon_at_def new_host_def\<close>)
  have 3: "?L ?h2 \<lparr>h_os = unlink_socket (socket_path ref_options) s2,
      h_daemons = (h_daemons ?h2)(1 \<mapsto> (ref_options, Has_both_locks))\<rparr>"
    by (rule lock_step.lock_book) (use s2 in \<open>simp_all add: daemon_at_def\<close>)
  from 1 2 3 have "?L\<^sup>*\<^sup>* new_host \<lparr>h_os = unlink_socket (socket_path ref_options) s2,
      h_daemons = (h_daemons ?h2)(1 \<mapsto> (ref_options, Has_both_locks))\<rparr>"
    by (meson rtranclp.rtrancl_refl rtranclp.rtrancl_into_rtrancl)
  then show ?thesis
    using s1 s2 by (simp add: ref_host_def AcquireLocks_def new_host_def)
qed

theorem one_daemon_per_book_witness:
  "let o2 = ref_options\<lparr>socket_path := ''/other''\<rparr>
   in \<exists>m s. acquire_book_lock all_free (\<lambda>b. b) 2 o2 (h_os ref_host) = (Failed ''book_already_open'' m, s)"
proof -
  let ?o2 = "ref_options\<lparr>socket_path := ''/other''\<rparr>"
  have past: "daemon_at ref_host 1 ref_options Has_both_locks" by (simp add: daemon_at_def ref_host_def)
  have "addresses (opt_book_uri ref_options) (Book_file ''/b'')"
    using addresses.by_file [of "''/b''"] by (simp add: ref_options_def)
  then have same: "same_book ref_options ?o2" unfolding same_book_def by (intro exI [of _ "Book_file ''/b''"]) simp
  from one_daemon_per_book [OF ref_host_reachable past, of 2 ?o2] same show ?thesis
    by (auto simp: all_free_def)
qed

text \<open>
  What the locks do not catch: two daemons on one database whose journals are in different
  directories both get past their locks.
\<close>

definition database_options :: "string \<Rightarrow> string \<Rightarrow> Options" where
  "database_options dir socket = Options_default\<lparr>opt_book_uri := ''postgres://u:p@db/books'', socket_path := socket,
     journal_path := dir @ ''/journal''\<rparr>"

lemma database_addressed: "addresses (opt_book_uri (database_options dir socket)) (Book_database ''db/books'')"
  using addresses.with_credentials [of "''u:p''" "''db/books''"] by (simp add: database_options_def)

lemma one_database_two_daemons:
  "let s1 = snd (AcquireLocks all_free (\<lambda>b. b) 1 (database_options ''/one'' ''/s1'') new_os);
       s2 = snd (AcquireLocks all_free (\<lambda>b. b) 2 (database_options ''/two'' ''/s2'') s1)
   in flocks s2 (book_lock_path (\<lambda>b. b) (database_options ''/one'' ''/s1'')) = Some 1 \<and>
      flocks s2 (book_lock_path (\<lambda>b. b) (database_options ''/two'' ''/s2'')) = Some 2"
  by code_simp

definition ref_global :: "ref_world global_api" where
  "ref_global = \<lparr>gnc_environment_setup = (\<lambda>w. w), gnc_filepath_init = (\<lambda>w. w), qof_log_init = (\<lambda>w. w),
     qof_log_set_level_warning = (\<lambda>w. w), gnc_engine_init = (\<lambda>w. w), gnc_engine_shutdown = (\<lambda>w. w)\<rparr>"

definition ref_run :: "ref_world run_env" where
  "ref_run = \<lparr>re_pid = 1, re_version = ''1.0'', re_os = all_free, re_fs = full_disk,
     re_open = \<lparr>open_errmsg = None, exec_errmsg = (\<lambda>_. None)\<rparr>, re_mut = ref_env,
     re_order = ref_order, re_pbs = ref_pbs, re_eng = ref_engine, re_api = ref_api, re_global = ref_global,
     re_lock = no_locks, re_now = (\<lambda>_. 7), re_fail_at = None\<rparr>"

lemma ref_run_sel [simp]:
  "re_mut ref_run = ref_env" "re_order ref_run = ref_order" "re_eng ref_run = ref_engine" "re_api ref_run = ref_api"
  "re_pid ref_run = 1" "re_fail_at ref_run = None" "re_os ref_run = all_free"
  by (simp_all add: ref_run_def)

definition ref_machine :: "ref_world machine" where
  "ref_machine = \<lparr>m_os = new_os, m_fs = [], m_journal = None, m_world = snd ledger_state, m_blocked = [], m_pending = []\<rparr>"

lemma ref_startup:
  obtains s n m' where "Run_startup ref_run ref_options ref_machine = (Going (s, n), m')"
proof -
  have "case fst (Run_startup ref_run ref_options ref_machine) of Going _ \<Rightarrow> True | _ \<Rightarrow> False" by code_simp
  then show thesis
    using that by (cases "Run_startup ref_run ref_options ref_machine") (auto split: process_end.splits)
qed

theorem serves_only_reconciled_witness:
  "\<exists>s n m'. Run_startup ref_run ref_options ref_machine = (Going (s, n), m') \<and>
     RunStartupChecks ref_engine ref_api (s, m_world m') = Inr () \<and> pending_entry (disk_journal m') ref_id = None"
proof -
  obtain s n m' where run: "Run_startup ref_run ref_options ref_machine = (Going (s, n), m')" by (rule ref_startup)
  have "journal_inv (env_outcome_pb (re_mut ref_run)) (disk_journal ref_machine)"
    by (simp add: journal_inv_def disk_journal_def ref_machine_def)
  with serves_only_reconciled [OF run] run show ?thesis by (auto simp: sql_order_by_def)
qed

theorem failed_startup_reported_witness:
  "let m = ref_machine\<lparr>m_os := snd (AcquireLocks all_free (\<lambda>b. b) 7 ref_options new_os)\<rparr>
   in \<exists>lines m'. Run_startup ref_run ref_options m = (Failed ''already_running'' ''another daichod holds /s.lock'', m') \<and>
        stderr_of (m_os m') 1 = lines @ [json_error ''already_running'' ''another daichod holds /s.lock'']"
proof -
  let ?m = "ref_machine\<lparr>m_os := snd (AcquireLocks all_free (\<lambda>b. b) 7 ref_options new_os)\<rparr>"
  have "fst (Run_startup ref_run ref_options ?m) = Failed ''already_running'' ''another daichod holds /s.lock''" by code_simp
  then obtain m' where run: "Run_startup ref_run ref_options ?m = (Failed ''already_running'' ''another daichod holds /s.lock'', m')"
    by (metis prod.collapse)
  from failed_startup_reported [OF run] run show ?thesis by (auto simp: Let_def)
qed

theorem shutdown_exit_code_witness:
  "\<exists>code m3 s n m1 fl s3. Run_startup ref_run ref_options ref_machine = (Going (s, n), m1) \<and>
     Run ref_run (\<lambda>s m. (False, s, m)) ref_options ref_machine = (Going code, m3) \<and>
     Session_Close ref_api None (s, m_world m1) = (fl, (s3, m_world m3)) \<and> code = (if fl = Ret () then 0 else 1)"
proof -
  obtain s n m1 where run: "Run_startup ref_run ref_options ref_machine = (Going (s, n), m1)" by (rule ref_startup)
  from shutdown_exit_code [OF run, of "\<lambda>s m. (False, s, m)" False s m1] run show ?thesis by auto
qed

end
