(* ===== verification/Concrete_Lives.thy ===== *)
theory Concrete_Lives
  imports Concrete_Runs Lifetime
begin

text \<open>
  The properties of whole lives at concrete inputs: a service on the reference engine, a call
  that creates an account, and a daemon that is killed and started again.
\<close>

section \<open>A service and a call\<close>

definition ref_requests :: request_pb where
  "ref_requests = \<lparr>qpb_account = as_pb account_request_codec,
     qpb_reconcile = as_pb (iso_codec (\<lambda>m. (sr_meta_mutation_id m, sr_account_guid m, sr_last_date m))
       (\<lambda>(i, g, d). \<lparr>sr_meta_mutation_id = i, sr_account_guid = g, sr_last_date = d\<rparr>)
       (pair_codec string_codec (pair_codec string_codec (option_codec date_codec)))),
     qpb_transaction = as_pb transaction_request_codec,
     qpb_price = as_pb (iso_codec (\<lambda>m. (ap_meta_mutation_id m, ap_price m))
       (\<lambda>(i, p). \<lparr>ap_meta_mutation_id = i, ap_price = p\<rparr>) (pair_codec string_codec price_codec)),
     qpb_delete_account = as_pb delete_codec, qpb_delete_transaction = as_pb delete_codec\<rparr>"

definition ref_responses :: response_pb where
  "ref_responses = \<lparr>rpb_account = as_pb account_codec, rpb_reconcile = as_pb reconcile_info_codec,
     rpb_transaction = as_pb transaction_codec, rpb_price = as_pb price_codec, rpb_empty = as_pb unit_codec\<rparr>"

definition ref_service :: "ref_world service_env" where
  "ref_service = \<lparr>sv_mut = ref_env, sv_order = ref_order, sv_requests = ref_requests, sv_responses = ref_responses,
     sv_eng = ref_engine, sv_api = ref_api, sv_lock = no_locks, sv_fail_at = None, sv_gnc_version = ''5.0'',
     sv_shim_version = ''1.0'', sv_cleared = ref_cleared, sv_hash_order = (\<lambda>t. t)\<rparr>"

definition ref_call :: "ref_world call_context" where
  "ref_call = \<lparr>cx_admission = None, cx_worker = new_EngineWorker 256 (empty_journal, ref_state), cx_start_time = 0, cx_now = 60\<rparr>"

abbreviation "ref_create \<equiv> AccountService (CreateAccount_rpc create_request)"

lemma ref_create_answers:
  obtains r st where
    "handle ref_service ref_call ref_create (empty_journal, ref_state) = (Ret (Status_OK, Some (R_Account r)), st)"
proof -
  let ?plan = "edit_plan (CreateAccount_checks ref_engine ref_api (ar_account create_request))
     (CreateAccount_edit ref_engine (ar_account create_request))"
  obtain r x1 x2 where e: "CreateAccount_edit ref_engine (ar_account create_request) (5, 0, ACCT_TYPE_BANK, 0) ref_state = (r, x1, x2)"
    by (metis prod_cases3)
  have plan: "?plan ref_state = Ret (r, x1, x2)" by (simp add: edit_plan_def ref_checks(1) e)
  from create_account.body_applies [OF ref_id_valid _ _ _ _ plan, of empty_journal ref_env] obtain j' where
    "RunMutation_body ref_env rpb ref_id q n (CreateAccount_apply ref_engine ref_api create_request) (empty_journal, ref_state) =
       (Ret r, (j', x2))" if "rpb = as_pb account_codec" and "q = SerializeAsString (as_pb account_request_codec) create_request"
      and "n = ''daicho.shim.v1.AccountService/CreateAccount''" for rpb q n
    by simp blast
  then show thesis
    by (intro that [of r "(j', x2)"])
       (simp add: CreateAccount_def RunMutation_def RunRpc_def ref_service_def ref_call_def ref_requests_def ref_responses_def
          create_request_def)
qed

theorem rpcs_well_typed_witness:
  "\<exists>r s'. handle ref_service ref_call ref_create (empty_journal, ref_state) = (Ret (Status_OK, Some r), s') \<and>
     response_type ref_create r"
proof -
  obtain r st where run: "handle ref_service ref_call ref_create (empty_journal, ref_state) = (Ret (Status_OK, Some (R_Account r)), st)"
    by (rule ref_create_answers)
  from rpcs_well_typed [OF run] run show ?thesis by blast
qed

text \<open>
  The daemon dies after it has answered; before it is started again on what its journal holds,
  somebody puts an older copy of the book back.
\<close>

definition first_machine :: "ref_world machine" where
  "first_machine = ref_machine\<lparr>m_world := ref_book\<rparr>"

definition restored :: "Journal \<Rightarrow> ref_world machine" where
  "restored j = ref_machine\<lparr>m_journal := Some j\<rparr>"

lemma first_machine_views [simp]:
  "server_state ref_session first_machine = (empty_journal, ref_state)" "disk_journal first_machine = empty_journal"
  "disk_journal (restored j) = j"
  by (simp_all add: server_state_def first_machine_def ref_state_def ref_machine_def restored_def disk_journal_def)

lemma ref_machine_ready:
  "machine_ready ref_run ref_options (restored j)" "socket_lock_path ref_options \<noteq> book_lock_path sha256 ref_options"
  "opt_queue_depth ref_options \<noteq> 0" "backup_dir ref_options = []"
  by (simp_all add: machine_ready_def ref_run_def restored_def ref_machine_def new_os_def all_free_def sql_order_by_def
      socket_lock_path_def book_lock_path_def book_path_def ref_options_def starts_with_def Options_default_def)

lemma ref_book_opens:
  obtains s w where
    "Session_Open ref_api (re_lock ref_run) (new_session ref_options, GlobalInit (re_global ref_run) (m_world (restored j))) = (Ret (), (s, w))"
    and "RunStartupChecks ref_engine ref_api (s, w) = Inr ()"
proof -
  obtain s n m' where "Run_startup ref_run ref_options ref_machine = (Going (s, n), m')" by (rule ref_startup)
  then show thesis by (rule Run_startupE) (use that [of s "m_world m'"] in \<open>simp add: restored_def\<close>)
qed

lemma ref_restart:
  assumes "journal_inv ref_outcome_pb j"
  obtains s n m' where "Run_startup ref_run ref_options (restored j) = (Going (s, n), m')"
proof -
  obtain s w where o: "Session_Open ref_api (re_lock ref_run) (new_session ref_options, GlobalInit (re_global ref_run)
        (m_world (restored j))) = (Ret (), (s, w))"
    and c: "RunStartupChecks ref_engine ref_api (s, w) = Inr ()" by (rule ref_book_opens)
  show thesis
    by (rule Run_startup_ready [OF ref_machine_ready(1,2,3), of j ref_outcome_pb s w])
       (use o c assms ref_machine_ready(4) that in auto)
qed

lemma restart_is_life:
  assumes "Run_startup ref_run ref_options (restored (fst st)) = (Going (s2, n), m2)"
  shows "(life_step ref_outcome_pb)\<^sup>*\<^sup>* (Up s (after_call first_machine st)) (Down (restored (fst st)))"
    and "(life_step ref_outcome_pb)\<^sup>*\<^sup>* (Up s (after_call first_machine st)) (Up s2 m2)"
proof -
  have "life_step ref_outcome_pb (Up s (after_call first_machine st)) (Down (after_call first_machine st))"
    by (rule life_step.killed)
  moreover have "life_step ref_outcome_pb (Down (after_call first_machine st)) (Down (restored (fst st)))"
    by (rule life_step.elsewhere) (simp add: restored_def after_call_def)
  ultimately show "(life_step ref_outcome_pb)\<^sup>*\<^sup>* (Up s (after_call first_machine st)) (Down (restored (fst st)))"
    by (meson rtranclp.simps)
  moreover have "life_step ref_outcome_pb (Down (restored (fst st))) (Up s2 m2)"
    by (rule life_step.starts [OF _ assms]) simp
  ultimately show "(life_step ref_outcome_pb)\<^sup>*\<^sup>* (Up s (after_call first_machine st)) (Up s2 m2)"
    by (meson rtranclp.simps)
qed

lemma ref_service_pbs:
  "responses_roundtrip (sv_responses ref_service)" "env_outcome_pb (sv_mut ref_service) = ref_outcome_pb"
  "healthy_call ref_service ref_call" "mutation_id_of ref_create = Some ref_id" "journal_inv ref_outcome_pb empty_journal"
  by (simp_all add: responses_roundtrip_def ref_service_def ref_responses_def as_pb_roundtrip healthy_call_def ref_call_def
      create_request_def journal_inv_def)

lemma ref_life:
  obtains r st s2 n m2 where
    "handle ref_service ref_call ref_create (server_state ref_session first_machine) = (Ret (Status_OK, Some (R_Account r)), st)"
    and "journal_inv ref_outcome_pb (fst st)"
    and "Run_startup ref_run ref_options (restored (fst st)) = (Going (s2, n), m2)"
proof -
  obtain r st where run: "handle ref_service ref_call ref_create (empty_journal, ref_state) = (Ret (Status_OK, Some (R_Account r)), st)"
    by (rule ref_create_answers)
  have inv: "journal_inv ref_outcome_pb (fst st)"
    using journal_writes_inv [OF handle_journal_writes [of ref_service "(empty_journal, ref_state)" ref_call ref_create]]
      run ref_service_pbs by simp
  obtain s2 n m2 where "Run_startup ref_run ref_options (restored (fst st)) = (Going (s2, n), m2)"
    using ref_restart [OF inv] by blast
  with run inv that show thesis by simp
qed

theorem exactly_once_for_life_witness:
  "\<exists>r st s2 n m2. handle ref_service ref_call ref_create (server_state ref_session first_machine) = (Ret (Status_OK, Some r), st) \<and>
     Run_startup ref_run ref_options (restored (fst st)) = (Going (s2, n), m2) \<and>
     handle ref_service ref_call ref_create (server_state s2 m2) = (Ret (Status_OK, Some r), server_state s2 m2)"
proof -
  obtain r st s2 n m2 where
    run: "handle ref_service ref_call ref_create (server_state ref_session first_machine) = (Ret (Status_OK, Some (R_Account r)), st)"
    and restart: "Run_startup ref_run ref_options (restored (fst st)) = (Going (s2, n), m2)" by (rule ref_life)
  have "handle ref_service ref_call ref_create (server_state s2 m2) = (Ret (Status_OK, Some (R_Account r)), server_state s2 m2)"
    by (rule exactly_once_for_life [OF run ref_service_pbs(4,2) ref_outcome_pb_roundtrip ref_service_pbs(1) _
          restart_is_life(2) [OF restart] ref_service_pbs(4) _ ref_service_pbs(2) refl ref_service_pbs(3)])
       (simp_all add: ref_service_pbs(5))
  with run restart show ?thesis by blast
qed

theorem outcomes_are_forever_witness:
  "\<exists>b j s2 n m2. outcome_of j ref_id = Some b \<and>
     Run_startup ref_run ref_options (restored j) = (Going (s2, n), m2) \<and> outcome_of (disk_journal m2) ref_id = Some b"
proof -
  obtain r st s2 n m2 where
    run: "handle ref_service ref_call ref_create (server_state ref_session first_machine) = (Ret (Status_OK, Some (R_Account r)), st)"
    and inv: "journal_inv ref_outcome_pb (fst st)"
    and restart: "Run_startup ref_run ref_options (restored (fst st)) = (Going (s2, n), m2)" by (rule ref_life)
  obtain b where b: "outcome_of (fst st) ref_id = Some b"
    using answered_is_recorded [OF ref_service_pbs(4) run _ ref_service_pbs(1)] ref_service_pbs(2,5)
    by (auto simp: journal_inv_def)
  from outcomes_are_forever [OF restart_is_life(2) [OF restart, of ref_session] ref_outcome_pb_roundtrip] inv
  have "\<forall>mid b. outcome_of (fst st) mid = Some b \<longrightarrow> outcome_of (disk_journal m2) mid = Some b"
    by (simp add: daemon_journal_def after_call_def)
  with b restart show ?thesis by blast
qed

theorem every_life_recovers_witness:
  "\<exists>r st s n m2. handle ref_service ref_call ref_create (server_state ref_session first_machine) = (Ret (Status_OK, Some r), st) \<and>
     Run_startup ref_run ref_options (restored (fst st)) = (Going (s, n), m2)"
proof -
  obtain r st s2 n m2 where
    run: "handle ref_service ref_call ref_create (server_state ref_session first_machine) = (Ret (Status_OK, Some (R_Account r)), st)"
    and inv: "journal_inv ref_outcome_pb (fst st)"
    and restart: "Run_startup ref_run ref_options (restored (fst st)) = (Going (s2, n), m2)" by (rule ref_life)
  obtain s w where
    o: "Session_Open ref_api (re_lock ref_run) (new_session ref_options, GlobalInit (re_global ref_run) (m_world (restored (fst st)))) = (Ret (), (s, w))"
    and c: "RunStartupChecks ref_engine ref_api (s, w) = Inr ()" by (rule ref_book_opens)
  have "\<exists>n m'. Run_startup ref_run ref_options (restored (fst st)) = (Going (s, n), m') \<and> m_world m' = w"
    by (rule every_life_recovers [OF restart_is_life(1) [OF restart, of ref_session] ref_outcome_pb_roundtrip _ ref_machine_ready(1,2,3)])
       (use o c inv ref_machine_ready(4) in \<open>simp_all add: daemon_journal_def after_call_def\<close>)
  with run show ?thesis by blast
qed

end
