(* ===== verification/Concrete_Calls.thy ===== *)
theory Concrete_Calls
  imports Concurrent_Calls Concrete_Lives
begin

text \<open>
  Two clients on the threads of the worker, at concrete inputs: both ask for the same new account
  under the same mutation id.
\<close>

definition ref_client :: "ref_world call" where
  "ref_client = \<lparr>cl_env = ref_service, cl_context = ref_call, cl_rpc = ref_create\<rparr>"

lemma ref_client_calls [simp]:
  "cl_env ref_client = ref_service" "cl_context ref_client = ref_call" "cl_rpc ref_client = ref_create"
  "is_call ref_outcome_pb (call_task k ref_client)"
proof -
  show sel: "cl_env ref_client = ref_service" "cl_context ref_client = ref_call" "cl_rpc ref_client = ref_create"
    by (simp_all add: ref_client_def)
  have "on_queue ref_outcome_pb ref_client" by (simp add: on_queue_def sel ref_service_pbs(2)) (simp add: ref_call_def)
  then show "is_call ref_outcome_pb (call_task k ref_client)" unfolding is_call_def by (intro exI [of _ ref_client]) simp
qed

abbreviation "first_state \<equiv> server_state ref_session first_machine"

lemma first_client_answered:
  obtains r where "fst (handled ref_client first_state) = Ret (Status_OK, Some (R_Account r))"
proof -
  obtain r st where "handle ref_service ref_call ref_create (empty_journal, ref_state) = (Ret (Status_OK, Some (R_Account r)), st)"
    by (rule ref_create_answers)
  then show thesis by (intro that [of r]) (simp add: handled_def)
qed

lemma first_client_run:
  obtains es th where "thread_run (new_threads 4 first_state) es th" and "idle th" and "tickets th = {1}"
    and "accepted (sections es) = [call_task 1 ref_client]"
    and "Returns 1 (call_task 1 ref_client) (Inr (fst (handled ref_client first_state))) \<in> set es"
proof -
  define th where "th = (new_threads 4 first_state :: (ref_world server_state, (exn, Status \<times> response option) flow) threads)"
  note start = new_threads_idle [OF _ th_def]
  let ?t = "call_task 1 ref_client"
  have sel: "engine_state (worker (th\<lparr>engine := Asleep\<rparr>)) = first_state" "tickets (th\<lparr>engine := Asleep\<rparr>) = {}"
    by (simp_all add: th_def new_threads_def new_EngineWorker_def)
  have fresh: "ticket ?t \<notin> tickets (th\<lparr>engine := Asleep\<rparr>)" using sel(2) by simp
  have pos: "0 < (4 :: nat)" by simp
  obtain es th' where run: "thread_run (th\<lparr>engine := Asleep\<rparr>) es th'" and "idle th'" "accepted (sections es) = [?t]"
    and "Returns 1 ?t (fst (packaged ?t first_state)) \<in> set es" "tickets th' = insert (ticket ?t) {}"
    by (rule call_served [OF start(2) [OF pos] fresh, unfolded sel])
  then show thesis
    using that [of "[Quiet, Quiet] @ es" th'] run_append [OF run start(1) [OF pos]] by (simp add: th_def)
qed

theorem threads_serve_life_witness:
  "\<exists>es th s' m'. thread_run (new_threads 4 first_state) es th \<and> accepted (sections es) = [call_task 1 ref_client] \<and>
     (life_step ref_outcome_pb)\<^sup>*\<^sup>* (Up ref_session first_machine) (Up s' m') \<and> engine_state (worker th) = server_state s' m'"
proof -
  obtain es th where run: "thread_run (new_threads 4 first_state) es th" and idle: "idle th"
    and acc: "accepted (sections es) = [call_task 1 ref_client]" by (rule first_client_run)
  obtain r where r: "fst (handled ref_client first_state) = Ret (Status_OK, Some (R_Account r))" by (rule first_client_answered)
  have "worker_inv first_state 4 (sections es) (worker th)"
    using worker_run_inv [of _ "sections es" "worker th" 4 first_state] run_reached [OF run refl] by (simp add: reached_def)
  then have "finished (sections es) = [call_task 1 ref_client]" using acc idle by (simp add: worker_inv_def idle_def)
  moreover have "none_aborted [call_task 1 ref_client] first_state"
    using r by (auto simp: none_aborted_def Cons_eq_append_conv simp del: first_machine_views)
  ultimately show ?thesis using threads_serve_life [OF run, of ref_outcome_pb] run acc by auto
qed

theorem concurrent_exactly_once_witness:
  "\<exists>es th r. thread_run (new_threads 4 first_state) es th \<and>
     accepted (sections es) = [call_task 1 ref_client, call_task 2 ref_client] \<and>
     Returns 2 (call_task 2 ref_client) (Inr (Ret (Status_OK, Some r))) \<in> set es \<and>
     run_serial [call_task 1 ref_client, call_task 2 ref_client] first_state = run_serial [call_task 1 ref_client] first_state"
proof -
  let ?t = "\<lambda>k. call_task k ref_client"
  obtain es th where run: "thread_run (new_threads 4 first_state) es th" and idle: "idle th" and tickets: "tickets th = {1}"
    and acc: "accepted (sections es) = [?t 1]" and ret: "Returns 1 (?t 1) (Inr (fst (handled ref_client first_state))) \<in> set es"
    by (rule first_client_run)
  obtain r where r: "fst (handled ref_client first_state) = Ret (Status_OK, Some (R_Account r))" by (rule first_client_answered)
  have fresh: "ticket (?t 2) \<notin> tickets th" using tickets by simp
  obtain fs th' where run': "thread_run th fs th'" and acc': "accepted (sections fs) = [?t 2]"
    and ret': "Returns 2 (?t 2) (fst (packaged (?t 2) (engine_state (worker th)))) \<in> set fs"
    by (rule call_served [OF idle fresh])
  note both = run_append [OF run' run]
  have journal: "journal_inv ref_outcome_pb (fst first_state)" using ref_service_pbs(5) by simp
  have answers: "Returns 1 (?t 1) (Inr (Ret (Status_OK, Some (R_Account r)))) \<in> set (es @ fs)"
    "Returns 2 (?t 2) (fst (packaged (?t 2) (engine_state (worker th)))) \<in> set (es @ fs)" using ret ret' r by simp_all
  have "fst (packaged (?t 2) (engine_state (worker th))) = Inr (Ret (Status_OK, Some (R_Account r))) \<and>
     run_serial ([] @ ?t 1 # [] @ [?t 2]) first_state = run_serial ([] @ ?t 1 # []) first_state"
    by (rule concurrent_exactly_once [OF both _ _ answers, where mid = ref_id and pb = ref_outcome_pb and vs = "[]"])
       (use acc acc' journal ref_service_pbs ref_outcome_pb_roundtrip in \<open>simp_all del: first_machine_views\<close>)
  with both acc acc' answers(2) show ?thesis by (intro exI [of _ "es @ fs"] exI [of _ th'] exI [of _ "R_Account r"]) (simp del: first_machine_views)
qed

end
