(* ===== verification/Recovered_Records.thy ===== *)
theory Recovered_Records
  imports Crash_Recovery
begin

text \<open>
  Crash recovery of the mutating RPCs that \<open>Crash_Recovery\<close> leaves open: the reconcile date of
  an account, the deletion of a transaction and the addition of a price.
\<close>

section \<open>What is assumed of the engine\<close>

definition book_price :: "'w engine \<Rightarrow> QofBook \<Rightarrow> string \<Rightarrow> 'w \<Rightarrow> PriceMsg option" where
  "book_price eng book guid w =
     (case string_to_guid (lib eng) (c_str guid) of
        None \<Rightarrow> None
      | Some g \<Rightarrow> map_option (\<lambda>p. PriceToProto eng p w) (gnc_price_lookup eng g book w))"

text \<open>A destroyed transaction is gone from the database once its edit is committed.\<close>

definition durable_trans_deletes :: "'w engine \<Rightarrow> QofBook \<Rightarrow> QofBook \<Rightarrow> ('w \<Rightarrow> 'w) \<Rightarrow> bool" where
  "durable_trans_deletes eng book book' reopened \<longleftrightarrow>
     (\<forall>g t w. xaccTransLookup eng g book w = Some t \<longrightarrow>
        xaccTransLookup eng g book' (reopened (eng_seq eng
          [xaccTransBeginEdit t, xaccTransDestroy t, xaccTransCommitEdit t] w)) = None)"

text \<open>A price's edit stays in memory until its commit, and allocation writes nothing.\<close>

definition private_price_edits :: "'w engine \<Rightarrow> ('w \<Rightarrow> 'w) \<Rightarrow> bool" where
  "private_price_edits eng reopened \<longleftrightarrow>
     (\<forall>p. private_edits eng reopened (Edit_Price p)) \<and> (\<forall>b. quiet_alloc eng reopened (gnc_price_create eng b))"

text \<open>
  \<open>takes\<close> is the verdict of \<^verbatim>\<open>gnc_pricedb_add_price\<close>, which the code does not look at. A price
  whose outermost edit was committed and that the price database then takes is in the reopened
  book as it was in memory; of a price that is refused nothing is promised.
\<close>

definition durable_prices :: "'w engine \<Rightarrow> (GNCPrice \<Rightarrow> 'w \<Rightarrow> bool) \<Rightarrow> QofBook \<Rightarrow> ('w \<Rightarrow> 'w) \<Rightarrow> bool" where
  "durable_prices eng takes book reopened \<longleftrightarrow>
     (\<forall>p w. only_edit eng (Edit_Price p) w \<and> takes p (eng_do eng (gnc_price_commit_edit p) w) \<longrightarrow>
        (let w' = reopened (eng_seq eng [gnc_price_commit_edit p, gnc_pricedb_add_price p, gnc_price_unref p] w) in
         \<exists>q. gnc_price_lookup eng (price_guid (price_at eng p w)) book w' = Some q \<and>
             PriceToProto eng q w' = PriceToProto eng p w))"

text \<open>The verdict on the price that \<^verbatim>\<open>AddPrice\<close> allocates in \<open>w\<close> and has filled in in \<open>w1\<close>.\<close>

definition added_price_accepted :: "'w engine \<Rightarrow> (GNCPrice \<Rightarrow> 'w \<Rightarrow> bool) \<Rightarrow> QofBook \<Rightarrow> 'w \<Rightarrow> 'w \<Rightarrow> bool" where
  "added_price_accepted eng takes b w w1 \<longleftrightarrow>
     (let p = fst (gnc_price_create eng b w) in takes p (eng_do eng (gnc_price_commit_edit p) w1))"

section \<open>The handlers recover\<close>

lemma delete_transaction_verdict:
  assumes "ParseFromString (pb_delete_transaction pbs) request = Some req"
  shows "WasApplied pbs eng book w (entry_of mid ''daicho.shim.v1.TransactionService/DeleteTransaction'' request pending) =
    Some (book_transaction eng book (dr_guid req) w = None)"
  using assms by (simp add: WasApplied_def ends_with_def c_str_def GuidExists_trans)

lemma add_price_verdict:
  assumes "message_pb_roundtrip (pb_price pbs)"
  shows "WasApplied pbs eng book w (entry_of mid ''daicho.shim.v1.CommodityService/AddPrice'' request
      (SerializeAsString (pb_price pbs) r)) = Some True \<longleftrightarrow> book_price eng book (pm_guid r) w \<noteq> None"
  using parse_back [OF assms] by (simp add: WasApplied_def ends_with_def c_str_def book_price_def split: option.split)

lemma DeleteTransaction_plan:
  assumes "edit_plan (DeleteTransaction_checks eng api guid) (DeleteTransaction_edit eng) x = Ret (r, x1, x2)"
    and "Session_book api x = Inr book" and "durable_trans_deletes eng book book' reopened"
  shows "x1 = x" and "book_transaction eng book' guid (reopened (snd x2)) = None"
proof -
  from assms(1,2) obtain t where t: "FindTransaction eng book guid ''guid'' (snd x) = Inr t" "DeleteTransaction_edit eng t x = (r, x1, x2)"
    by (auto simp: edit_plan_Ret DeleteTransaction_checks_def attempt_eq_Ret)
  from t(1) obtain g where g: "string_to_guid (lib eng) (c_str guid) = Some g" "xaccTransLookup eng g book (snd x) = Some t"
    by (auto simp: FindTransaction_eq_Inr)
  from t(2) have x: "x1 = x"
    "snd x2 = eng_seq eng [xaccTransBeginEdit t, xaccTransDestroy t, xaccTransCommitEdit t] (snd x)"
    by (auto simp: DeleteTransaction_edit_def)
  show "x1 = x" by (rule x)
  show "book_transaction eng book' guid (reopened (snd x2)) = None"
    using assms(3) g unfolding durable_trans_deletes_def x(2) book_transaction_def by (simp del: eng_seq_simps)
qed

lemma AddPrice_opened:
  assumes "AddPrice_edit eng spec (b, com, cur, date, val) x = (r, x1, x2)" and "private_price_edits eng reopened"
    and "idle eng (snd x)"
  defines "p \<equiv> fst (gnc_price_create eng b (snd x))"
  shows "r = PriceToProto eng p (snd x1)" and "only_edit eng (Edit_Price p) (snd x1)"
    and "reopened (snd x1) = reopened (snd x)"
    and "snd x2 = eng_seq eng [gnc_price_commit_edit p, gnc_pricedb_add_price p, gnc_price_unref p] (snd x1)"
proof -
  obtain w0 where m: "gnc_price_create eng b (snd x) = (p, w0)" by (metis p_def prod.collapse)
  let ?cs = "[gnc_price_set_commodity p com, gnc_price_set_currency p cur,
      gnc_price_set_time64 p (gnc_dmy2time64_neutral (lib eng) date), gnc_price_set_value p val,
      gnc_price_set_source_string p (if pm_source spec = [] then ''shim:api'' else c_str (pm_source spec))]"
  have w1: "snd x1 = eng_seq eng (begin_edit (Edit_Price p) # ?cs) w0" "r = PriceToProto eng p (snd x1)"
    "snd x2 = eng_seq eng [gnc_price_commit_edit p, gnc_pricedb_add_price p, gnc_price_unref p] (snd x1)"
    using assms(1) by (auto simp: AddPrice_edit_def Let_def m)
  have "quiet_alloc eng reopened (gnc_price_create eng b)" "private_edits eng reopened (Edit_Price p)"
    using assms(2) by (simp_all add: private_price_edits_def)
  with assms(3) have "reopened w0 = reopened (snd x)" "idle eng w0" and pe: "private_edits eng reopened (Edit_Price p)"
    unfolding quiet_alloc_def by (metis m snd_conv)+
  moreover have "\<forall>c \<in> set ?cs. in_edit (Edit_Price p) c" by simp
  note private_edit [OF pe this, of w0]
  ultimately show "only_edit eng (Edit_Price p) (snd x1)" "reopened (snd x1) = reopened (snd x)"
    unfolding w1(1) by simp_all
  show "r = PriceToProto eng p (snd x1)"
    "snd x2 = eng_seq eng [gnc_price_commit_edit p, gnc_pricedb_add_price p, gnc_price_unref p] (snd x1)"
    by (rule w1(2,3))+
qed

lemma AddPrice_stored:
  assumes "AddPrice_edit eng spec (b, com, cur, date, val) x = (r, x1, x2)" and "private_price_edits eng reopened"
    and "idle eng (snd x)" and "durable_prices eng takes book reopened" and "guid_text (lib eng)"
    and "added_price_accepted eng takes b (snd x) (snd x1)"
  shows "book_price eng book (pm_guid r) (reopened (snd x2)) = Some r"
proof -
  let ?p = "fst (gnc_price_create eng b (snd x))"
  note opened = AddPrice_opened [OF assms(1-3)]
  have "pm_guid r = GuidToString (lib eng) (price_guid (price_at eng ?p (snd x1)))"
    by (simp add: opened(1) PriceToProto_def Let_def)
  moreover obtain q where "gnc_price_lookup eng (price_guid (price_at eng ?p (snd x1))) book (reopened (snd x2)) = Some q"
    "PriceToProto eng q (reopened (snd x2)) = r"
    using assms(4,6) opened(2) unfolding durable_prices_def added_price_accepted_def Let_def opened(4) by (metis opened(1))
  ultimately show ?thesis using assms(5) by (simp add: book_price_def guid_text_def GuidToString_def)
qed

lemma DeleteTransaction_recoverable:
  assumes "durable_trans_deletes eng book book' reopened" and "ParseFromString (pb_delete_transaction pbs) req = Some request"
  shows "recoverable_apply (DeleteTransaction_apply eng api request)
     (edit_plan (DeleteTransaction_checks eng api (dr_guid request)) (DeleteTransaction_edit eng))
     (\<lambda>x. Session_book api x = Inr book) rpb ''daicho.shim.v1.TransactionService/DeleteTransaction'' req pbs eng book'
     (reopened \<circ> snd) (\<lambda>_ w. book_transaction eng book' (dr_guid request) w = None)"
  by (rule recoverableI [OF delete_transaction.planned_apply_axioms])
     (auto simp: delete_transaction_verdict [OF assms(2)] dest: DeleteTransaction_plan [OF _ _ assms(1)])

lemma AddPrice_judged:
  assumes "private_price_edits eng reopened" and "message_pb_roundtrip (pb_price pbs)"
  shows "judged_apply (AddPrice_apply eng api request)
     (edit_plan (AddPrice_checks eng api (ap_price request)) (AddPrice_edit eng (ap_price request)))
     (\<lambda>x. idle eng (snd x)) (pb_price pbs) ''daicho.shim.v1.CommodityService/AddPrice'' req pbs eng book (reopened \<circ> snd)
     (\<lambda>r w. book_price eng book (pm_guid r) w \<noteq> None)"
  by (rule judgedI [OF add_price.planned_apply_axioms])
     (auto simp: edit_plan_Ret add_price_verdict [OF assms(2)] dest: AddPrice_opened(3) [OF _ assms(1)])

section \<open>The reference engine has these laws\<close>

lemma ref_price_sel [simp]:
  "gnc_price_lookup ref_engine = (\<lambda>g b w. map_option (\<lambda>_. unat g) (st_prices (rw_mem w) g))"
  "gnc_price_create ref_engine = (\<lambda>b w. (rw_next w, set_mem_price (rw_next w) (Some new_price) (bump w)))"
  "price_guid (ref_price p w) = key p"
  by (simp_all add: ref_engine_def ref_price_def)

lemma ref_durable_trans_deletes: "durable_trans_deletes ref_engine book book' ref_reopened"
  by (auto simp: durable_trans_deletes_def ref_reopened_def commit_trans_def ref_store_defs)

lemma ref_private_price_edits: "private_price_edits ref_engine ref_reopened"
  by (auto simp: private_price_edits_def ref_private_edits quiet_alloc_def idle_def ref_store_defs intro!: ref_reopened_disk)

lemma ref_durable_prices: "durable_prices ref_engine (\<lambda>_ _. True) book ref_reopened"
  unfolding durable_prices_def Let_def
proof (intro allI impI)
  fix p w
  let ?w' = "ref_reopened (eng_seq ref_engine [gnc_price_commit_edit p, gnc_pricedb_add_price p, gnc_price_unref p] w)"
  let ?q = "unat (key p)"
  assume "only_edit ref_engine (Edit_Price p) w \<and> True"
  then have level: "rw_edits w (Edit_Price p) = 1" by (simp add: only_edit_def)
  have v: "ref_price ?q ?w' = ref_price p w"
    by (simp add: ref_price_def ref_reopened_def commit_price_def close_edit_def level)
  have "gnc_price_lookup ref_engine (price_guid (price_at ref_engine p w)) book ?w' = Some ?q"
    by (simp add: ref_reopened_def commit_price_def close_edit_def level)
  moreover have "PriceToProto ref_engine ?q ?w' = PriceToProto ref_engine p w"
    using v by (simp add: PriceToProto_def CommodityIdToProto_def Let_def del: eng_seq_simps)
  ultimately show "\<exists>q. gnc_price_lookup ref_engine (price_guid (price_at ref_engine p w)) book ?w' = Some q \<and>
      PriceToProto ref_engine q ?w' = PriceToProto ref_engine p w" by blast
qed

interpretation ref_delete_trans: recoverable_apply "DeleteTransaction_apply ref_engine api request"
  "edit_plan (DeleteTransaction_checks ref_engine api (dr_guid request)) (DeleteTransaction_edit ref_engine)"
  "\<lambda>x. Session_book api x = Inr book" rpb "''daicho.shim.v1.TransactionService/DeleteTransaction''"
  "SerializeAsString (pb_delete_transaction ref_pbs) request" ref_pbs ref_engine book'
  "ref_reopened \<circ> snd" "\<lambda>_ w. book_transaction ref_engine book' (dr_guid request) w = None"
  for api request rpb book book'
  by (rule DeleteTransaction_recoverable) (simp_all add: ref_durable_trans_deletes parse_back)

text \<open>The price database of the reference engine accepts every price, so there additions are recovered.\<close>

interpretation ref_add_price: recoverable_apply "AddPrice_apply ref_engine api request"
  "edit_plan (AddPrice_checks ref_engine api (ap_price request)) (AddPrice_edit ref_engine (ap_price request))"
  "\<lambda>x. idle ref_engine (snd x)" "pb_price ref_pbs" "''daicho.shim.v1.CommodityService/AddPrice''" req ref_pbs ref_engine book
  "ref_reopened \<circ> snd" "\<lambda>r w. book_price ref_engine book (pm_guid r) w \<noteq> None"
  for api request req book
  by (rule recoverable_apply.intro [OF AddPrice_judged [OF ref_private_price_edits]], simp, rule recoverable_apply_axioms.intro)
     (auto simp: edit_plan_Ret added_price_accepted_def dest: AddPrice_stored [OF _ ref_private_price_edits _ ref_durable_prices])

section \<open>Properties\<close>

text \<open>
  C16. A reconcile date is set at most once across a crash, and the client's retry finds out. Take a
  call under an id that was never journaled, in an engine in which no edit is open, and let the
  daemon die at any of the four crash points: when the book already showed the requested date or
  the edit was committed before, the restarted daemon answers the retry with the response and
  changes nothing; otherwise the reopened book is the one before the call and the retry starts
  afresh.
\<close>
theorem SetReconcileInfo_survives_crash:
  assumes "private_account_edits eng reopened" and "durable_account_commits eng book reopened"
    and "guid_text (lib eng)" and "message_pb_roundtrip (pb_reconcile_info pbs)"
    and "crash_setting env env' order_by point (sr_meta_mutation_id request) j"
    and "SetReconcileInfo_checks eng api request x = Ret c"
    and "SetReconcileInfo_edit eng c x = (r, x1, x2)" and "idle eng (snd x)"
  shows "\<exists>j' x' n j''. SetReconcileInfo env None (pb_reconcile_info pbs) qpb eng api request (j, x) = (Abort, (j', x')) \<and>
     ReconcilePendingMutations env' order_by pbs eng now book (reopened (snd x')) j' = (Ret n, j'') \<and>
     (if point = ''after_intent'' \<or>
         (point = ''after_pending'' \<and> book_reconcile_info eng book (ri_account_guid r) (reopened (snd x)) \<noteq> Some r)
      then reopened (snd x') = reopened (snd x) \<and>
           outcome_of j'' (sr_meta_mutation_id request) = None \<and> pending_of j'' (sr_meta_mutation_id request) = None
      else book_reconcile_info eng book (ri_account_guid r) (reopened (snd x')) = Some r \<and>
           (\<forall>y. SetReconcileInfo env' None (pb_reconcile_info pbs) qpb eng api request (j'', y) =
                  (Ret (Status_OK, Some r), (j'', y))))"
proof -
  have plan: "edit_plan (SetReconcileInfo_checks eng api request) (SetReconcileInfo_edit eng) x = Ret (r, x1, x2)"
    using assms(6,7) by (auto simp: edit_plan_Ret)
  from recoverable_apply.crash_setting_recovers [OF SetReconcileInfo_recoverable [OF assms(1-4)] assms(5,4,8) plan,
      of "SerializeAsString qpb request" now, unfolded comp_apply]
  show ?thesis unfolding SetReconcileInfo_def by blast
qed


text \<open>
  C15. A price is added at most once across a crash. Take a call under an id that was never
  journaled, in an engine in which no edit is open, and let the daemon die at any of the four crash
  points. Before the commit the reopened book has no trace of the call and the retry starts afresh.
  After it, a price that the price database takes is in the reopened book as the response
  describes it. Every retry gets that response and changes nothing when the outcome was recorded
  or the reopened book has the price; otherwise, which only a price that was refused can lead to, the retry
  starts afresh. A refusal is not seen by the code, so a recorded outcome is replayed as a success
  even then.
\<close>
theorem AddPrice_survives_crash:
  assumes "private_price_edits eng reopened" and "durable_prices eng takes book reopened"
    and "guid_text (lib eng)" and "message_pb_roundtrip (pb_price pbs)"
    and "crash_setting env env' order_by point (ap_meta_mutation_id request) j"
    and "AddPrice_checks eng api (ap_price request) x = Ret c"
    and "AddPrice_edit eng (ap_price request) c x = (r, x1, x2)" and "idle eng (snd x)"
    and "book_price eng book (pm_guid r) (reopened (snd x)) = None"
  shows "\<exists>j' x' n j''. AddPrice env None (pb_price pbs) qpb eng api request (j, x) = (Abort, (j', x')) \<and>
     ReconcilePendingMutations env' order_by pbs eng now book (reopened (snd x')) j' = (Ret n, j'') \<and>
     (if point = ''after_intent'' \<or> point = ''after_pending'' then reopened (snd x') = reopened (snd x)
      else added_price_accepted eng takes (fst c) (snd x) (snd x1) \<longrightarrow>
           book_price eng book (pm_guid r) (reopened (snd x')) = Some r) \<and>
     (if point = ''after_outcome'' \<or> book_price eng book (pm_guid r) (reopened (snd x')) \<noteq> None
      then \<forall>y. AddPrice env' None (pb_price pbs) qpb eng api request (j'', y) = (Ret (Status_OK, Some r), (j'', y))
      else outcome_of j'' (ap_meta_mutation_id request) = None \<and> pending_of j'' (ap_meta_mutation_id request) = None)"
proof -
  have plan: "edit_plan (AddPrice_checks eng api (ap_price request)) (AddPrice_edit eng (ap_price request)) x =
      Ret (r, x1, x2)" using assms(6,7) by (auto simp: edit_plan_Ret)
  obtain b com cur date val where c: "c = (b, com, cur, date, val)" by (metis prod_cases5)
  note stored = AddPrice_stored [OF assms(7) [unfolded c] assms(1,8,2,3)]
  from judged_apply.crash_setting_judged [OF AddPrice_judged [OF assms(1,4)] assms(5,4,8) plan,
      of "SerializeAsString qpb request" now, unfolded comp_apply, folded AddPrice_def]
  obtain j' x' n j'' where run: "AddPrice env None (pb_price pbs) qpb eng api request (j, x) = (Abort, (j', x'))"
      "ReconcilePendingMutations env' order_by pbs eng now book (reopened (snd x')) j' = (Ret n, j'')"
    and x': "x' = (if point = ''after_intent'' then x else if point = ''after_pending'' then x1 else x2)"
    and same: "point = ''after_intent'' \<or> point = ''after_pending'' \<longrightarrow> reopened (snd x') = reopened (snd x)"
    and judged: "if point = ''after_outcome'' \<or> (point \<noteq> ''after_intent'' \<and> book_price eng book (pm_guid r) (reopened (snd x')) \<noteq> None)
      then \<forall>y. AddPrice env' None (pb_price pbs) qpb eng api request (j'', y) = (Ret (Status_OK, Some r), (j'', y))
      else outcome_of j'' (ap_meta_mutation_id request) = None \<and> pending_of j'' (ap_meta_mutation_id request) = None" by blast
  have "point \<noteq> ''after_intent''" if "book_price eng book (pm_guid r) (reopened (snd x')) \<noteq> None"
    using that same assms(9) by auto
  with judged have "if point = ''after_outcome'' \<or> book_price eng book (pm_guid r) (reopened (snd x')) \<noteq> None
      then \<forall>y. AddPrice env' None (pb_price pbs) qpb eng api request (j'', y) = (Ret (Status_OK, Some r), (j'', y))
      else outcome_of j'' (ap_meta_mutation_id request) = None \<and> pending_of j'' (ap_meta_mutation_id request) = None"
    by (auto split: if_splits)
  moreover have "if point = ''after_intent'' \<or> point = ''after_pending'' then reopened (snd x') = reopened (snd x)
      else added_price_accepted eng takes (fst c) (snd x) (snd x1) \<longrightarrow>
           book_price eng book (pm_guid r) (reopened (snd x')) = Some r"
    using same x' stored by (auto simp: c)
  ultimately show ?thesis using run by blast
qed

end
