(* ===== verification/Concrete_Records.thy ===== *)
theory Concrete_Records
  imports Recovered_Records Concrete_Lives
begin

text \<open>
  A reconcile date, a deleted transaction and a new price across a crash, at concrete inputs on
  the reference engine.
\<close>

definition new_year :: Date where "new_year = \<lparr>da_year = 2024, da_month = 1, da_day = 1\<rparr>"

definition reconcile_request :: SetReconcileInfoRequest where
  "reconcile_request = \<lparr>sr_meta_mutation_id = ref_id, sr_account_guid = ''1'', sr_last_date = Some new_year\<rparr>"

definition trans_delete_request :: DeleteRequest where
  "trans_delete_request = \<lparr>dr_meta_mutation_id = ref_id, dr_guid = ''9''\<rparr>"

definition price_request :: AddPriceRequest where
  "price_request = \<lparr>ap_meta_mutation_id = ref_id, ap_price =
     \<lparr>pm_guid = [], pm_commodity = Some \<lparr>ci_space = ''CURRENCY'', ci_mnemonic = ''EUR''\<rparr>,
      pm_currency = Some \<lparr>ci_space = ''CURRENCY'', ci_mnemonic = ''EUR''\<rparr>, pm_date = Some new_year,
      pm_value = Some \<lparr>nu_num = 3, nu_denom = 2\<rparr>, pm_source = []\<rparr>\<rparr>"

lemma ref_record_checks:
  "case SetReconcileInfo_checks ref_engine ref_api reconcile_request ref_state of Ret _ \<Rightarrow> True | _ \<Rightarrow> False"
  "DeleteTransaction_checks ref_engine ref_api (dr_guid trans_delete_request) ledger_state = Ret 9"
  "case AddPrice_checks ref_engine ref_api (ap_price price_request) ref_state of Ret _ \<Rightarrow> True | _ \<Rightarrow> False"
  by code_simp+

theorem SetReconcileInfo_survives_crash_witness:
  "\<exists>r j' x' n j''. SetReconcileInfo (crash_env ''after_apply'') None (pb_reconcile_info ref_pbs) (qpb_reconcile ref_requests)
        ref_engine ref_api reconcile_request (empty_journal, ref_state) = (Abort, (j', x')) \<and>
     ReconcilePendingMutations ref_env ref_order ref_pbs ref_engine (\<lambda>_. 7) 5 (ref_reopened (snd x')) j' = (Ret n, j'') \<and>
     book_reconcile_info ref_engine 5 (ri_account_guid r) (ref_reopened (snd x')) = Some r \<and>
     SetReconcileInfo ref_env None (pb_reconcile_info ref_pbs) (qpb_reconcile ref_requests) ref_engine ref_api reconcile_request
       (j'', ref_state) = (Ret (Status_OK, Some r), (j'', ref_state))"
proof -
  obtain c where c: "SetReconcileInfo_checks ref_engine ref_api reconcile_request ref_state = Ret c"
    using ref_record_checks(1) by (auto split: flow.splits)
  obtain r x1 x2 where e: "SetReconcileInfo_edit ref_engine c ref_state = (r, x1, x2)" by (metis prod_cases3)
  have mid: "sr_meta_mutation_id reconcile_request = ref_id" by (simp add: reconcile_request_def)
  from SetReconcileInfo_survives_crash [OF ref_private_account_edits ref_durable_account_commits _ _ _ c e ref_idle,
      of ref_pbs "crash_env ''after_apply''" ref_env ref_order "''after_apply''" empty_journal "qpb_reconcile ref_requests" "\<lambda>_. 7"]
  show ?thesis
    by (simp add: mid ref_crash_setting crash_points_def del: split_paired_All split_paired_Ex) blast
qed


theorem AddPrice_survives_crash_witness:
  "\<exists>r j' x' n j''. AddPrice (crash_env ''after_apply'') None (pb_price ref_pbs) (qpb_price ref_requests)
        ref_engine ref_api price_request (empty_journal, ref_state) = (Abort, (j', x')) \<and>
     ReconcilePendingMutations ref_env ref_order ref_pbs ref_engine (\<lambda>_. 7) 5 (ref_reopened (snd x')) j' = (Ret n, j'') \<and>
     book_price ref_engine 5 (pm_guid r) (ref_reopened (snd x')) = Some r \<and>
     AddPrice ref_env None (pb_price ref_pbs) (qpb_price ref_requests) ref_engine ref_api price_request
       (j'', ref_state) = (Ret (Status_OK, Some r), (j'', ref_state))"
proof -
  obtain c where c: "AddPrice_checks ref_engine ref_api (ap_price price_request) ref_state = Ret c"
    using ref_record_checks(3) by (auto split: flow.splits)
  obtain r x1 x2 where e: "AddPrice_edit ref_engine (ap_price price_request) c ref_state = (r, x1, x2)" by (metis prod_cases3)
  have fresh: "book_price ref_engine 5 (pm_guid r) (ref_reopened (snd ref_state)) = None"
    by (simp add: book_price_def ref_state_def ref_reopened_def ref_book_def ref_disk_def split: option.split)
  have mid: "ap_meta_mutation_id price_request = ref_id" by (simp add: price_request_def)
  have "added_price_accepted ref_engine (\<lambda>_ _. True) (fst c) (snd ref_state) (snd x1)" by (simp add: added_price_accepted_def)
  with AddPrice_survives_crash [OF ref_private_price_edits ref_durable_prices _ _ _ c e ref_idle fresh,
      of ref_pbs "crash_env ''after_apply''" ref_env ref_order "''after_apply''" empty_journal "qpb_price ref_requests" "\<lambda>_. 7"]
  obtain j' x' n j'' where run: "AddPrice (crash_env ''after_apply'') None (pb_price ref_pbs) (qpb_price ref_requests)
        ref_engine ref_api price_request (empty_journal, ref_state) = (Abort, (j', x'))"
      "ReconcilePendingMutations ref_env ref_order ref_pbs ref_engine (\<lambda>_. 7) 5 (ref_reopened (snd x')) j' = (Ret n, j'')"
    and there: "book_price ref_engine 5 (pm_guid r) (ref_reopened (snd x')) = Some r"
    and retry: "book_price ref_engine 5 (pm_guid r) (ref_reopened (snd x')) \<noteq> None \<Longrightarrow>
      \<forall>y. AddPrice ref_env None (pb_price ref_pbs) (qpb_price ref_requests) ref_engine ref_api price_request (j'', y) =
        (Ret (Status_OK, Some r), (j'', y))"
    by (simp add: mid ref_crash_setting crash_points_def del: split_paired_All split_paired_Ex) (metis (full_types))
  from retry there run show ?thesis by blast
qed

end
