(* ===== verification/Transaction_Effects.thy ===== *)
theory Transaction_Effects
  imports Transaction_Service Reference_Engine
begin

text \<open>
  What \<^verbatim>\<open>ApplyPlan\<close> of \<^verbatim>\<open>src/rpc/transaction_service.cpp\<close> writes. The locale \<open>trans_store\<close> states what the
  engine documents of the calls on transactions and their splits; inside it the sequence of calls
  is shown to leave the transaction with the header of the request and with exactly the splits of
  the request, whatever splits it had before, and every other transaction as it was.
\<close>

section \<open>What is compared\<close>

text \<open>A number in lowest terms: the engine keeps its value, not its denominator.\<close>

definition reduced :: "gnc_numeric \<Rightarrow> gnc_numeric" where
  "reduced a = (case quotient_of (num_value a) of (n, d) \<Rightarrow> gnc_numeric_create n d)"

lemma reduced_value [simp]: "num_value (reduced a) = num_value a"
proof -
  obtain n d where q: "quotient_of (num_value a) = (n, d)" by fastforce
  then have "num_value a = Fract n d" using quotient_of_div [OF q] by (simp add: Fract_of_int_quotient)
  with q show ?thesis by (simp add: reduced_def num_value_def gnc_numeric_create_def)
qed

lemma reduced_eq: "reduced a = reduced b \<longleftrightarrow> num_value a = num_value b"
  by (metis reduced_value reduced_def)

definition split_head :: "split_view \<Rightarrow> split_view" where
  "split_head v = v\<lparr>xaccSplitGetParent := 0, xaccSplitGetValue := reduced (xaccSplitGetValue v),
     xaccSplitGetAmount := reduced (xaccSplitGetAmount v), xaccSplitGetMemo := Some (safe (xaccSplitGetMemo v)),
     xaccSplitGetAction := Some (safe (xaccSplitGetAction v))\<rparr>"

definition trans_head :: "trans_view \<Rightarrow> trans_view" where
  "trans_head v = v\<lparr>xaccTransGetNum := Some (safe (xaccTransGetNum v)),
     xaccTransGetDescription := Some (safe (xaccTransGetDescription v)), xaccTransGetSplitList := [],
     xaccTransGetImbalanceValue := gnc_numeric_zero\<rparr>"

definition splits_of :: "'w engine \<Rightarrow> Transaction \<Rightarrow> 'w \<Rightarrow> Split multiset" where
  "splits_of eng t w = mset (xaccTransGetSplitList (trans_at eng t w))"

section \<open>The promises of the engine\<close>

text \<open>The one field a call writes.\<close>

definition split_write :: "engine_call \<Rightarrow> split_view \<Rightarrow> split_view" where
  "split_write c v =
     (case c of
        xaccSplitDestroy _ \<Rightarrow> v\<lparr>split_destroying := True\<rparr>
      | xaccSplitSetAccount _ a \<Rightarrow> v\<lparr>xaccSplitGetAccount := a\<rparr>
      | xaccSplitSetValue _ n \<Rightarrow> v\<lparr>xaccSplitGetValue := n\<rparr>
      | xaccSplitSetAmount _ n \<Rightarrow> v\<lparr>xaccSplitGetAmount := n\<rparr>
      | xaccSplitSetMemo _ s \<Rightarrow> v\<lparr>xaccSplitGetMemo := Some s\<rparr>
      | xaccSplitSetAction _ s \<Rightarrow> v\<lparr>xaccSplitGetAction := Some s\<rparr>
      | xaccSplitSetReconcile _ r \<Rightarrow> v\<lparr>xaccSplitGetReconcile := r\<rparr>
      | _ \<Rightarrow> v)"

definition trans_write :: "engine_call \<Rightarrow> trans_view \<Rightarrow> trans_view" where
  "trans_write c v =
     (case c of
        xaccTransSetCurrency _ k \<Rightarrow> v\<lparr>xaccTransGetCurrency := Some k\<rparr>
      | xaccTransSetDatePostedGDate _ d \<Rightarrow> v\<lparr>xaccTransGetDatePostedGDate := d\<rparr>
      | xaccTransSetDateEnteredSecs _ n \<Rightarrow> v\<lparr>xaccTransGetDateEntered := n\<rparr>
      | xaccTransSetNum _ s \<Rightarrow> v\<lparr>xaccTransGetNum := Some s\<rparr>
      | xaccTransSetDescription _ s \<Rightarrow> v\<lparr>xaccTransGetDescription := Some s\<rparr>
      | _ \<Rightarrow> v)"

fun split_call :: "Split \<Rightarrow> engine_call \<Rightarrow> bool" where
  "split_call s (xaccSplitDestroy u) = (u = s)"
| "split_call s (xaccSplitSetAccount u _) = (u = s)"
| "split_call s (xaccSplitSetValue u _) = (u = s)"
| "split_call s (xaccSplitSetAmount u _) = (u = s)"
| "split_call s (xaccSplitSetMemo u _) = (u = s)"
| "split_call s (xaccSplitSetAction u _) = (u = s)"
| "split_call s (xaccSplitSetReconcile u _) = (u = s)"
| "split_call s _ = False"

fun header_call :: "Transaction \<Rightarrow> engine_call \<Rightarrow> bool" where
  "header_call t (xaccTransBeginEdit u) = (u = t)"
| "header_call t (xaccTransSetCurrency u _) = (u = t)"
| "header_call t (xaccTransSetDatePostedGDate u _) = (u = t)"
| "header_call t (xaccTransSetDateEnteredSecs u _) = (u = t)"
| "header_call t (xaccTransSetNum u _) = (u = t)"
| "header_call t (xaccTransSetDescription u _) = (u = t)"
| "header_call t _ = False"

text \<open>The calls that always write their field as it is; a destroy may be refused.\<close>

fun plain_write :: "(gnc_numeric \<Rightarrow> bool) \<Rightarrow> engine_call \<Rightarrow> bool" where
  "plain_write ok (xaccSplitSetValue _ n) = ok n"
| "plain_write ok (xaccSplitSetAmount _ n) = ok n"
| "plain_write ok (xaccSplitDestroy _) = False"
| "plain_write ok _ = True"

text \<open>What no edit of a transaction touches.\<close>

definition same_book :: "'w engine \<Rightarrow> 'w \<Rightarrow> 'w \<Rightarrow> bool" where
  "same_book eng w w' \<longleftrightarrow>
     (\<forall>a. account_guid (account_at eng a w') = account_guid (account_at eng a w)) \<and>
     (\<forall>k. commodity_at eng k w' = commodity_at eng k w)"

definition same_trans :: "'w engine \<Rightarrow> Transaction \<Rightarrow> 'w \<Rightarrow> 'w \<Rightarrow> bool" where
  "same_trans eng t w w' \<longleftrightarrow> trans_head (trans_at eng t w') = trans_head (trans_at eng t w) \<and> splits_of eng t w' = splits_of eng t w"

definition same_split :: "'w engine \<Rightarrow> Split \<Rightarrow> 'w \<Rightarrow> 'w \<Rightarrow> bool" where
  "same_split eng s w w' \<longleftrightarrow> split_head (split_at eng s w') = split_head (split_at eng s w)"

text \<open>
  \<open>unrounded\<close>: the numbers the smallest units of the book's commodities can express, which the
  setters store as they are (others they round); \<open>room n\<close>: the next \<open>n\<close> allocations give objects
  with new GUIDs; \<open>readonly\<close>: the transactions that are marked read-only, whose splits
  \<^verbatim>\<open>xaccSplitDestroy\<close> refuses to destroy. Setting the currency may convert the amounts of the
  transaction's splits.
\<close>

locale trans_store =
  fixes eng :: "'w engine"
    and unrounded :: "gnc_numeric \<Rightarrow> bool"
    and room :: "nat \<Rightarrow> 'w \<Rightarrow> bool"
    and readonly :: "Transaction \<Rightarrow> 'w \<Rightarrow> bool"
  assumes header_writes: "header_call t c \<Longrightarrow>
      trans_head (trans_at eng t (eng_do eng c w)) = trans_head (trans_write c (trans_at eng t w)) \<and>
      splits_of eng t (eng_do eng c w) = splits_of eng t w"
    and header_frame: "header_call t c \<Longrightarrow> same_book eng w (eng_do eng c w) \<and> (room n w \<longrightarrow> room n (eng_do eng c w)) \<and>
      (readonly v (eng_do eng c w) = readonly v w) \<and>
      (trans_guid (trans_at eng u w) \<noteq> trans_guid (trans_at eng t w) \<longrightarrow> same_trans eng u w (eng_do eng c w)) \<and>
      (s \<notin># splits_of eng t w \<longrightarrow> same_split eng s w (eng_do eng c w)) \<and>
      split_guid (split_at eng s (eng_do eng c w)) = split_guid (split_at eng s w) \<and>
      split_destroying (split_at eng s (eng_do eng c w)) = split_destroying (split_at eng s w)"
    and split_writes: "split_call s c \<Longrightarrow> plain_write unrounded c \<Longrightarrow>
      split_head (split_at eng s (eng_do eng c w)) = split_head (split_write c (split_at eng s w))"
    and destroy_writes: "s \<in># splits_of eng t w \<Longrightarrow> \<not> readonly t w \<Longrightarrow>
      split_head (split_at eng s (eng_do eng (xaccSplitDestroy s) w)) = split_head (split_write (xaccSplitDestroy s) (split_at eng s w))"
    and split_frame: "split_call s c \<Longrightarrow> same_book eng w (eng_do eng c w) \<and> (room n w \<longrightarrow> room n (eng_do eng c w)) \<and>
      (readonly v (eng_do eng c w) = readonly v w) \<and>
      same_trans eng u w (eng_do eng c w) \<and>
      (split_guid (split_at eng r w) \<noteq> split_guid (split_at eng s w) \<longrightarrow> same_split eng r w (eng_do eng c w))"
    and new_split: "xaccMallocSplit eng book w = (s, w0) \<Longrightarrow> w1 = eng_do eng (xaccSplitSetParent s t) w0 \<Longrightarrow> room (Suc n) w \<Longrightarrow>
      same_book eng w w1 \<and> room n w1 \<and> \<not> split_destroying (split_at eng s w1) \<and>
      trans_head (trans_at eng t w1) = trans_head (trans_at eng t w) \<and> splits_of eng t w1 = add_mset s (splits_of eng t w) \<and>
      (trans_guid (trans_at eng u w) \<noteq> trans_guid (trans_at eng t w) \<longrightarrow> same_trans eng u w w1) \<and>
      (r \<in># splits_of eng u w \<longrightarrow> split_guid (split_at eng r w) \<noteq> split_guid (split_at eng s w1) \<and> same_split eng r w w1)"
    and new_trans: "xaccMallocTransaction eng book w = (t, w1) \<Longrightarrow> room (Suc n) w \<Longrightarrow>
      same_book eng w w1 \<and> room n w1 \<and> splits_of eng t w1 = {#} \<and>
      (trans_guid (trans_at eng u w) \<noteq> trans_guid (trans_at eng t w1) \<longrightarrow> same_trans eng u w w1) \<and>
      (r \<in># splits_of eng u w \<longrightarrow> same_split eng r w w1)"
    and room_less: "room (Suc n) w \<Longrightarrow> room n w"
    and account_lookup: "xaccAccountLookup eng g book w = Some a \<Longrightarrow> account_guid (account_at eng a w) = g"
    and trans_lookup: "xaccTransLookup eng g book w = Some t \<Longrightarrow> trans_guid (trans_at eng t w) = g"

section \<open>Plans carried out\<close>

definition carries :: "SplitPlan \<Rightarrow> split_view \<Rightarrow> bool" where
  "carries p v \<longleftrightarrow>
     xaccSplitGetAccount v = sp_account p \<and> num_value (xaccSplitGetValue v) = num_value (sp_value p) \<and>
     num_value (xaccSplitGetAmount v) = num_value (sp_quantity p) \<and> safe (xaccSplitGetMemo v) = c_str (sp_memo p) \<and>
     safe (xaccSplitGetAction v) = c_str (sp_action p) \<and> xaccSplitGetReconcile v = sp_reconcile p \<and> \<not> split_destroying v"

text \<open>The splits a reader of the transaction sees.\<close>

definition live :: "'w engine \<Rightarrow> Transaction \<Rightarrow> 'w \<Rightarrow> Split multiset" where
  "live eng t w = filter_mset (\<lambda>s. \<not> split_destroying (split_at eng s w)) (splits_of eng t w)"

definition kept_splits :: "SplitPlan list \<Rightarrow> Split list" where
  "kept_splits ps = List.map_filter sp_existing ps"

definition plan_unrounded :: "(gnc_numeric \<Rightarrow> bool) \<Rightarrow> SplitPlan list \<Rightarrow> bool" where
  "plan_unrounded ok ps \<longleftrightarrow> (\<forall>p \<in> set ps. ok (sp_value p) \<and> ok (sp_quantity p))"

lemma split_head_sel [simp]:
  "split_guid (split_head v) = split_guid v" "split_destroying (split_head v) = split_destroying v"
  "xaccSplitGetAccount (split_head v) = xaccSplitGetAccount v" "num_value (xaccSplitGetValue (split_head v)) = num_value (xaccSplitGetValue v)"
  "num_value (xaccSplitGetAmount (split_head v)) = num_value (xaccSplitGetAmount v)"
  "safe (xaccSplitGetMemo (split_head v)) = safe (xaccSplitGetMemo v)"
  "safe (xaccSplitGetAction (split_head v)) = safe (xaccSplitGetAction v)"
  "xaccSplitGetReconcile (split_head v) = xaccSplitGetReconcile v"
  by (simp_all add: split_head_def safe_def)

lemma carries_head: "carries p (split_head v) = carries p v"
  by (simp add: carries_def)

lemma split_write_head: "split_head v = split_head v' \<Longrightarrow> split_head (split_write c v) = split_head (split_write c v')"
  by (cases v; cases v'; cases c) (simp_all add: split_head_def split_write_def)

lemma trans_write_head: "trans_head v = trans_head v' \<Longrightarrow> trans_head (trans_write c v) = trans_head (trans_write c v')"
  by (cases v; cases v'; cases c) (simp_all add: trans_head_def trans_write_def)

lemma same_split_sel:
  assumes "same_split eng s w w'"
  shows "split_guid (split_at eng s w') = split_guid (split_at eng s w)"
    and "split_destroying (split_at eng s w') = split_destroying (split_at eng s w)"
    and "carries p (split_at eng s w') = carries p (split_at eng s w)"
  using assms split_head_sel(1,2) carries_head unfolding same_split_def by metis+

lemma same_refl [simp]: "same_split eng s w w" "same_trans eng t w w" "same_book eng w w"
  by (simp_all add: same_split_def same_trans_def same_book_def)

lemma same_trans_trans: "same_trans eng t w w' \<Longrightarrow> same_trans eng t w' w'' \<Longrightarrow> same_trans eng t w w''"
  by (simp add: same_trans_def)

lemma same_split_trans: "same_split eng t w w' \<Longrightarrow> same_split eng t w' w'' \<Longrightarrow> same_split eng t w w''"
  by (simp add: same_split_def)

lemma same_book_trans: "same_book eng w w' \<Longrightarrow> same_book eng w' w'' \<Longrightarrow> same_book eng w w''"
  by (simp add: same_book_def)

lemma trans_head_guid: "trans_head v = trans_head v' \<Longrightarrow> trans_guid v = trans_guid v'"
  by (cases v; cases v') (simp add: trans_head_def)

lemma same_trans_guid: "same_trans eng t w w' \<Longrightarrow> trans_guid (trans_at eng t w') = trans_guid (trans_at eng t w)"
  unfolding same_trans_def using trans_head_guid by blast

lemma split_setters_calls: "list_all (split_call s) (split_setters s p)"
  "plan_unrounded ok [p] \<Longrightarrow> list_all (\<lambda>c. plain_write ok c) (split_setters s p)"
  by (auto simp: split_setters_def plan_unrounded_def)

lemma split_setters_write:
  "split_guid (fold split_write (split_setters s p) v) = split_guid v \<and>
   (\<not> split_destroying v \<longrightarrow> carries p (fold split_write (split_setters s p) v))"
  by (simp add: split_setters_def split_write_def carries_def safe_def)

lemma kept_splits_Cons: "kept_splits (p # ps) = (case sp_existing p of None \<Rightarrow> [] | Some e \<Rightarrow> [e]) @ kept_splits ps"
  by (simp add: kept_splits_def List.map_filter_def split: option.split)

lemma kept_splitsI: "sp_existing p = Some e \<Longrightarrow> p \<in> set ps \<Longrightarrow> e \<in> set (kept_splits ps)"
  by (induction ps) (auto simp: kept_splits_Cons)

section \<open>Carrying out a plan\<close>

context trans_store
begin

text \<open>A run of calls on one split.\<close>

lemma seq_split:
  assumes "list_all (split_call s) cs" and "list_all (\<lambda>c. plain_write unrounded c) cs"
    and "split_head (split_at eng s w) = split_head v"
  shows "split_head (split_at eng s (eng_seq eng cs w)) = split_head (fold split_write cs v)"
  using assms
proof (induction cs arbitrary: w v)
  case (Cons c cs)
  then have "split_head (split_at eng s (eng_do eng c w)) = split_head (split_write c v)"
    using split_writes [of s c w] split_write_head [OF Cons.prems(3), of c] by auto
  from Cons.IH [OF _ _ this] Cons.prems(1,2) show ?case by simp
qed simp

lemma split_call_guid:
  assumes "split_call s c" and "plain_write unrounded c"
  shows "split_guid (split_at eng s (eng_do eng c w)) = split_guid (split_at eng s w)"
proof -
  have "split_guid (split_write c v) = split_guid v" for v by (cases c) (simp_all add: split_write_def)
  then show ?thesis using split_writes [OF assms, of w] split_head_sel(1) by metis
qed

lemma seq_split_frame:
  assumes "list_all (split_call s) cs" and "list_all (\<lambda>c. plain_write unrounded c) cs"
  shows "same_book eng w (eng_seq eng cs w) \<and> (room n w \<longrightarrow> room n (eng_seq eng cs w)) \<and> same_trans eng u w (eng_seq eng cs w) \<and>
    split_guid (split_at eng s (eng_seq eng cs w)) = split_guid (split_at eng s w) \<and>
    (split_guid (split_at eng r w) \<noteq> split_guid (split_at eng s w) \<longrightarrow> same_split eng r w (eng_seq eng cs w))"
  using assms
proof (induction cs arbitrary: w)
  case (Cons c cs)
  let ?w = "eng_do eng c w"
  from Cons.prems have c: "split_call s c" "plain_write unrounded c" by auto
  note f = split_frame [OF c(1), of w n _ u r] and g = split_call_guid [OF c, of w]
  have IH: "same_book eng ?w (eng_seq eng cs ?w)" "room n ?w \<longrightarrow> room n (eng_seq eng cs ?w)" "same_trans eng u ?w (eng_seq eng cs ?w)"
    "split_guid (split_at eng s (eng_seq eng cs ?w)) = split_guid (split_at eng s ?w)"
    "split_guid (split_at eng r ?w) \<noteq> split_guid (split_at eng s ?w) \<longrightarrow> same_split eng r ?w (eng_seq eng cs ?w)"
    using Cons by auto
  have "same_split eng r w (eng_seq eng cs ?w)" if "split_guid (split_at eng r w) \<noteq> split_guid (split_at eng s w)"
  proof -
    have "same_split eng r w ?w" using f that by blast
    with IH(5) g that show ?thesis using same_split_sel(1) same_split_trans by metis
  qed
  then show ?case
    using f g IH(1-4) same_book_trans [of eng w ?w] same_trans_trans [of eng u w ?w] by simp
qed simp

lemma setters_frame:
  assumes "plan_unrounded unrounded [p]" and "w1 = eng_seq eng (split_setters s p) w"
  shows "same_book eng w w1" and "room n w \<Longrightarrow> room n w1" and "same_trans eng u w w1"
    and "split_guid (split_at eng s w1) = split_guid (split_at eng s w)"
    and "split_guid (split_at eng r w) \<noteq> split_guid (split_at eng s w) \<Longrightarrow> same_split eng r w w1"
  unfolding assms(2) using seq_split_frame [OF split_setters_calls(1) split_setters_calls(2) [OF assms(1)]] by blast+

lemma setters_carry:
  assumes "plan_unrounded unrounded [p]" and "\<not> split_destroying (split_at eng s w)"
  shows "carries p (split_at eng s (eng_seq eng (split_setters s p) w))"
  using split_setters_write [of s p "split_at eng s w"] assms(2)
    seq_split [OF split_setters_calls(1) split_setters_calls(2) [OF assms(1)] refl, where s = s and w = w]
  by (metis carries_head)

text \<open>The splits that may not be disturbed: those of the transaction and of all others.\<close>

definition seen :: "Transaction \<Rightarrow> 'w \<Rightarrow> Split set" where
  "seen t w = {r. r \<in># splits_of eng t w \<or> (\<exists>u. trans_guid (trans_at eng u w) \<noteq> trans_guid (trans_at eng t w) \<and> r \<in># splits_of eng u w)}"

definition apart :: "'w \<Rightarrow> Split \<Rightarrow> Split list \<Rightarrow> bool" where
  "apart w r es \<longleftrightarrow> split_guid (split_at eng r w) \<notin> (\<lambda>e. split_guid (split_at eng e w)) ` set es"

definition guids_apart :: "Transaction \<Rightarrow> 'w \<Rightarrow> bool" where
  "guids_apart t w \<longleftrightarrow> inj_on (\<lambda>r. split_guid (split_at eng r w)) (set_mset (splits_of eng t w))"

text \<open>What one planned split does: it ends in a split that carries the plan, its own or a new one.\<close>

definition split_done :: "Transaction \<Rightarrow> SplitPlan \<Rightarrow> Split \<Rightarrow> 'w \<Rightarrow> 'w \<Rightarrow> bool" where
  "split_done t p s w w1 \<longleftrightarrow>
     same_book eng w w1 \<and> trans_head (trans_at eng t w1) = trans_head (trans_at eng t w) \<and>
     (\<forall>u. trans_guid (trans_at eng u w) \<noteq> trans_guid (trans_at eng t w) \<longrightarrow> same_trans eng u w w1) \<and>
     carries p (split_at eng s w1) \<and> s \<in># live eng t w1 \<and> guids_apart t w1 \<and>
     live eng t w1 = live eng t w + (if sp_existing p = None then {#s#} else {#}) \<and>
     (\<forall>e. sp_existing p = Some e \<longrightarrow> s = e \<and> split_guid (split_at eng e w1) = split_guid (split_at eng e w)) \<and>
     (\<forall>r \<in> seen t w. r \<in> seen t w1 \<and>
        (apart w r (kept_splits [p]) \<longrightarrow> same_split eng r w w1 \<and> split_guid (split_at eng r w) \<noteq> split_guid (split_at eng s w1)))"

lemma seen_mono:
  assumes "trans_guid (trans_at eng t w1) = trans_guid (trans_at eng t w)" and "splits_of eng t w \<subseteq># splits_of eng t w1"
    and "\<And>u. trans_guid (trans_at eng u w) \<noteq> trans_guid (trans_at eng t w) \<Longrightarrow> same_trans eng u w w1" and "r \<in> seen t w"
  shows "r \<in> seen t w1"
proof (cases "r \<in># splits_of eng t w")
  case True
  with assms(2) show ?thesis by (auto simp: seen_def dest: mset_subset_eqD)
next
  case False
  with assms(4) obtain u where u: "trans_guid (trans_at eng u w) \<noteq> trans_guid (trans_at eng t w)" "r \<in># splits_of eng u w"
    by (auto simp: seen_def)
  from assms(3) [OF u(1)] have "trans_guid (trans_at eng u w1) = trans_guid (trans_at eng u w)" "splits_of eng u w1 = splits_of eng u w"
    using same_trans_guid [OF assms(3) [OF u(1)]] by (auto simp: same_trans_def)
  with u assms(1) have "trans_guid (trans_at eng u w1) \<noteq> trans_guid (trans_at eng t w1) \<and> r \<in># splits_of eng u w1" by simp
  then show ?thesis unfolding seen_def by blast
qed

lemma live_same:
  assumes "splits_of eng t w1 = splits_of eng t w"
    and "\<And>r. r \<in># splits_of eng t w \<Longrightarrow> split_destroying (split_at eng r w1) = split_destroying (split_at eng r w)"
  shows "live eng t w1 = live eng t w"
  using assms by (auto simp: live_def intro: filter_mset_cong)

lemma apply_split_existing:
  assumes "sp_existing p = Some e" and "plan_unrounded unrounded [p]" and "e \<in># live eng t w"
    and inj: "guids_apart t w"
  shows "split_done t p e w (apply_split eng book t p w)"
proof -
  let ?cs = "split_setters e p" and ?w = "apply_split eng book t p w"
  have w: "?w = eng_seq eng ?cs w" by (simp add: apply_split_def assms(1))
  note f = setters_frame [OF assms(2) w] and same = setters_frame(5) [OF assms(2) w] and t = setters_frame(3) [OF assms(2) w]
  have e: "e \<in># splits_of eng t w" "\<not> split_destroying (split_at eng e w)" using assms(3) by (auto simp: live_def)
  have c: "carries p (split_at eng e ?w)" unfolding w by (rule setters_carry [OF assms(2) e(2)])
  have sp: "splits_of eng t ?w = splits_of eng t w" using t [of t] by (simp add: same_trans_def)
  have kept: "split_destroying (split_at eng r ?w) = split_destroying (split_at eng r w) \<and>
      split_guid (split_at eng r ?w) = split_guid (split_at eng r w)" if r: "r \<in># splits_of eng t w" for r
  proof (cases "split_guid (split_at eng r w) = split_guid (split_at eng e w)")
    case True
    with r inj e(1) have "r = e" by (auto simp: guids_apart_def dest: inj_onD)
    with c e f(4) show ?thesis by (simp add: carries_def)
  next
    case False
    from same_split_sel(1,2) [OF same [OF this]] show ?thesis by simp
  qed
  have "guids_apart t ?w" using inj kept unfolding guids_apart_def sp by (simp cong: inj_on_cong)
  moreover have "live eng t ?w = live eng t w" by (rule live_same [OF sp]) (use kept in blast)
  moreover have "r \<in> seen t ?w" if "r \<in> seen t w" for r
    by (rule seen_mono [OF same_trans_guid [OF t] _ t that]) (use t [of t] in \<open>simp add: same_trans_def\<close>)
  ultimately show ?thesis
    using f t [of t] c assms(1,3) same
    by (auto simp: split_done_def same_trans_def apart_def kept_splits_def List.map_filter_def)
qed

lemma apply_split_new:
  assumes "sp_existing p = None" and "plan_unrounded unrounded [p]" and "room (Suc n) w" and inj: "guids_apart t w"
  obtains s where "split_done t p s w (apply_split eng book t p w)" and "room n (apply_split eng book t p w)"
proof -
  let ?w = "apply_split eng book t p w"
  obtain s w0 where m: "xaccMallocSplit eng book w = (s, w0)" by fastforce
  define w1 where "w1 = eng_do eng (xaccSplitSetParent s t) w0"
  have w: "?w = eng_seq eng (split_setters s p) w1" by (simp add: apply_split_def assms(1) m w1_def)
  note new = new_split [OF m w1_def assms(3)]
  note f = setters_frame [OF assms(2) w] and t = setters_frame(3) [OF assms(2) w] and g = setters_frame(4) [OF assms(2) w]
  have c: "carries p (split_at eng s ?w)" unfolding w by (rule setters_carry [OF assms(2)]) (use new in blast)
  have old: "same_split eng r w ?w \<and> split_guid (split_at eng r w) \<noteq> split_guid (split_at eng s ?w)" if r: "r \<in># splits_of eng u w" for r u
  proof -
    from new r have n: "split_guid (split_at eng r w) \<noteq> split_guid (split_at eng s w1)" "same_split eng r w w1" by blast+
    with same_split_sel(1) [OF n(2)] f(5) have "same_split eng r w1 ?w" by metis
    with n g show ?thesis using same_split_trans by metis
  qed
  have head: "trans_head (trans_at eng t ?w) = trans_head (trans_at eng t w)" using t [of t] new by (simp add: same_trans_def)
  have others: "same_trans eng u w ?w" if "trans_guid (trans_at eng u w) \<noteq> trans_guid (trans_at eng t w)" for u
    by (rule same_trans_trans [OF _ t]) (use new that in blast)
  have sp: "splits_of eng t ?w = add_mset s (splits_of eng t w)" using t [of t] new by (simp add: same_trans_def)
  have "filter_mset (\<lambda>r. \<not> split_destroying (split_at eng r ?w)) (splits_of eng t w) =
      filter_mset (\<lambda>r. \<not> split_destroying (split_at eng r w)) (splits_of eng t w)"
    by (rule filter_mset_cong [OF refl]) (use old same_split_sel(2) in metis)
  with sp c have live: "live eng t ?w = live eng t w + {#s#}" by (simp add: live_def carries_def)
  have seen: "r \<in> seen t ?w" if "r \<in> seen t w" for r
    by (rule seen_mono [OF trans_head_guid [OF head] _ others that]) (simp_all add: sp)
  have nb: "same_book eng w w1" and nr: "room n w1" using new by blast+
  note book = same_book_trans [OF nb f(1)] and more = f(2) [OF nr]
  have mine: "split_guid (split_at eng r ?w) = split_guid (split_at eng r w)" "split_guid (split_at eng r w) \<noteq> split_guid (split_at eng s ?w)"
    if "r \<in># splits_of eng t w" for r
    using old [OF that] same_split_sel(1) [of eng r w ?w] by blast+
  have "guids_apart t ?w"
    unfolding guids_apart_def sp set_mset_add_mset_insert
  proof (rule inj_on_insert [THEN iffD2], intro conjI)
    show "inj_on (\<lambda>r. split_guid (split_at eng r ?w)) (set_mset (splits_of eng t w))"
      using inj mine(1) unfolding guids_apart_def by (simp cong: inj_on_cong)
    show "split_guid (split_at eng s ?w) \<notin> (\<lambda>r. split_guid (split_at eng r ?w)) ` (set_mset (splits_of eng t w) - {s})"
      using mine by fastforce
  qed
  moreover have "s \<in># live eng t ?w" using live by simp
  moreover have "same_split eng r w ?w \<and> split_guid (split_at eng r w) \<noteq> split_guid (split_at eng s ?w)" if "r \<in> seen t w" for r
    using that old unfolding seen_def by blast
  ultimately have "split_done t p s w ?w"
    unfolding split_done_def using book head others c live seen assms(1) by simp
  with more that show thesis by blast
qed

text \<open>Carrying out the planned splits one after the other.\<close>

lemma apartI: "(\<And>e. e \<in> set es \<Longrightarrow> split_guid (split_at eng r w) \<noteq> split_guid (split_at eng e w)) \<Longrightarrow> apart w r es"
  by (auto simp: apart_def)

lemma apartD: "apart w r es \<Longrightarrow> e \<in> set es \<Longrightarrow> split_guid (split_at eng r w) \<noteq> split_guid (split_at eng e w)"
  by (force simp: apart_def)

lemma live_seen: "r \<in># live eng t w \<Longrightarrow> r \<in> seen t w"
  by (simp add: live_def seen_def)

lemma live_exchange:
  assumes "mset (kept_splits (p # ps)) \<subseteq># L" and "\<forall>e. sp_existing p = Some e \<longrightarrow> s = e"
  shows "(L + (if sp_existing p = None then {#s#} else {#})) - mset (kept_splits ps) + mset ss =
     L - mset (kept_splits (p # ps)) + mset (s # ss)"
proof -
  from assms(1) obtain M where "L = mset (kept_splits (p # ps)) + M" by (metis mset_subset_eq_exists_conv)
  with assms(2) show ?thesis by (cases "sp_existing p") (auto simp: kept_splits_Cons)
qed

lemma apply_splits:
  assumes "room (length ps) w" and "plan_unrounded unrounded ps" and "mset (kept_splits ps) \<subseteq># live eng t w"
    and "guids_apart t w" and "distinct (kept_splits ps)"
  shows "\<exists>ss. list_all2 (\<lambda>p s. carries p (split_at eng s (fold (apply_split eng book t) ps w)) \<and>
        (\<forall>e. sp_existing p = Some e \<longrightarrow> s = e \<and>
           split_guid (split_at eng e (fold (apply_split eng book t) ps w)) = split_guid (split_at eng e w))) ps ss \<and>
     live eng t (fold (apply_split eng book t) ps w) = live eng t w - mset (kept_splits ps) + mset ss \<and>
     same_book eng w (fold (apply_split eng book t) ps w) \<and>
     trans_head (trans_at eng t (fold (apply_split eng book t) ps w)) = trans_head (trans_at eng t w) \<and>
     (\<forall>u. trans_guid (trans_at eng u w) \<noteq> trans_guid (trans_at eng t w) \<longrightarrow> same_trans eng u w (fold (apply_split eng book t) ps w)) \<and>
     (\<forall>r \<in> seen t w. apart w r (kept_splits ps) \<longrightarrow> same_split eng r w (fold (apply_split eng book t) ps w))"
  using assms
proof (induction ps arbitrary: w)
  case Nil
  then show ?case by (simp add: kept_splits_def List.map_filter_def)
next
  case (Cons p ps)
  let ?w1 = "apply_split eng book t p w" and ?w2 = "fold (apply_split eng book t) ps (apply_split eng book t p w)"
  have live_in: "r \<in># splits_of eng t w" if "r \<in># live eng t w" for r using that by (simp add: live_def)
  have un: "plan_unrounded unrounded [p]" "plan_unrounded unrounded ps" using Cons.prems(2) by (auto simp: plan_unrounded_def)
  have kept: "set (kept_splits (p # ps)) \<subseteq> set_mset (live eng t w)"
    using Cons.prems(3) set_mset_mono by fastforce
  have "\<exists>s. split_done t p s w ?w1 \<and> room (length ps) ?w1"
  proof (cases "sp_existing p")
    case None
    show ?thesis using apply_split_new [OF None un(1) _ Cons.prems(4), of "length ps"] Cons.prems(1) by auto
  next
    case (Some e)
    with kept have "e \<in># live eng t w" by (simp add: kept_splits_Cons)
    moreover have "room (length ps) ?w1"
      using setters_frame(2) [OF un(1) refl room_less] Cons.prems(1) Some by (simp add: apply_split_def)
    ultimately show ?thesis using apply_split_existing [OF Some un(1) _ Cons.prems(4)] by blast
  qed
  then obtain s where s: "split_done t p s w ?w1" and room: "room (length ps) ?w1" by blast
  note d = s [unfolded split_done_def]
  have g: "trans_guid (trans_at eng t ?w1) = trans_guid (trans_at eng t w)" using d trans_head_guid by blast
  have other: "apart w r (kept_splits [p])" if "r \<in> set (kept_splits ps)" for r
  proof (cases "sp_existing p")
    case (Some e)
    with Cons.prems(5) that have "r \<noteq> e" by (auto simp: kept_splits_Cons)
    with Cons.prems(4) kept that Some have "split_guid (split_at eng r w) \<noteq> split_guid (split_at eng e w)"
      using live_in by (auto simp: guids_apart_def kept_splits_Cons dest: inj_onD)
    with Some show ?thesis by (simp add: apart_def kept_splits_def List.map_filter_def)
  qed (simp add: apart_def kept_splits_def List.map_filter_def)
  have rest: "same_split eng r w ?w1" "split_guid (split_at eng r w) \<noteq> split_guid (split_at eng s ?w1)"
    "split_guid (split_at eng r ?w1) = split_guid (split_at eng r w)" if "r \<in> set (kept_splits ps)" for r
  proof -
    have "r \<in> seen t w" using that kept by (intro live_seen) (auto simp: kept_splits_Cons split: option.splits)
    with other [OF that] d show 1: "same_split eng r w ?w1" "split_guid (split_at eng r w) \<noteq> split_guid (split_at eng s ?w1)" by blast+
    from same_split_sel(1) [OF 1(1)] show "split_guid (split_at eng r ?w1) = split_guid (split_at eng r w)" .
  qed
  have "mset (kept_splits ps) \<subseteq># live eng t w"
    by (rule subset_mset.trans [OF _ Cons.prems(3)]) (simp add: kept_splits_Cons)
  also have "live eng t w \<subseteq># live eng t ?w1" using d by simp
  finally have "mset (kept_splits ps) \<subseteq># live eng t ?w1" .
  with Cons.IH [OF room un(2)] d Cons.prems(5) obtain ss where
    IH: "list_all2 (\<lambda>p s. carries p (split_at eng s ?w2) \<and>
          (\<forall>e. sp_existing p = Some e \<longrightarrow> s = e \<and> split_guid (split_at eng e ?w2) = split_guid (split_at eng e ?w1))) ps ss"
      "live eng t ?w2 = live eng t ?w1 - mset (kept_splits ps) + mset ss" "same_book eng ?w1 ?w2"
      "trans_head (trans_at eng t ?w2) = trans_head (trans_at eng t ?w1)"
      "\<And>u. trans_guid (trans_at eng u ?w1) \<noteq> trans_guid (trans_at eng t ?w1) \<Longrightarrow> same_trans eng u ?w1 ?w2"
      "\<And>r. r \<in> seen t ?w1 \<Longrightarrow> apart ?w1 r (kept_splits ps) \<Longrightarrow> same_split eng r ?w1 ?w2"
    by (fastforce simp: kept_splits_Cons)
  have seen: "r \<in> seen t ?w1" "apart w r (kept_splits [p]) \<longrightarrow> same_split eng r w ?w1" if "r \<in> seen t w" for r
    using d that by blast+
  have "split_guid (split_at eng s ?w1) \<noteq> split_guid (split_at eng r ?w1)" if "r \<in> set (kept_splits ps)" for r
    using rest(2,3) [OF that] by simp
  then have "apart ?w1 s (kept_splits ps)" by (rule apartI)
  moreover have "s \<in> seen t ?w1" using d live_seen by blast
  ultimately have "same_split eng s ?w1 ?w2" by (intro IH(6))
  note ends = same_split_sel [OF this]
  have "carries p (split_at eng s ?w2)" "split_guid (split_at eng s ?w2) = split_guid (split_at eng s ?w1)"
    using d by (simp_all add: ends)
  then have head: "carries p (split_at eng s ?w2) \<and>
      (\<forall>e. sp_existing p = Some e \<longrightarrow> s = e \<and> split_guid (split_at eng e ?w2) = split_guid (split_at eng e w))"
    using d by auto
  have tail: "list_all2 (\<lambda>p s. carries p (split_at eng s ?w2) \<and>
          (\<forall>e. sp_existing p = Some e \<longrightarrow> s = e \<and> split_guid (split_at eng e ?w2) = split_guid (split_at eng e w))) ps ss"
    by (rule list.rel_mono_strong [OF IH(1)]) (use kept_splitsI rest(3) in force)
  have live: "live eng t ?w2 = live eng t w - mset (kept_splits (p # ps)) + mset (s # ss)"
    using live_exchange [OF Cons.prems(3), of s ss] d IH(2) by simp
  have others: "same_trans eng u w ?w2" if "trans_guid (trans_at eng u w) \<noteq> trans_guid (trans_at eng t w)" for u
  proof -
    from d that have 1: "same_trans eng u w ?w1" by blast
    from IH(5) [of u] same_trans_guid [OF 1] g that show ?thesis by (intro same_trans_trans [OF 1]) simp
  qed
  have frame: "same_split eng r w ?w2" if r: "r \<in> seen t w" and a: "apart w r (kept_splits (p # ps))" for r
  proof -
    have 1: "same_split eng r w ?w1"
      using seen(2) [OF r] a by (auto simp: apart_def kept_splits_Cons kept_splits_def [of "[]"] List.map_filter_def split: option.splits)
    have "apart ?w1 r (kept_splits ps)"
      using a rest(3) same_split_sel(1) [OF 1] by (auto simp: apart_def kept_splits_Cons)
    from same_split_trans [OF 1 IH(6) [OF seen(1) [OF r] this]] show ?thesis .
  qed
  have book: "same_book eng w ?w2" and trans: "trans_head (trans_at eng t ?w2) = trans_head (trans_at eng t w)"
    using d IH(3,4) same_book_trans by auto
  show ?case
    unfolding fold_simps comp_def
    by (intro exI [of _ "s # ss"] conjI allI ballI impI) (use head tail live book trans others frame in simp_all)
qed

text \<open>Destroying the doomed splits, with the header setters before it.\<close>

lemma seq_readonly: "list_all (header_call t) cs \<Longrightarrow> readonly v (eng_seq eng cs w) = readonly v w"
  by (induction cs arbitrary: w) (use header_frame in auto)

lemma seq_header:
  assumes "list_all (header_call t) cs" and "trans_head (trans_at eng t w) = trans_head v"
  shows "trans_head (trans_at eng t (eng_seq eng cs w)) = trans_head (fold trans_write cs v) \<and>
    splits_of eng t (eng_seq eng cs w) = splits_of eng t w"
  using assms
proof (induction cs arbitrary: w v)
  case (Cons c cs)
  then have "trans_head (trans_at eng t (eng_do eng c w)) = trans_head (trans_write c v)"
    using header_writes [of t c w] trans_write_head [OF Cons.prems(2), of c] by auto
  from Cons.IH [OF _ this] Cons.prems(1) header_writes [of t c w] show ?case by simp
qed simp

lemma header_guid: "header_call t c \<Longrightarrow> trans_guid (trans_at eng t (eng_do eng c w)) = trans_guid (trans_at eng t w)"
proof -
  assume "header_call t c"
  then have "trans_head (trans_at eng t (eng_do eng c w)) = trans_head (trans_write c (trans_at eng t w))" using header_writes by blast
  from trans_head_guid [OF this] show ?thesis by (cases c) (simp_all add: trans_write_def)
qed

lemma seq_header_frame_all:
  assumes "list_all (header_call t) cs"
  shows "same_book eng w (eng_seq eng cs w) \<and> (room n w \<longrightarrow> room n (eng_seq eng cs w)) \<and>
    trans_guid (trans_at eng t (eng_seq eng cs w)) = trans_guid (trans_at eng t w) \<and>
    (trans_guid (trans_at eng u w) \<noteq> trans_guid (trans_at eng t w) \<longrightarrow> same_trans eng u w (eng_seq eng cs w)) \<and>
    (s \<notin># splits_of eng t w \<longrightarrow> same_split eng s w (eng_seq eng cs w)) \<and>
    split_guid (split_at eng s (eng_seq eng cs w)) = split_guid (split_at eng s w) \<and>
    split_destroying (split_at eng s (eng_seq eng cs w)) = split_destroying (split_at eng s w)"
  using assms
proof (induction cs arbitrary: w)
  case (Cons c cs)
  let ?w = "eng_do eng c w"
  from Cons.prems have c: "header_call t c" by simp
  note f = header_frame [OF c, of w n _ u s] and g = header_guid [OF c, of w] and h = header_writes [OF c, of w]
  have IH: "same_book eng ?w (eng_seq eng cs ?w)" "room n ?w \<longrightarrow> room n (eng_seq eng cs ?w)"
    "trans_guid (trans_at eng t (eng_seq eng cs ?w)) = trans_guid (trans_at eng t ?w)"
    "trans_guid (trans_at eng u ?w) \<noteq> trans_guid (trans_at eng t ?w) \<longrightarrow> same_trans eng u ?w (eng_seq eng cs ?w)"
    "s \<notin># splits_of eng t ?w \<longrightarrow> same_split eng s ?w (eng_seq eng cs ?w)"
    "split_guid (split_at eng s (eng_seq eng cs ?w)) = split_guid (split_at eng s ?w)"
    "split_destroying (split_at eng s (eng_seq eng cs ?w)) = split_destroying (split_at eng s ?w)"
    using Cons by auto
  have "same_trans eng u w (eng_seq eng cs ?w)" if ne: "trans_guid (trans_at eng u w) \<noteq> trans_guid (trans_at eng t w)"
  proof -
    from f ne have 1: "same_trans eng u w ?w" by blast
    from same_trans_guid [OF 1] g ne IH(4) same_trans_trans [OF 1] show ?thesis by simp
  qed
  moreover have "same_split eng s w (eng_seq eng cs ?w)" if ne: "s \<notin># splits_of eng t w"
  proof -
    from f ne have 1: "same_split eng s w ?w" by blast
    from h ne IH(5) same_split_trans [OF 1] show ?thesis by simp
  qed
  moreover have "same_book eng w (eng_seq eng cs ?w)" using f IH(1) same_book_trans [of eng w ?w] by simp
  ultimately show ?case using f g IH(2,3,6,7) by simp
qed simp

lemmas seq_header_frame = seq_header_frame_all [THEN conjunct1] seq_header_frame_all [THEN conjunct2, THEN conjunct1, rule_format]
  seq_header_frame_all [THEN conjunct2, THEN conjunct2, THEN conjunct1]
  seq_header_frame_all [THEN conjunct2, THEN conjunct2, THEN conjunct2, THEN conjunct1, rule_format]
  seq_header_frame_all [THEN conjunct2, THEN conjunct2, THEN conjunct2, THEN conjunct2, THEN conjunct1, rule_format]
  seq_header_frame_all [THEN conjunct2, THEN conjunct2, THEN conjunct2, THEN conjunct2, THEN conjunct2, THEN conjunct1]
  seq_header_frame_all [THEN conjunct2, THEN conjunct2, THEN conjunct2, THEN conjunct2, THEN conjunct2, THEN conjunct2]

lemma destroy_splits_all:
  assumes "distinct (map (\<lambda>d. split_guid (split_at eng d w)) ds)"
    and "set ds \<subseteq> set_mset (splits_of eng t w)" and "ds = [] \<or> \<not> readonly t w"
  shows "same_book eng w (eng_seq eng (map xaccSplitDestroy ds) w) \<and>
    (room n w \<longrightarrow> room n (eng_seq eng (map xaccSplitDestroy ds) w)) \<and> same_trans eng u w (eng_seq eng (map xaccSplitDestroy ds) w) \<and>
    (apart w r ds \<longrightarrow> same_split eng r w (eng_seq eng (map xaccSplitDestroy ds) w)) \<and>
    (\<forall>d \<in> set ds. split_destroying (split_at eng d (eng_seq eng (map xaccSplitDestroy ds) w)) \<and>
      split_guid (split_at eng d (eng_seq eng (map xaccSplitDestroy ds) w)) = split_guid (split_at eng d w))"
  using assms
proof (induction ds arbitrary: w r)
  case (Cons e ds)
  let ?w = "eng_do eng (xaccSplitDestroy e) w" and ?w2 = "eng_seq eng (map xaccSplitDestroy ds) (eng_do eng (xaccSplitDestroy e) w)"
  note f = split_frame [of e "xaccSplitDestroy e" w n _ u, simplified]
  have w: "split_head (split_at eng e ?w) = split_head ((split_at eng e w)\<lparr>split_destroying := True\<rparr>)"
    using destroy_writes [of e t w] Cons.prems(2,3) by (simp add: split_write_def)
  have e: "split_guid (split_at eng e ?w) = split_guid (split_at eng e w)" "split_destroying (split_at eng e ?w)"
    using arg_cong [OF w, of split_guid] arg_cong [OF w, of split_destroying] by simp_all
  have same: "same_split eng x w ?w" if "split_guid (split_at eng x w) \<noteq> split_guid (split_at eng e w)" for x
    using split_frame [of e "xaccSplitDestroy e" w n _ u x] that by simp
  have dg: "split_guid (split_at eng d ?w) = split_guid (split_at eng d w)" "split_guid (split_at eng d w) \<noteq> split_guid (split_at eng e w)"
    if "d \<in> set ds" for d
  proof -
    show ne: "split_guid (split_at eng d w) \<noteq> split_guid (split_at eng e w)" using Cons.prems that by (auto simp: image_iff)
    from same_split_sel(1) [OF same [OF ne]] show "split_guid (split_at eng d ?w) = split_guid (split_at eng d w)" .
  qed
  have "map (\<lambda>d. split_guid (split_at eng d ?w)) ds = map (\<lambda>d. split_guid (split_at eng d w)) ds"
    by (rule map_cong [OF refl dg(1)])
  moreover have "distinct (map (\<lambda>d. split_guid (split_at eng d w)) ds)" using Cons.prems by simp
  ultimately have dist: "distinct (map (\<lambda>d. split_guid (split_at eng d ?w)) ds)" by metis
  have "splits_of eng t ?w = splits_of eng t w" "readonly t ?w = readonly t w"
    using split_frame [of e "xaccSplitDestroy e" w n t t r] by (simp_all add: same_trans_def)
  with Cons.prems(2,3) have left: "set ds \<subseteq> set_mset (splits_of eng t ?w)" "ds = [] \<or> \<not> readonly t ?w" by auto
  note IH = Cons.IH [OF dist left]
  have "apart ?w e ds"
  proof (rule apartI)
    fix d assume "d \<in> set ds"
    from dg [OF this] e(1) show "split_guid (split_at eng e ?w) \<noteq> split_guid (split_at eng d ?w)" by simp
  qed
  then have "same_split eng e ?w ?w2" using IH by blast
  with e have destroyed: "split_destroying (split_at eng e ?w2)" "split_guid (split_at eng e ?w2) = split_guid (split_at eng e w)"
    using same_split_sel by metis+
  have frame: "same_split eng r w ?w2" if a: "apart w r (e # ds)"
  proof -
    from a have 1: "same_split eng r w ?w" by (intro same) (auto simp: apart_def)
    have "apart ?w r ds"
    proof (rule apartI)
      fix d assume d: "d \<in> set ds"
      from dg(1) [OF d] apartD [OF a, of d] d same_split_sel(1) [OF 1]
      show "split_guid (split_at eng r ?w) \<noteq> split_guid (split_at eng d ?w)" by simp
    qed
    with IH have "same_split eng r ?w ?w2" by blast
    from same_split_trans [OF 1 this] show ?thesis .
  qed
  have book: "same_book eng w ?w2" using f IH same_book_trans [of eng w ?w] by blast
  have trans: "same_trans eng u w ?w2" using f IH same_trans_trans [of eng u w ?w] by blast
  have more: "room n w \<longrightarrow> room n ?w2" using f IH by blast
  show ?case using destroyed frame book trans more IH dg(1) by simp
qed simp

lemmas destroy_splits = destroy_splits_all [THEN conjunct1] destroy_splits_all [THEN conjunct2, THEN conjunct1, rule_format]
  destroy_splits_all [THEN conjunct2, THEN conjunct2, THEN conjunct1]
  destroy_splits_all [THEN conjunct2, THEN conjunct2, THEN conjunct2, THEN conjunct1, rule_format]
  destroy_splits_all [THEN conjunct2, THEN conjunct2, THEN conjunct2, THEN conjunct2, rule_format]

lemma trans_setters_calls: "list_all (header_call t) (trans_setters t plan)"
  by (simp add: trans_setters_def)

lemma ApplyPlan_done:
  fixes t :: Transaction and book :: QofBook and plan :: TransactionPlan
  defines "cs \<equiv> trans_setters t plan" and "kept \<equiv> kept_splits (tp_splits plan)" and "doomed \<equiv> tp_doomed plan"
  assumes more: "room (length (tp_splits plan)) w" and un: "plan_unrounded unrounded (tp_splits plan)"
    and inj: "guids_apart t w" and alive: "\<And>s. s \<in># splits_of eng t w \<Longrightarrow> \<not> split_destroying (split_at eng s w)"
    and dist: "distinct (kept @ doomed)" and part: "splits_of eng t w = mset (kept @ doomed)"
    and free: "doomed = [] \<or> \<not> readonly t w"
  obtains ss where
    "list_all2 (\<lambda>p s. carries p (split_at eng s (ApplyPlan eng book t plan w)) \<and>
       (\<forall>e. sp_existing p = Some e \<longrightarrow> split_guid (split_at eng s (ApplyPlan eng book t plan w)) = split_guid (split_at eng e w)))
       (tp_splits plan) ss"
    and "live eng t (ApplyPlan eng book t plan w) = mset ss" and "same_book eng w (ApplyPlan eng book t plan w)"
    and "trans_head (trans_at eng t (ApplyPlan eng book t plan w)) = trans_head (fold trans_write cs (trans_at eng t w))"
    and "\<And>u. trans_guid (trans_at eng u w) \<noteq> trans_guid (trans_at eng t w) \<Longrightarrow> same_trans eng u w (ApplyPlan eng book t plan w)"
    and "\<And>u r. trans_guid (trans_at eng u w) \<noteq> trans_guid (trans_at eng t w) \<Longrightarrow> r \<in># splits_of eng u w \<Longrightarrow>
       apart w r (kept @ doomed) \<Longrightarrow> same_split eng r w (ApplyPlan eng book t plan w)"
proof -
  define w1 where "w1 = eng_seq eng cs w"
  define w2 where "w2 = eng_seq eng (map xaccSplitDestroy doomed) w1"
  have w': "ApplyPlan eng book t plan w = fold (apply_split eng book t) (tp_splits plan) w2"
    by (simp add: ApplyPlan_def w2_def w1_def cs_def doomed_def eng_seq_append)
  have cs: "list_all (header_call t) cs" unfolding cs_def by (rule trans_setters_calls)
  note f1 = seq_header_frame [OF cs, where w = w, folded w1_def] and h1 = seq_header [OF cs refl, of w, folded w1_def]
  have in_w: "r \<in># splits_of eng t w \<longleftrightarrow> r \<in> set kept \<or> r \<in> set doomed" for r by (simp add: part)
  have guid_ne: "split_guid (split_at eng r w) \<noteq> split_guid (split_at eng d w)"
    if "r \<in># splits_of eng t w" "d \<in># splits_of eng t w" "r \<noteq> d" for r d
    using inj that unfolding guids_apart_def by (metis inj_onD)
  have dd: "distinct (map (\<lambda>d. split_guid (split_at eng d w1)) doomed)"
    using dist inj by (auto simp: distinct_map f1(6) guids_apart_def in_w intro: inj_on_subset)
  have mine: "set doomed \<subseteq> set_mset (splits_of eng t w1)" using h1 by (simp add: part)
  have "readonly t w1 = readonly t w" unfolding w1_def by (rule seq_readonly [OF cs])
  with free have "doomed = [] \<or> \<not> readonly t w1" by simp
  note f2 = destroy_splits [OF dd mine this, folded w2_def]
  have sp2: "splits_of eng t w2 = splits_of eng t w" using f2(3) [of t] h1 by (simp add: same_trans_def)
  have keptD: "same_split eng r w1 w2" if "r \<in> set kept" for r
  proof (rule f2(4), rule apartI)
    fix d assume "d \<in> set doomed"
    with that dist in_w guid_ne [of r d] show "split_guid (split_at eng r w1) \<noteq> split_guid (split_at eng d w1)" by (auto simp: f1(6))
  qed
  have guid2: "split_guid (split_at eng r w2) = split_guid (split_at eng r w)" if "r \<in># splits_of eng t w" for r
    using that in_w same_split_sel(1) [OF keptD] f2(5) f1(6) by metis
  have live2: "live eng t w2 = mset kept"
  proof -
    have stays: "\<not> split_destroying (split_at eng s w2)" if "s \<in> set kept" for s
      using same_split_sel(2) [OF keptD [OF that]] f1(7) [of s] alive [of s] in_w [of s] that by simp
    have "filter_mset (\<lambda>s. \<not> split_destroying (split_at eng s w2)) (mset kept) = mset kept"
      unfolding filter_mset_eq_conv using stays by simp
    moreover have "filter_mset (\<lambda>s. \<not> split_destroying (split_at eng s w2)) (mset doomed) = {#}"
      unfolding filter_mset_eq_conv using f2(5) by simp
    ultimately show ?thesis by (simp add: live_def sp2 part)
  qed
  have inj2: "guids_apart t w2" using inj guid2 unfolding guids_apart_def sp2 by (metis (no_types, lifting) inj_on_cong)
  have more2: "room (length (tp_splits plan)) w2" using f2(2) f1(2) more by blast
  have g1: "trans_guid (trans_at eng t w1) = trans_guid (trans_at eng t w)" by (rule f1(3))
  have g2: "trans_guid (trans_at eng t w2) = trans_guid (trans_at eng t w)" using same_trans_guid [OF f2(3)] g1 by simp
  from apply_splits [OF more2 un _ inj2, of book] live2 dist kept_def obtain ss where
    ss: "list_all2 (\<lambda>p s. carries p (split_at eng s (ApplyPlan eng book t plan w)) \<and>
        (\<forall>e. sp_existing p = Some e \<longrightarrow> s = e \<and> split_guid (split_at eng e (ApplyPlan eng book t plan w)) = split_guid (split_at eng e w2)))
        (tp_splits plan) ss"
      "live eng t (ApplyPlan eng book t plan w) = mset ss" "same_book eng w2 (ApplyPlan eng book t plan w)"
      "trans_head (trans_at eng t (ApplyPlan eng book t plan w)) = trans_head (trans_at eng t w2)"
      "\<And>u. trans_guid (trans_at eng u w2) \<noteq> trans_guid (trans_at eng t w2) \<Longrightarrow> same_trans eng u w2 (ApplyPlan eng book t plan w)"
      "\<And>r. r \<in> seen t w2 \<Longrightarrow> apart w2 r kept \<Longrightarrow> same_split eng r w2 (ApplyPlan eng book t plan w)"
    unfolding w' by auto
  show thesis
  proof (rule that [OF _ ss(2)])
    show "list_all2 (\<lambda>p s. carries p (split_at eng s (ApplyPlan eng book t plan w)) \<and>
       (\<forall>e. sp_existing p = Some e \<longrightarrow> split_guid (split_at eng s (ApplyPlan eng book t plan w)) = split_guid (split_at eng e w)))
       (tp_splits plan) ss"
      by (rule list.rel_mono_strong [OF ss(1)]) (use guid2 in_w kept_splitsI kept_def in force)
    show "same_book eng w (ApplyPlan eng book t plan w)"
      by (rule same_book_trans [OF f1(1) same_book_trans [OF f2(1) ss(3)]])
    show "trans_head (trans_at eng t (ApplyPlan eng book t plan w)) = trans_head (fold trans_write cs (trans_at eng t w))"
      using ss(4) f2(3) [of t] h1 by (simp add: same_trans_def)
    fix u assume u: "trans_guid (trans_at eng u w) \<noteq> trans_guid (trans_at eng t w)"
    have u2: "same_trans eng u w w2" by (rule same_trans_trans [OF f1(4) [OF u] f2(3)])
    then have ne: "trans_guid (trans_at eng u w2) \<noteq> trans_guid (trans_at eng t w2)" using u g2 same_trans_guid [OF u2] by simp
    show "same_trans eng u w (ApplyPlan eng book t plan w)" by (rule same_trans_trans [OF u2 ss(5) [OF ne]])
    fix r assume r: "r \<in># splits_of eng u w" and a: "apart w r (kept @ doomed)"
    have "r \<notin># splits_of eng t w" using a in_w apartD [OF a] by auto
    then have 1: "same_split eng r w w1" by (rule f1(5))
    have 2: "same_split eng r w1 w2" using apartD [OF a] by (intro f2(4) apartI) (simp add: f1(6))
    have g: "split_guid (split_at eng r w2) = split_guid (split_at eng r w)" using same_split_sel(1) [OF same_split_trans [OF 1 2]] .
    have "r \<in> seen t w2" using r u2 ne unfolding seen_def same_trans_def by auto
    moreover have "apart w2 r kept" using apartD [OF a] guid2 in_w g by (intro apartI) auto
    ultimately have "same_split eng r w2 (ApplyPlan eng book t plan w)" by (rule ss(6))
    with 1 2 show "same_split eng r w (ApplyPlan eng book t plan w)" using same_split_trans by metis
  qed
qed

end

section \<open>The reference engine is a transaction store\<close>

text \<open>GUIDs are left for the next allocations, and no split in a list has one of them.\<close>

definition ref_room :: "nat \<Rightarrow> ref_world \<Rightarrow> bool" where
  "ref_room n w \<longleftrightarrow> rw_next w + n \<le> 2 ^ 128 \<and> (\<forall>u. \<forall>s \<in> set (xaccTransGetSplitList (ref_trans u w)). unat (key s) < rw_next w)"

lemma ref_trans_set:
  "ref_trans u (set_mem_trans t (Some v) w) = (if key u = key t then v\<lparr>trans_guid := key t\<rparr> else ref_trans u w)"
  "ref_trans u (set_mem_split s x w) = ref_trans u w" "ref_trans u (open_edit e w) = ref_trans u w" "ref_trans u (bump w) = ref_trans u w"
  by (simp_all add: ref_trans_def set_mem_trans_def set_mem_split_def open_edit_def bump_def)

lemma ref_split_set:
  "ref_split r (set_mem_split s (Some v) w) = (if key r = key s then v\<lparr>split_guid := key s\<rparr> else ref_split r w)"
  "ref_split r (set_mem_trans t x w) = ref_split r w" "ref_split r (open_edit e w) = ref_split r w" "ref_split r (bump w) = ref_split r w"
  by (simp_all add: ref_split_def set_mem_trans_def set_mem_split_def open_edit_def bump_def)

lemma ref_next_set:
  "rw_next (set_mem_trans t x w) = rw_next w" "rw_next (set_mem_split s y w) = rw_next w" "rw_next (open_edit e w) = rw_next w"
  "rw_next (bump w) = rw_next w + 1"
  by (simp_all add: set_mem_trans_def set_mem_split_def open_edit_def bump_def)

lemma ref_account_same:
  "ref_account a (set_mem_trans t x w) = ref_account a w" "ref_account a (set_mem_split s y w) = ref_account a w"
  by (simp_all add: ref_account_def set_mem_trans_def set_mem_split_def)

lemmas ref_sets = ref_trans_set ref_split_set ref_next_set ref_account_same

lemma ref_header_call:
  assumes "header_call t c"
  obtains "c = xaccTransBeginEdit t"
  | v where "ref_do c w = set_mem_trans t (Some v) w" and "v = trans_write c (ref_trans t w)"
    and "xaccTransGetSplitList v = xaccTransGetSplitList (ref_trans t w)"
  using assms by (cases c) (auto simp: trans_write_def)

lemma ref_split_call:
  assumes "split_call s c"
  obtains v where "ref_do c w = set_mem_split s (Some v) w" and "v = split_write c (ref_split s w)"
  using assms by (cases c) (auto simp: split_write_def)

lemma key_next: "ref_room (Suc n) w \<Longrightarrow> unat (key (rw_next w)) = rw_next w"
  by (simp add: ref_room_def key_def unat_of_nat)

interpretation ref_transactions: trans_store ref_engine "\<lambda>_. True" ref_room "\<lambda>_ _. False"
proof (unfold_locales, goal_cases)
  case (1 t c w)
  then show ?case
    by (rule ref_header_call [where w = w])
       (auto simp: ref_sets trans_head_def splits_of_def trans_write_def split: engine_call.splits)
next
  case (2 t c w n v u s)
  then show ?case
    by (rule ref_header_call [where w = w])
       (auto simp: ref_sets same_book_def same_trans_def same_split_def splits_of_def ref_room_def)
next
  case (3 s c w)
  from 3(1) show ?case
    by (rule ref_split_call [where w = w]) (auto simp: ref_sets split_write_def split_head_def split: engine_call.splits)
next
  case (4 s t w)
  then show ?case by (simp add: ref_sets split_write_def split_head_def)
next
  case (5 s c w n v u r)
  then show ?case
    by (rule ref_split_call [where w = w]) (auto simp: ref_sets same_book_def same_trans_def same_split_def splits_of_def ref_room_def)
next
  case (6 book w s w0 w1 t n u r)
  then have s: "s = rw_next w" and w0: "w0 = set_mem_split s (Some new_split) (bump w)" by auto
  have k: "unat (key s) = rw_next w" using key_next [OF 6(3)] by (simp add: s)
  have other: "key r \<noteq> key s" if "r \<in># splits_of ref_engine u w" for r u
    using 6(3) that k by (auto simp: ref_room_def splits_of_def) (metis less_irrefl)
  have "ref_room n w1" using 6(2,3) k by (auto simp: ref_room_def ref_sets w0 less_Suc_eq)
  then show ?case
    using 6(2) other by (auto simp: w0 ref_sets same_book_def same_trans_def same_split_def splits_of_def trans_head_def new_split_def)
next
  case (7 book w t w1 n u r)
  then show ?case
    by (auto simp: ref_sets same_book_def same_trans_def same_split_def splits_of_def ref_room_def new_trans_def less_Suc_eq split: if_splits)
next
  case (8 n w)
  then show ?case by (simp add: ref_room_def)
qed (auto simp: ref_engine_def)

end
