(* ===== verification/Posted_Transactions.thy ===== *)
theory Posted_Transactions
  imports Transaction_Effects
begin

text \<open>
  \<^verbatim>\<open>PostTransaction\<close> and \<^verbatim>\<open>UpdateTransaction\<close> from the request to the response: the plan follows
  the specification split by split, and carrying it out on a \<open>trans_store\<close> leaves a transaction
  that the response describes in the words of the request.
\<close>

section \<open>Responses that answer a specification\<close>

definition proto_quantity :: "SplitMsg \<Rightarrow> rat" where
  "proto_quantity spec = Fract (nu_num (field_or Numeric_default (sm_quantity spec))) (nu_denom (field_or Numeric_default (sm_quantity spec)))"

text \<open>The calendar: a date GLib finds valid by its parts is valid once it is set.\<close>

definition calendar :: "qof_lib \<Rightarrow> bool" where
  "calendar ql \<longleftrightarrow> (\<forall>d m y. 1 \<le> m \<longrightarrow> m \<le> 12 \<longrightarrow> g_date_valid_dmy ql d m y \<longrightarrow> g_date_valid ql (g_date_set_dmy d m y))"

text \<open>
  A split of the response and the split of the request it answers: a named split keeps its GUID,
  values and quantities agree as fractions, and an unspecified reconcile state is "not reconciled".
\<close>

definition describes_split :: "qof_lib \<Rightarrow> SplitMsg \<Rightarrow> SplitMsg \<Rightarrow> bool" where
  "describes_split ql spec out \<longleftrightarrow>
     (sm_guid spec \<noteq> [] \<longrightarrow> sm_guid out = sm_guid spec) \<and>
     string_to_guid ql (c_str (sm_account_guid out)) = string_to_guid ql (c_str (sm_account_guid spec)) \<and>
     proto_value out = proto_value spec \<and> proto_quantity out = proto_quantity spec \<and>
     sm_memo out = c_str (sm_memo spec) \<and> sm_action out = c_str (sm_action spec) \<and>
     sm_reconcile_state out = (if sm_reconcile_state spec = RECONCILE_STATE_UNSPECIFIED then RECONCILE_STATE_NOT_RECONCILED
                               else sm_reconcile_state spec)"

definition describes_transaction :: "'w engine \<Rightarrow> QofBook \<Rightarrow> TransactionMsg \<Rightarrow> 'w \<Rightarrow> TransactionMsg \<Rightarrow> bool" where
  "describes_transaction eng book spec w out \<longleftrightarrow>
     (case FindCommodity eng book (field_or CommodityId_default (tm_currency spec)) ''transaction.currency'' w of
        Inr currency \<Rightarrow> tm_currency out = Some (CommodityIdToProto eng currency w) | Inl _ \<Rightarrow> False) \<and>
     tm_post_date out = tm_post_date spec \<and>
     tm_enter_time_utc out = (if tm_enter_time_utc spec \<noteq> 0 then tm_enter_time_utc spec else gnc_time eng w) \<and>
     tm_num out = c_str (tm_num spec) \<and> tm_description out = c_str (tm_description spec) \<and>
     rel_mset (describes_split (lib eng)) (mset (tm_splits spec)) (mset (tm_splits out))"

section \<open>Plans follow their specification\<close>

definition follows :: "'w engine \<Rightarrow> QofBook \<Rightarrow> 'w \<Rightarrow> SplitMsg \<Rightarrow> SplitPlan \<Rightarrow> bool" where
  "follows eng book w spec p \<longleftrightarrow>
     (\<exists>g. string_to_guid (lib eng) (c_str (sm_account_guid spec)) = Some g \<and> xaccAccountLookup eng g book w = Some (sp_account p)) \<and>
     num_value (sp_value p) = proto_value spec \<and> num_value (sp_quantity p) = proto_quantity spec \<and>
     sp_memo p = sm_memo spec \<and> sp_action p = sm_action spec \<and>
     ReconcileStateToProto (sp_reconcile p) =
       (if sm_reconcile_state spec = RECONCILE_STATE_UNSPECIFIED then RECONCILE_STATE_NOT_RECONCILED else sm_reconcile_state spec)"

lemma NumericFromProto_value:
  "NumericFromProto n ctx = Inr v \<Longrightarrow> num_value v = Fract (nu_num n) (nu_denom n)"
  by (auto simp: NumericFromProto_def num_value_def gnc_numeric_create_def split: if_splits)

lemma planned_reconcile:
  assumes "(if st = RECONCILE_STATE_UNSPECIFIED then Inr NREC else ReconcileStateFromProto st ctx) = Inr r"
  shows "ReconcileStateToProto r = (if st = RECONCILE_STATE_UNSPECIFIED then RECONCILE_STATE_NOT_RECONCILED else st)"
  using assms reconcile_state.accepted [of st ctx r] by (auto simp: ReconcileStateToProto_def split: if_splits)

lemma plan_split_follows:
  assumes "plan_split eng book w update es claimed i spec = Inr (p, cl)"
  shows "follows eng book w spec p"
proof -
  let ?ctx = "\<lambda>f. split_field i @ f"
  from assms obtain a v q r where a: "FindAccount eng book (sm_account_guid spec) (?ctx ''.account_guid'') w = Inr a"
    and v: "NumericFromProto (field_or Numeric_default (sm_value spec)) (?ctx ''.value'') = Inr v"
    and q: "NumericFromProto (field_or Numeric_default (sm_quantity spec)) (?ctx ''.quantity'') = Inr q"
    and r: "(if sm_reconcile_state spec = RECONCILE_STATE_UNSPECIFIED then Inr NREC
       else ReconcileStateFromProto (sm_reconcile_state spec) (?ctx ''.reconcile_state'')) = Inr r"
    and p: "sp_account p = a" "sp_value p = v" "sp_quantity p = q" "sp_memo p = sm_memo spec" "sp_action p = sm_action spec" "sp_reconcile p = r"
    by (auto simp: plan_split_def Let_def and_then_eq_Inr split del: if_split)
  show ?thesis
    using a p planned_reconcile [OF r] NumericFromProto_value [OF v] NumericFromProto_value [OF q]
    by (simp add: follows_def FindAccount_eq_Inr proto_value_def proto_quantity_def)
qed

lemma plan_splits_follow:
  assumes "plan_splits eng book w update es i s claimed specs = Inr (ps, tot, claimed')"
  shows "list_all2 (follows eng book w) specs ps"
  using assms
proof (induction specs arbitrary: i s claimed ps)
  case (Cons spec specs)
  from Cons.prems show ?case by (rule plan_splits_ConsE) (use Cons.IH plan_split_follows in auto)
qed simp

text \<open>The header of a plan.\<close>

lemma planned_header:
  assumes "PlanTransaction eng ho book spec existing w = Inr plan" and "calendar (lib eng)"
  shows "tm_post_date spec = valid_date_field (lib eng) (tp_post_date plan)"
    and "tp_enter_time plan = (if tm_enter_time_utc spec \<noteq> 0 then tm_enter_time_utc spec else gnc_time eng w)"
    and "tp_num plan = tm_num spec" and "tp_description plan = tm_description spec"
    and "FindCommodity eng book (field_or CommodityId_default (tm_currency spec)) ''transaction.currency'' w = Inr (tp_currency plan)"
proof -
  from assms(1) obtain d where d: "tm_post_date spec = Some d" "DateFromProto (lib eng) d ''transaction.post_date'' = Inr (tp_post_date plan)"
    by (auto simp: PlanTransaction_def and_then_eq_Inr Let_def field_or_def)
  then have "g_date_valid (lib eng) (tp_post_date plan)"
    using assms(2) [unfolded calendar_def, rule_format, of "da_month d" "word_of_int (da_day d)" "word_of_int (da_year d)"]
    by (auto simp: DateFromProto_def split: if_splits)
  with d date.accepted [OF d(2)] show "tm_post_date spec = valid_date_field (lib eng) (tp_post_date plan)"
    by (simp add: valid_date_field_def)
qed (use assms(1) in \<open>auto simp: PlanTransaction_def and_then_eq_Inr Let_def\<close>)

lemma trans_setters_write:
  "fold trans_write (trans_setters t plan) v =
     v\<lparr>xaccTransGetCurrency := Some (tp_currency plan), xaccTransGetDatePostedGDate := tp_post_date plan,
       xaccTransGetDateEntered := tp_enter_time plan, xaccTransGetNum := Some (c_str (tp_num plan)),
       xaccTransGetDescription := Some (c_str (tp_description plan))\<rparr>"
  by (cases v) (simp add: trans_setters_def trans_write_def)

lemma trans_head_sel:
  "trans_guid (trans_head v) = trans_guid v" "xaccTransGetCurrency (trans_head v) = xaccTransGetCurrency v"
  "xaccTransGetDatePostedGDate (trans_head v) = xaccTransGetDatePostedGDate v"
  "xaccTransGetDateEntered (trans_head v) = xaccTransGetDateEntered v"
  "safe (xaccTransGetNum (trans_head v)) = safe (xaccTransGetNum v)"
  "safe (xaccTransGetDescription (trans_head v)) = safe (xaccTransGetDescription v)"
  by (simp_all add: trans_head_def safe_def)

lemma TransactionToProto_head:
  assumes "trans_head (trans_at eng t w) = trans_head v"
  shows "TransactionToProto eng t w =
     \<lparr>tm_guid = GuidToString (lib eng) (trans_guid v), tm_currency = map_option (\<lambda>c. CommodityIdToProto eng c w) (xaccTransGetCurrency v),
      tm_post_date = valid_date_field (lib eng) (xaccTransGetDatePostedGDate v), tm_enter_time_utc = xaccTransGetDateEntered v,
      tm_num = safe (xaccTransGetNum v), tm_description = safe (xaccTransGetDescription v),
      tm_splits = map (\<lambda>sp. SplitToProto eng sp w)
        (filter (\<lambda>sp. \<not> split_destroying (split_at eng sp w)) (xaccTransGetSplitList (trans_at eng t w)))\<rparr>"
  using trans_head_sel [of "trans_at eng t w"] unfolding assms trans_head_sel
  by (simp add: TransactionToProto_def Let_def)

lemma TransactionToProto_splits:
  "mset (tm_splits (TransactionToProto eng t w)) = image_mset (\<lambda>sp. SplitToProto eng sp w) (live eng t w)"
  by (simp add: TransactionToProto_def Let_def live_def splits_of_def)

section \<open>Carrying out a plan answers its specification\<close>

context trans_store
begin

lemma carried_describes:
  assumes "follows eng book w s p" and "carries p (split_at eng sp w1)" and "same_book eng w w1" and "guid_text (lib eng)"
    and "sm_guid s \<noteq> [] \<Longrightarrow> split_guid_string eng w1 sp = sm_guid s"
  shows "describes_split (lib eng) s (SplitToProto eng sp w1)"
  using assms account_lookup
  by (auto simp: describes_split_def SplitToProto_def Let_def follows_def carries_def same_book_def split_guid_string_def
      GuidToString_def guid_text_def proto_value_def proto_quantity_def num_value_def field_or_def NumericToProto_def)

lemma ApplyPlan_describes:
  fixes t :: Transaction and book :: QofBook and plan :: TransactionPlan and w0 :: 'w
  defines "kept \<equiv> kept_splits (tp_splits plan)" and "doomed \<equiv> tp_doomed plan" and "w1 \<equiv> ApplyPlan eng book t plan w0"
  assumes plan: "PlanTransaction eng ho book spec existing w = Inr plan" and lib: "calendar (lib eng)" "guid_text (lib eng)"
    and start: "same_book eng w w0" and more: "room (length (tp_splits plan)) w0" and un: "plan_unrounded unrounded (tp_splits plan)"
    and inj: "guids_apart t w0" and alive: "\<And>s. s \<in># splits_of eng t w0 \<Longrightarrow> \<not> split_destroying (split_at eng s w0)"
    and dist: "distinct (kept @ doomed)" and part: "splits_of eng t w0 = mset (kept @ doomed)"
    and free: "doomed = [] \<or> \<not> readonly t w0"
    and named: "list_all2 (\<lambda>s p. sm_guid s \<noteq> [] \<longrightarrow> (\<exists>e. sp_existing p = Some e \<and> split_guid_string eng w0 e = sm_guid s))
      (tm_splits spec) (tp_splits plan)"
  shows "describes_transaction eng book spec w (TransactionToProto eng t w1)" (is ?described)
    and "tm_guid (TransactionToProto eng t w1) = GuidToString (lib eng) (trans_guid (trans_at eng t w0))" (is ?guid)
    and "\<And>u. trans_guid (trans_at eng u w0) \<noteq> trans_guid (trans_at eng t w0) \<Longrightarrow> same_trans eng u w0 w1"
    and "\<And>u r. trans_guid (trans_at eng u w0) \<noteq> trans_guid (trans_at eng t w0) \<Longrightarrow> r \<in># splits_of eng u w0 \<Longrightarrow>
       apart w0 r (kept @ doomed) \<Longrightarrow> same_split eng r w0 w1"
proof -
  from ApplyPlan_done [OF more un inj alive dist [unfolded kept_def doomed_def] part [unfolded kept_def doomed_def]
      free [unfolded doomed_def], of book, folded w1_def kept_def doomed_def]
  obtain ss where ss: "list_all2 (\<lambda>p s. carries p (split_at eng s w1) \<and>
         (\<forall>e. sp_existing p = Some e \<longrightarrow> split_guid (split_at eng s w1) = split_guid (split_at eng e w0))) (tp_splits plan) ss"
      "live eng t w1 = mset ss" and book: "same_book eng w0 w1"
    and head: "trans_head (trans_at eng t w1) = trans_head (fold trans_write (trans_setters t plan) (trans_at eng t w0))"
    and frame: "\<And>u. trans_guid (trans_at eng u w0) \<noteq> trans_guid (trans_at eng t w0) \<Longrightarrow> same_trans eng u w0 w1"
      "\<And>u r. trans_guid (trans_at eng u w0) \<noteq> trans_guid (trans_at eng t w0) \<Longrightarrow> r \<in># splits_of eng u w0 \<Longrightarrow>
       apart w0 r (kept @ doomed) \<Longrightarrow> same_split eng r w0 w1"
    by blast
  have same: "same_book eng w w1" by (rule same_book_trans [OF start book])
  from plan obtain tot claimed where "plan_splits eng book w (existing \<noteq> None) (engine_split_table eng existing w) 0 gnc_numeric_zero []
      (tm_splits spec) = Inr (tp_splits plan, tot, claimed)" by (rule PlanTransactionE)
  note follow = plan_splits_follow [OF this]
  have "list_all2 (\<lambda>s sp. describes_split (lib eng) s (SplitToProto eng sp w1)) (tm_splits spec) ss"
    unfolding list_all2_conv_all_nth
  proof (intro conjI allI impI)
    show len: "length (tm_splits spec) = length ss" using follow ss(1) by (simp add: list_all2_lengthD)
    fix i assume i: "i < length (tm_splits spec)"
    note nth = list_all2_nthD [OF follow i] list_all2_nthD [OF named i] list_all2_nthD2 [OF ss(1), of i]
    show "describes_split (lib eng) (tm_splits spec ! i) (SplitToProto eng (ss ! i) w1)"
      by (rule carried_describes [OF nth(1) _ same lib(2)]) (use nth(2,3) i len in \<open>auto simp: split_guid_string_def\<close>)
  qed
  then have "rel_mset (describes_split (lib eng)) (mset (tm_splits spec)) (mset (tm_splits (TransactionToProto eng t w1)))"
    unfolding TransactionToProto_splits ss(2) rel_mset_def
    by (intro exI [of _ "tm_splits spec"] exI [of _ "map (\<lambda>sp. SplitToProto eng sp w1) ss"]) (simp add: list.rel_map)
  then show ?described
    using planned_header [OF plan lib(1)] same
    by (simp add: describes_transaction_def TransactionToProto_head [OF head] trans_setters_write safe_def CommodityIdToProto_def same_book_def)
  show ?guid by (simp add: TransactionToProto_head [OF head] trans_setters_write)
  show "same_trans eng u w0 w1" if "trans_guid (trans_at eng u w0) \<noteq> trans_guid (trans_at eng t w0)" for u using frame(1) [OF that] .
  show "same_split eng r w0 w1" if "trans_guid (trans_at eng u w0) \<noteq> trans_guid (trans_at eng t w0)" "r \<in># splits_of eng u w0"
    "apart w0 r (kept @ doomed)" for u r using frame(2) [OF that] .
qed

end

section \<open>The splits of a plan\<close>

lemma kept_filter: "map Some (kept_splits ps) = filter (\<lambda>e. e \<noteq> None) (map sp_existing ps)"
  by (induction ps) (auto simp: kept_splits_Cons kept_splits_def [of "[]"] List.map_filter_def)

lemma kept_set: "sp \<in> set (kept_splits ps) \<longleftrightarrow> Some sp \<in> sp_existing ` set ps"
proof -
  have "sp \<in> set (kept_splits ps) \<longleftrightarrow> Some sp \<in> set (map Some (kept_splits ps))" by auto
  then show ?thesis unfolding kept_filter by force
qed

lemma update_plan_splits:
  assumes "PlanTransaction eng ho book spec (Some t) w = Inr plan"
    and "distinct (map (split_guid_string eng w) (xaccTransGetSplitList (trans_at eng t w)))" and ho: "\<And>m. mset (ho m) = mset m"
  shows "distinct (kept_splits (tp_splits plan) @ tp_doomed plan)"
    and "splits_of eng t w = mset (kept_splits (tp_splits plan) @ tp_doomed plan)"
    and "list_all2 (\<lambda>s p. sm_guid s \<noteq> [] \<longrightarrow> (\<exists>e. sp_existing p = Some e \<and> split_guid_string eng w e = sm_guid s))
      (tm_splits spec) (tp_splits plan)"
proof -
  note facts = update_plan_facts [OF assms(1,2)]
  have set: "set (kept_splits (tp_splits plan)) \<inter> set (tp_doomed plan) = {}"
    "set (kept_splits (tp_splits plan)) \<union> set (tp_doomed plan) = set (xaccTransGetSplitList (trans_at eng t w))"
    using facts(1,2) mset_eq_setD [OF ho] by (auto simp: kept_set)
  have "distinct (map Some (kept_splits (tp_splits plan)))" unfolding kept_filter by (rule facts(3))
  with set(1) facts(5) [OF ho] show dist: "distinct (kept_splits (tp_splits plan) @ tp_doomed plan)" by (simp add: distinct_map)
  have "distinct (xaccTransGetSplitList (trans_at eng t w))" using assms(2) by (simp add: distinct_map)
  with dist set(2) show "splits_of eng t w = mset (kept_splits (tp_splits plan) @ tp_doomed plan)"
    unfolding splits_of_def by (subst set_eq_iff_mset_eq_distinct [symmetric]) auto
  show "list_all2 (\<lambda>s p. sm_guid s \<noteq> [] \<longrightarrow> (\<exists>e. sp_existing p = Some e \<and> split_guid_string eng w e = sm_guid s))
      (tm_splits spec) (tp_splits plan)"
    by (rule list.rel_mono_strong [OF facts(4)]) (auto split: if_splits)
qed

lemma post_plan_splits:
  assumes "PlanTransaction eng ho book spec None w = Inr plan" and ho: "\<And>m. mset (ho m) = mset m"
  shows "kept_splits (tp_splits plan) = []" and "tp_doomed plan = []"
    and "list_all2 (\<lambda>s p. sm_guid s \<noteq> [] \<longrightarrow> (\<exists>e. sp_existing p = Some e \<and> split_guid_string eng w0 e = sm_guid s))
      (tm_splits spec) (tp_splits plan)"
proof -
  from assms(1) obtain tot claimed where
    ps: "plan_splits eng book w False [] 0 gnc_numeric_zero [] (tm_splits spec) = Inr (tp_splits plan, tot, claimed)"
    and doomed: "tp_doomed plan = map snd (filter (\<lambda>(guid, _). guid \<notin> set claimed) (ho []))"
    by (rule PlanTransactionE) (simp add: engine_split_table_def)
  note cl = plan_splits_claims [OF ps]
  have none: "sm_guid s = []" if "s \<in> set (tm_splits spec)" for s using cl that by (auto simp: named_guids_def)
  with cl have ex: "map sp_existing (tp_splits plan) = map (\<lambda>_. None) (tm_splits spec)" by simp
  have "map Some (kept_splits (tp_splits plan)) = []" unfolding kept_filter ex by (simp add: filter_empty_conv)
  then show "kept_splits (tp_splits plan) = []" by simp
  show "tp_doomed plan = []" using doomed ho [of "[]"] by simp
  show "list_all2 (\<lambda>s p. sm_guid s \<noteq> [] \<longrightarrow> (\<exists>e. sp_existing p = Some e \<and> split_guid_string eng w0 e = sm_guid s))
      (tm_splits spec) (tp_splits plan)"
    using none arg_cong [OF ex, of length] by (auto simp: list_all2_conv_all_nth)
qed

context trans_store
begin

text \<open>Opening the edit before the plan is carried out.\<close>

lemma begun_edit:
  assumes "w0 = eng_do eng (xaccTransBeginEdit t) w"
  shows "same_book eng w w0" and "room n w \<Longrightarrow> room n w0" and "splits_of eng t w0 = splits_of eng t w"
    and "trans_guid (trans_at eng t w0) = trans_guid (trans_at eng t w)"
    and "trans_guid (trans_at eng u w) \<noteq> trans_guid (trans_at eng t w) \<Longrightarrow> same_trans eng u w w0"
    and "s \<notin># splits_of eng t w \<Longrightarrow> same_split eng s w w0"
    and "split_guid (split_at eng s w0) = split_guid (split_at eng s w)"
    and "split_destroying (split_at eng s w0) = split_destroying (split_at eng s w)"
    and "readonly v w0 = readonly v w"
  unfolding assms using header_frame [of t "xaccTransBeginEdit t" w n v u s] header_writes [of t "xaccTransBeginEdit t" w]
    header_guid [of t "xaccTransBeginEdit t" w] by auto

lemma begun_plan:
  fixes t :: Transaction and book :: QofBook and plan :: TransactionPlan and w :: 'w and w' :: 'w
  defines "w0 \<equiv> eng_do eng (xaccTransBeginEdit t) w"
  defines "w1 \<equiv> ApplyPlan eng book t plan w0" and "old \<equiv> kept_splits (tp_splits plan) @ tp_doomed plan"
  assumes plan: "PlanTransaction eng ho book spec existing w' = Inr plan" and lib: "calendar (lib eng)" "guid_text (lib eng)"
    and book: "same_book eng w' w" and inj: "guids_apart t w"
    and alive: "\<forall>s. s \<in># splits_of eng t w \<longrightarrow> \<not> split_destroying (split_at eng s w)"
    and old: "distinct old" "splits_of eng t w = mset old"
    and named: "list_all2 (\<lambda>s p. sm_guid s \<noteq> [] \<longrightarrow> (\<exists>e. sp_existing p = Some e \<and> split_guid_string eng w e = sm_guid s))
      (tm_splits spec) (tp_splits plan)"
    and un: "plan_unrounded unrounded (tp_splits plan)" and more: "room (length (tp_splits plan)) w"
    and free: "tp_doomed plan = [] \<or> \<not> readonly t w"
  shows "describes_transaction eng book spec w' (TransactionToProto eng t w1)"
    and "tm_guid (TransactionToProto eng t w1) = GuidToString (lib eng) (trans_guid (trans_at eng t w))"
    and "trans_guid (trans_at eng u w) \<noteq> trans_guid (trans_at eng t w) \<Longrightarrow> same_trans eng u w w1"
    and "trans_guid (trans_at eng u w) \<noteq> trans_guid (trans_at eng t w) \<Longrightarrow> r \<in># splits_of eng u w \<Longrightarrow>
       (\<forall>s. s \<in># splits_of eng t w \<longrightarrow> split_guid (split_at eng r w) \<noteq> split_guid (split_at eng s w)) \<Longrightarrow> same_split eng r w w1"
proof -
  note b = begun_edit [OF w0_def [THEN meta_eq_to_obj_eq]]
  have guids: "split_guid_string eng w0 = split_guid_string eng w" by (simp add: split_guid_string_def fun_eq_iff b(7))
  have "guids_apart t w0" using inj by (simp add: guids_apart_def b(3,7))
  note ends = ApplyPlan_describes [OF plan lib same_book_trans [OF book b(1)] b(2) [OF more] un this _ old(1) [unfolded old_def]
      old(2) [unfolded old_def, folded b(3)] free [folded b(9)] named [folded guids], unfolded b(3,4,8), folded w1_def,
      OF alive [rule_format], unfolded b(4)]
  show "describes_transaction eng book spec w' (TransactionToProto eng t w1)"
    "tm_guid (TransactionToProto eng t w1) = GuidToString (lib eng) (trans_guid (trans_at eng t w))" by (rule ends(1,2), assumption)+
  assume u: "trans_guid (trans_at eng u w) \<noteq> trans_guid (trans_at eng t w)"
  note su = b(5) [OF u]
  have u0: "trans_guid (trans_at eng u w0) \<noteq> trans_guid (trans_at eng t w)" using same_trans_guid [OF su] u by simp
  show "same_trans eng u w w1" using same_trans_trans [OF su] ends(3) [OF _ u0] by blast
  assume r: "r \<in># splits_of eng u w"
    and a: "\<forall>s. s \<in># splits_of eng t w \<longrightarrow> split_guid (split_at eng r w) \<noteq> split_guid (split_at eng s w)"
  show "same_split eng r w w1"
  proof (rule same_split_trans)
    show "same_split eng r w w0" using a by (intro b(6)) auto
    have "apart w0 r old" using a old(2) by (intro apartI) (simp add: b(7))
    then show "same_split eng r w0 w1" using r su by (intro ends(4) [OF _ u0]) (simp_all add: same_trans_def old_def)
  qed
qed

end

section \<open>Properties\<close>

text \<open>
  C9. \<^verbatim>\<open>UpdateTransaction\<close> is a full replacement. When its checks pass, the response names the
  transaction of the request, carries the request's date, number, description, entry time and the
  currency that was looked up, and its splits answer the request's one for one: a named split
  keeps its GUID, every unnamed one is new, a split the request leaves out is gone. All other
  transactions are as they were, and so are their splits. The checks alone do not ensure this, so
  the following is asked as well: the values and quantities are multiples of the smallest units of
  the commodities (the checks accept finer ones, such as 1/3, 1/3 and -2/3, and the setters round
  them); the engine still has new GUIDs for the new splits; the transaction's splits have distinct
  GUIDs and none is being destroyed; and the transaction is not marked read-only when a split of
  it is to be removed (\<^verbatim>\<open>xaccSplitDestroy\<close> then refuses, and its result is ignored).
\<close>
theorem UpdateTransaction_replaces:
  assumes store: "trans_store eng unrounded room readonly" and lib: "calendar (lib eng)" "guid_text (lib eng)" and ho: "\<And>m. mset (ho m) = mset m"
    and checks: "UpdateTransaction_checks eng api ho spec x = Ret (book, t, plan)"
    and edit: "UpdateTransaction_edit eng (book, t, plan) x = (out, x1, x2)"
    and guids: "distinct (map (split_guid_string eng (snd x)) (xaccTransGetSplitList (trans_at eng t (snd x))))"
    and alive: "\<forall>s. s \<in># splits_of eng t (snd x) \<longrightarrow> \<not> split_destroying (split_at eng s (snd x))"
    and plan: "plan_unrounded unrounded (tp_splits plan)" "room (length (tp_splits plan)) (snd x)"
    and free: "tp_doomed plan = [] \<or> \<not> readonly t (snd x)"
  shows "string_to_guid (lib eng) (c_str (tm_guid out)) = string_to_guid (lib eng) (c_str (tm_guid spec)) \<and>
     describes_transaction eng book spec (snd x) out \<and>
     (\<forall>u. trans_guid (trans_at eng u (snd x)) \<noteq> trans_guid (trans_at eng t (snd x)) \<longrightarrow>
        same_trans eng u (snd x) (snd x1) \<and>
        (\<forall>r. r \<in># splits_of eng u (snd x) \<and>
             (\<forall>s. s \<in># splits_of eng t (snd x) \<longrightarrow> split_guid (split_at eng r (snd x)) \<noteq> split_guid (split_at eng s (snd x))) \<longrightarrow>
           same_split eng r (snd x) (snd x1)))"
proof -
  from edit have out: "out = TransactionToProto eng t (snd x1)"
    and x1: "snd x1 = ApplyPlan eng book t plan (eng_do eng (xaccTransBeginEdit t) (snd x))"
    by (auto simp: UpdateTransaction_edit_def Let_def)
  from checks have found: "FindTransaction eng book (tm_guid spec) ''transaction.guid'' (snd x) = Inr t"
    and planned: "PlanTransaction eng ho book spec (Some t) (snd x) = Inr plan"
    by (auto simp: UpdateTransaction_checks_def attempt_eq_Ret)
  have apart: "trans_store.guids_apart eng t (snd x)"
    using guids unfolding trans_store.guids_apart_def [OF store]
    by (auto simp: distinct_map splits_of_def split_guid_string_def inj_on_def)
  note ends = trans_store.begun_plan [OF store planned lib same_refl(3) apart alive
      update_plan_splits [OF planned guids ho] plan free, folded x1]
  have "string_to_guid (lib eng) (c_str (tm_guid out)) = string_to_guid (lib eng) (c_str (tm_guid spec))"
    using found ends(2) lib(2) trans_store.trans_lookup [OF store]
    by (auto simp: out FindTransaction_eq_Inr guid_text_def GuidToString_def)
  with ends show ?thesis unfolding out by blast
qed

text \<open>
  C10. \<^verbatim>\<open>PostTransaction\<close> stores what was asked. When its checks pass, the response carries the
  GUID the engine gave the new transaction, the request's date, number, description, entry time
  and the currency that was looked up, and its splits answer the request's one for one; no
  transaction that was there before is changed, nor is any of its splits. Beyond the checks this
  asks that the values and quantities are multiples of the smallest units of the commodities (the
  checks accept finer ones, which the setters round) and that the engine still has new GUIDs for
  the transaction and its splits.
\<close>
theorem PostTransaction_stores:
  assumes store: "trans_store eng unrounded room readonly" and lib: "calendar (lib eng)" "guid_text (lib eng)" and ho: "\<And>m. mset (ho m) = mset m"
    and checks: "PostTransaction_checks eng api ho spec x = Ret (book, plan)"
    and edit: "PostTransaction_edit eng (book, plan) x = (out, x1, x2)"
    and fresh: "xaccMallocTransaction eng book (snd x) = (t, w0)"
    and plan: "plan_unrounded unrounded (tp_splits plan)" "room (Suc (length (tp_splits plan))) (snd x)"
  shows "string_to_guid (lib eng) (c_str (tm_guid out)) = Some (trans_guid (trans_at eng t w0)) \<and>
     describes_transaction eng book spec (snd x) out \<and>
     (\<forall>u. trans_guid (trans_at eng u (snd x)) \<noteq> trans_guid (trans_at eng t w0) \<longrightarrow>
        same_trans eng u (snd x) (snd x1) \<and> (\<forall>r. r \<in># splits_of eng u (snd x) \<longrightarrow> same_split eng r (snd x) (snd x1)))"
proof -
  from edit fresh have out: "out = TransactionToProto eng t (snd x1)"
    and x1: "snd x1 = ApplyPlan eng book t plan (eng_do eng (xaccTransBeginEdit t) w0)"
    by (auto simp: PostTransaction_edit_def Let_def)
  from checks have planned: "PlanTransaction eng ho book spec None (snd x) = Inr plan"
    by (auto simp: PostTransaction_checks_def attempt_eq_Ret)
  note new = trans_store.new_trans [OF store fresh plan(2)] and posted = post_plan_splits [OF planned ho]
  have apart: "trans_store.guids_apart eng t w0" using new unfolding trans_store.guids_apart_def [OF store] by simp
  have none: "splits_of eng t w0 = mset (kept_splits (tp_splits plan) @ tp_doomed plan)"
    "distinct (kept_splits (tp_splits plan) @ tp_doomed plan)" using new posted(1,2) by simp_all
  have book: "same_book eng (snd x) w0" and more: "room (length (tp_splits plan)) w0" using new by blast+
  have free: "tp_doomed plan = [] \<or> \<not> readonly t w0" using posted(2) by simp
  have alive: "\<forall>s. s \<in># splits_of eng t w0 \<longrightarrow> \<not> split_destroying (split_at eng s w0)" using new by simp
  note ends = trans_store.begun_plan [OF store planned lib book apart alive none(2,1) posted(3) plan(1) more free, folded x1]
  have frame: "same_trans eng u (snd x) (snd x1) \<and> (\<forall>r. r \<in># splits_of eng u (snd x) \<longrightarrow> same_split eng r (snd x) (snd x1))"
    if u: "trans_guid (trans_at eng u (snd x)) \<noteq> trans_guid (trans_at eng t w0)" for u
  proof -
    have su: "same_trans eng u (snd x) w0" using new u by blast
    have u0: "trans_guid (trans_at eng u w0) \<noteq> trans_guid (trans_at eng t w0)" using same_trans_guid [OF su] u by simp
    have "same_split eng r (snd x) (snd x1)" if "r \<in># splits_of eng u (snd x)" for r
    proof (rule same_split_trans)
      show "same_split eng r (snd x) w0" using new that by blast
      show "same_split eng r w0 (snd x1)" by (rule ends(4) [OF u0]) (use that su new in \<open>simp_all add: same_trans_def\<close>)
    qed
    with same_trans_trans [OF su ends(3) [OF u0]] show ?thesis by blast
  qed
  have "string_to_guid (lib eng) (c_str (tm_guid out)) = Some (trans_guid (trans_at eng t w0))"
    using ends(2) lib(2) by (simp add: out guid_text_def GuidToString_def)
  with ends(1) frame show ?thesis unfolding out by blast
qed

end
