(* ===== verification/Concrete_Posts.thy ===== *)
theory Concrete_Posts
  imports Concrete_Runs Posted_Transactions
begin

text \<open>
  Posting and changing a transaction at concrete inputs, on the reference engine.
\<close>

section \<open>What transactions hold\<close>

lemma ref_calendar [simp]: "calendar ref_lib"
  by (simp add: calendar_def ref_lib_def g_date_set_dmy_def)

lemma ref_rooms:
  "n \<le> 1000 \<Longrightarrow> ref_room n (snd ref_state)" "n \<le> 1000 \<Longrightarrow> ref_room n (snd ledger_state)"
  by (auto simp: ref_room_def ref_trans_def ref_state_def ref_book_def ref_disk_def ledger_state_def ledger_disk_def new_trans_def
      key_def split: option.splits if_splits)

lemma ref_planned:
  "case PostTransaction_checks ref_engine ref_api (\<lambda>t. t) (tr_transaction post_request) ref_state of
     Ret (b, plan) \<Rightarrow> b = 5 \<and> length (tp_splits plan) = 2 | _ \<Rightarrow> False"
  "case UpdateTransaction_checks ref_engine ref_api (\<lambda>t. t) (tr_transaction change_request) ledger_state of
     Ret (b, t, plan) \<Rightarrow> b = 5 \<and> t = 9 \<and> length (tp_splits plan) = 2 | _ \<Rightarrow> False"
  by code_simp+

theorem UpdateTransaction_replaces_witness:
  "\<exists>plan out x1 x2. UpdateTransaction_checks ref_engine ref_api (\<lambda>t. t) (tr_transaction change_request) ledger_state = Ret (5, 9, plan) \<and>
     UpdateTransaction_edit ref_engine (5, 9, plan) ledger_state = (out, x1, x2) \<and>
     rel_mset (describes_split ref_lib) {#split_spec ''11'' 7, split_spec [] (- 7)#} (mset (tm_splits out))"
proof -
  obtain plan where c: "UpdateTransaction_checks ref_engine ref_api (\<lambda>t. t) (tr_transaction change_request) ledger_state = Ret (5, 9, plan)"
    and l: "length (tp_splits plan) = 2"
    using ref_planned(2) by (auto split: flow.splits)
  obtain out x1 x2 where e: "UpdateTransaction_edit ref_engine (5, 9, plan) ledger_state = (out, x1, x2)" by (metis prod_cases3)
  have splits: "xaccTransGetSplitList (trans_at ref_engine 9 (snd ledger_state)) = [11, 12]" by code_simp
  have guids: "distinct (map (split_guid_string ref_engine (snd ledger_state)) [11, 12])"
    and alive: "\<not> split_destroying (split_at ref_engine 11 (snd ledger_state))" "\<not> split_destroying (split_at ref_engine 12 (snd ledger_state))"
    by code_simp+
  from UpdateTransaction_replaces [OF ref_transactions.trans_store_axioms _ _ _ c e] guids alive splits l ref_rooms(2) [of 2]
  have "describes_transaction ref_engine 5 (tr_transaction change_request) (snd ledger_state) out"
    by (simp add: plan_unrounded_def splits_of_def)
  with c e show ?thesis by (simp add: describes_transaction_def change_request_def lunch_def)
qed

theorem PostTransaction_stores_witness:
  "\<exists>plan out x1 x2. PostTransaction_checks ref_engine ref_api (\<lambda>t. t) (tr_transaction post_request) ref_state = Ret (5, plan) \<and>
     PostTransaction_edit ref_engine (5, plan) ref_state = (out, x1, x2) \<and> tm_description out = ''lunch'' \<and>
     rel_mset (describes_split ref_lib) {#split_spec [] 8, split_spec [] (- 8)#} (mset (tm_splits out))"
proof -
  obtain plan where c: "PostTransaction_checks ref_engine ref_api (\<lambda>t. t) (tr_transaction post_request) ref_state = Ret (5, plan)"
    and l: "length (tp_splits plan) = 2"
    using ref_planned(1) by (auto split: flow.splits)
  obtain out x1 x2 where e: "PostTransaction_edit ref_engine (5, plan) ref_state = (out, x1, x2)" by (metis prod_cases3)
  obtain t w0 where fresh: "xaccMallocTransaction ref_engine 5 (snd ref_state) = (t, w0)" by fastforce
  from PostTransaction_stores [OF ref_transactions.trans_store_axioms _ _ _ c e fresh] l ref_rooms(1) [of 3]
  have "describes_transaction ref_engine 5 (tr_transaction post_request) (snd ref_state) out"
    by (simp add: plan_unrounded_def)
  moreover have "c_str ''lunch'' = ''lunch''" by code_simp
  ultimately show ?thesis using c e by (simp add: describes_transaction_def post_request_def lunch_def)
qed

end
