(* ===== verification/Mkbook.thy ===== *)
theory Mkbook
  imports Session
begin

text \<open>
  \<^verbatim>\<open>tools/mkbook/mkbook.cpp\<close>, the tool that creates an empty book. A run ends with
  the lines on standard output, the text on standard error, the exit code and the engine world.
\<close>

record 'w mkbook_end =
  pe_stdout :: "string list"
  pe_stderr :: "string list"  \<comment> \<open>the pieces of the one message\<close>
  pe_code :: int
  pe_world :: 'w

text \<open>\<open>printed_null\<close> stands for what \<^verbatim>\<open>%s\<close> prints for a null pointer, which C leaves open.\<close>

definition mkbook_failed :: "string \<Rightarrow> 'w session_api \<Rightarrow> string \<Rightarrow> QofSession \<Rightarrow> 'w \<Rightarrow> 'w mkbook_end" where
  "mkbook_failed printed_null api stage session w =
     \<lparr>pe_stdout = [],
      pe_stderr = [stage, case qof_session_get_error_message api session w of Some m \<Rightarrow> m | None \<Rightarrow> printed_null],
      pe_code = 1, pe_world = w\<rparr>"

text \<open>\<open>args\<close> are the arguments after the program's name, so \<^verbatim>\<open>argc\<close> is one more.\<close>

definition mkbook_main ::
  "string \<Rightarrow> 'w global_api \<Rightarrow> 'w engine \<Rightarrow> 'w session_api \<Rightarrow> string list \<Rightarrow> 'w \<Rightarrow> 'w mkbook_end" where
  "mkbook_main printed_null ga eng api args w =
     (case args of
        [uri] \<Rightarrow>
          let (session, w1) = qof_session_new api (GlobalInit ga w);
              w2 = qof_session_begin api session (c_str uri) SESSION_NEW_STORE w1
          in if qof_session_get_error api session w2 \<noteq> ERR_BACKEND_NO_ERR
             then mkbook_failed printed_null api ''begin failed: '' session w2
             else
               let book = qof_session_get_book api session w2;
                   root = gnc_book_get_root_account eng book w2;
                   w3 = qof_session_save api session w2
               in if qof_session_get_error api session w3 \<noteq> ERR_BACKEND_NO_ERR
                  then mkbook_failed printed_null api ''save failed: '' session w3
                  else \<lparr>pe_stdout = [GuidToString (lib eng) (account_guid (account_at eng root w3))], pe_stderr = [],
                        pe_code = 0,
                        pe_world = GlobalShutdown ga (qof_session_destroy api session (qof_session_end api session w3))\<rparr>
      | _ \<Rightarrow> \<lparr>pe_stdout = [], pe_stderr = [''usage: daichod-mkbook <sqlite3:///abs/path>''], pe_code = 1, pe_world = w\<rparr>)"

text \<open>
  A book is announced exactly when it was saved: the tool exits with 0 just when it prints a
  GUID and nothing on standard error, and otherwise exits with 1, says why and prints no GUID.
\<close>

lemma mkbook_announces_iff_saved:
  "let e = mkbook_main printed_null ga eng api args w
   in (pe_code e = 0 \<and> length (pe_stdout e) = 1 \<and> pe_stderr e = []) \<or> (pe_code e = 1 \<and> pe_stdout e = [] \<and> pe_stderr e \<noteq> [])"
  by (auto simp: mkbook_main_def mkbook_failed_def Let_def split: list.split prod.split)

text \<open>Nothing is touched, not even the libraries' initialization, without exactly one argument.\<close>

lemma mkbook_usage: "length args \<noteq> 1 \<Longrightarrow> pe_world (mkbook_main printed_null ga eng api args w) = w"
  by (auto simp: mkbook_main_def split: list.split)

end
