(* ===== verification/Spec2Isabelle.thy ===== *)
theory Spec2Isabelle
  imports Concrete_Calls Concrete_Records Concrete_Posts Mkbook
begin

text \<open>
  daichod is a daemon around the GnuCash engine: it holds one book open and offers it to one
  client over gRPC (\<^verbatim>\<open>proto/shim.proto\<close>), with mutations that take effect exactly once under the
  client's mutation ids, across crashes and restarts. This development models the C++ sources
  under \<^verbatim>\<open>src/src\<close> and proves what makes them correct.

  \<^bold>\<open>The parts and how they interact.\<close> The gRPC services (\<^verbatim>\<open>rpc/*_service.cpp\<close>) hand every call to
  the engine worker (\<^verbatim>\<open>engine/worker.cpp\<close>), one thread with a bounded FIFO queue. Reads convert
  engine objects to messages (\<^verbatim>\<open>engine/map.cpp\<close>). Mutations run through \<^verbatim>\<open>RunMutation\<close>
  (\<^verbatim>\<open>rpc/mutation.h\<close>): validate the id, journal the intent (\<^verbatim>\<open>journal/journal.cpp\<close>, a SQLite sidecar),
  replay a recorded outcome if there is one, otherwise check, edit the engine, journal the
  response as pending, commit, and journal the outcome. After a crash, \<^verbatim>\<open>main.cpp\<close> takes the locks,
  snapshots the files (\<^verbatim>\<open>util/backup.cpp\<close>), opens the journal and the book (\<^verbatim>\<open>engine/session.cpp\<close>),
  checks the book, and lets startup reconciliation (\<^verbatim>\<open>journal/recovery.cpp\<close>) decide from the book
  which pending mutations had been committed.

  \<^bold>\<open>Theories.\<close>
  \<^item> \<open>Prelude\<close>: results, \<open>flow\<close> (return, throw, abort), strings as C++ uses them.
  \<^item> \<open>Errors\<close>: \<^verbatim>\<open>rpc/error.{h,cpp}\<close>. Error codes, the deterministic verdicts, status rendering.
  \<^item> \<open>Worker\<close>: \<^verbatim>\<open>engine/worker.{h,cpp}\<close>. The worker as a step relation of clients, engine thread and
    drain, its queue as the locale \<open>bounded_fifo\<close>; it refines the sequential execution of the admitted tasks in FIFO order, and drains.
  \<^item> \<open>Worker_Threads\<close>: the same worker thread by thread: the mutex, the condition variable with lost
    notifications and spurious wake-ups, callers waiting for their futures.
  \<^item> \<open>Journal\<close>: \<^verbatim>\<open>journal/journal.{h,cpp}\<close>, \<^verbatim>\<open>journal/internal.proto\<close>. The two tables as lists of rows,
    every SQL statement as an operation, their laws as the locale \<open>intent_journal\<close>.
  \<^item> \<open>Mutation\<close>: \<^verbatim>\<open>rpc/mutation.{h,cpp}\<close>, \<^verbatim>\<open>rpc/rpc_util.h\<close>, \<^verbatim>\<open>util/crash_point.h\<close>. The protocol, the contract
    of the handlers as the locale \<open>planned_apply\<close>, interpreted by every mutating handler.
  \<^item> \<open>Engine\<close>, \<open>Contract\<close>, \<open>Engine_Map\<close>: the boundary to libgnucash, the messages, and
    \<^verbatim>\<open>engine/map.{h,cpp}\<close>; \<open>proto_codec\<close> is the contract of the conversions.
  \<^item> \<open>Ordered_Map\<close>: \<^verbatim>\<open>std::map\<close> with \<^verbatim>\<open>try_emplace\<close>, as the sums over splits use it.
  \<^item> \<open>Session\<close>: \<^verbatim>\<open>engine/session.{h,cpp}\<close>, \<^verbatim>\<open>util/fail_point.h\<close>. Open, close and the startup checks; the
    session as a state machine.
  \<^item> \<open>Recovery\<close>: \<^verbatim>\<open>journal/recovery.{h,cpp}\<close>. \<open>judged_apply\<close> extends \<open>planned_apply\<close> by what a handler must
    offer for recovery to judge it from the reopened book, \<open>recoverable_apply\<close> adds that its commits
    reach the database, so that recovery is exact.
  \<^item> \<open>Account_Service\<close>, \<open>Transaction_Service\<close>, \<open>Commodity_Service\<close>, \<open>Session_Service\<close>: the RPCs.
  \<^item> \<open>Account_Effects\<close>: what the edits of the account RPCs write, over the locale \<open>account_store\<close>, the
    documented effects of the engine's account setters.
  \<^item> \<open>Transaction_Effects\<close>, \<open>Posted_Transactions\<close>: what carrying out a transaction plan writes, over the
    locale \<open>trans_store\<close>, and the two RPCs that do it from the request to the response.
  \<^item> \<open>Services\<close>: \<^verbatim>\<open>rpc/*_service.h\<close>. Every RPC as a value, every service as the function that dispatches
    it, all on one state (journal, session, engine); what holds of every call.
  \<^item> \<open>Backup\<close>: \<^verbatim>\<open>util/backup.{h,cpp}\<close>, on a file system with faults, reading on in a directory included.
  \<^item> \<open>Command_Line\<close>, \<open>Process_Locks\<close>, \<open>Daemon\<close>: \<^verbatim>\<open>main.cpp\<close>. Option parsing with \<^verbatim>\<open>getopt_long\<close>, \<^verbatim>\<open>std::stoi\<close> and
    \<^verbatim>\<open>std::stoul\<close>; the locks, and any number of daemons taking them as the step relation \<open>lock_step\<close>;
    startup and shutdown stage by stage on a machine (locks, pid and socket files, standard error,
    signal mask and pending signals, files, journal, engine).
  \<^item> \<open>Lifetime\<close>: whole lives of the daemon as the step relation \<open>life_step\<close>: it starts, serves calls, dies in
    a call or between two, shuts down, fails to start, and starts again.
  \<^item> \<open>Concurrent_Calls\<close>: the handlers as tasks of the worker's threads; the threads refine the life of
    \<open>Lifetime\<close>, so what holds of a life holds of every interleaving of clients.
  \<^item> \<open>Mkbook\<close>: \<^verbatim>\<open>tools/mkbook/mkbook.cpp\<close> and the process-wide initialization of \<^verbatim>\<open>engine/session.cpp\<close>.
  \<^item> \<open>Crash_Recovery\<close>, \<open>Recovered_Records\<close>: the eight mutating RPCs against a crash, from the laws of the
    engine's edits.
  \<^item> \<open>Reference_Wire\<close>, \<open>Reference_Messages\<close>, \<open>Reference_Engine\<close>, \<open>Concrete_Runs\<close>, \<open>Concrete_Posts\<close>, \<open>Concrete_Lives\<close>,
    \<open>Concrete_Calls\<close>, \<open>Concrete_Records\<close>:
    concrete codecs, a small engine and concrete inputs, which show that what the properties assume can hold.

  \<^bold>\<open>State and effects.\<close> Members of a class are a record, an operation a function from state to
  state; a throw is a value of \<open>exn\<close>, an aborting process or a loop that never ends the value
  \<open>Abort\<close>. A mutating handler is its checks, which change nothing, and its edit: the response,
  the engine before the commit and the engine after it. The engine world \<open>'w\<close> is a parameter; an
  edit is the list of the calls the source makes, in its order.

  \<^bold>\<open>What is assumed.\<close> Protobuf (parsing undoes serializing), SQLite (failures of statements are a
  parameter; order of rows), SHA-256, libgnucash, GLib, the faults of the file system, and how a serving
  period of the gRPC server ends are parameters. The laws the properties use are named predicates: \<open>guid_text\<close>,
  \<open>exact_arithmetic\<close>, \<open>private_account_edits\<close>, \<open>durable_account_commits\<close>, \<open>durable_account_deletes\<close>,
  \<open>durable_trans_deletes\<close>, \<open>private_price_edits\<close>, \<open>durable_prices\<close>, \<open>atomic_trans_edit\<close>, \<open>uncommitted_update\<close>,
  \<open>account_store\<close>, \<open>trans_store\<close>, \<open>calendar\<close>, \<open>no_faults\<close>, \<open>sql_order_by\<close>, \<open>machine_ready\<close>; each holds for the reference
  instances. Edits of the engine nest (\<open>edit_level\<close>): durability of account and price edits is asked of
  outermost commits alone, in an engine in which no other object is being edited, and the crash
  properties that rest on it start from an \<open>idle\<close> engine; the price database may refuse a price
  (\<open>takes\<close>), the setters may round numbers that the commodities cannot express (\<open>unrounded\<close>), and a
  read-only transaction keeps its splits (\<open>readonly\<close>). Which URIs address one book is \<open>addresses\<close>, stated
  apart from the code that derives the lock from the URI.

  \<^bold>\<open>What the properties show.\<close> Exactly-once execution under an id, within one call,
  over whole lives of the daemon and between concurrent clients, as the threads refine the life that
  serves one call at a time; that no life loses an outcome or keeps the daemon from
  starting again; the contract of every RPC; that one daemon at most is past its locks on a book (a file, or a database
  with the journals in one directory); that a failed startup says so, one uncaught exception apart, and that shutdown ends
  with the right exit code; the states a death at each of the four crash points leaves; that restart and reconciliation
  turn them into either no trace or a recorded, replayable success, for seven of the eight mutating RPCs (a price that the engine refused apart), and for
  \<^verbatim>\<open>UpdateTransaction\<close> into what a comparison with the reopened book decides; that the daemon serves only a checked and
  reconciled book; that calls on the worker are atomic, in the order of admission, and that no caller waits for
  ever; that accepted transactions balance, and that a posted or changed transaction holds the request, split
  for split, and nothing else changes; that
  each page equals its loop-free description and paging enumerates; that creating and updating
  an account stores the whole request and nothing else; which dates are accepted; that the reparent guard is exact; the session's invariant; snapshot safety;
  and, beside them, what the code does not keep (a lost outcome write, a password tail, two daemons on one database).

  \<^bold>\<open>Loops and bounds.\<close> Loops over lists are structural recursions. The parent walk of
  \<^verbatim>\<open>CheckNoCycle\<close> may not end on a corrupt tree: it is a partial function, and proved to end on
  every tree without a cycle. A client that follows page tokens is given fuel; one call more than
  there are matching splits is proved to be enough. 64-bit integers are integers, as the code
  computes with them only through the engine; narrowing casts (dates, process ids) and
  the queue depth are words.

  \<^bold>\<open>Not modelled.\<close> The gRPC server and its thread pool, beyond that calls reach the handlers and that
  \<^verbatim>\<open>Wait\<close> returns: it is a library the sources only call. The wrappers that read a column of a SQLite row and
  that call GLib's checksum do no more than read NULL as the empty string; they are the row lists of \<open>Journal\<close> and its
  parameter for SHA-256. Class and function declarations in the headers are modelled with their
  definitions. Tests and build files are no part of the program.
\<close>

end
